(* ===== verification/Rust_Prelude.thy ===== *)
theory Rust_Prelude
  imports Main "HOL-Library.Word"
begin

text \<open>
  The vocabulary every component of the bootloader shares: results of Rust code
  (\<open>res\<close>: a value, a returned \<open>Err\<close>, or a panic), the \<open>for\<close> loop over an iterator
  whose body may leave early (\<open>foldR\<close>), integer arithmetic as the crates are built
  (\<^verbatim>\<open>overflow-checks = true\<close> in \<^verbatim>\<open>src/Cargo.toml\<close>, so an overflow is a panic), and the
  little-endian byte encoding of integers.  Integers of a fixed width are natural numbers
  with the width's check written out at every operation; bytes are \<open>8 word\<close>.
\<close>

section \<open>Definitions\<close>

subsection \<open>Results\<close>

text \<open>
  Why a panic happened: an arithmetic overflow check, a panic of the bootloader's own
  source (with its message), or a panic inside a crate the source calls.
\<close>

datatype panic = Overflow | Explicit string | External

datatype 'a res = Ok 'a | Err string | Panic panic

fun bindR :: "'a res \<Rightarrow> ('a \<Rightarrow> 'b res) \<Rightarrow> 'b res" where
  "bindR (Ok x) f = f x"
| "bindR (Err e) f = Err e"
| "bindR (Panic p) f = Panic p"

fun is_ok :: "'a res \<Rightarrow> bool" where
  "is_ok (Ok x) = True"
| "is_ok (Err e) = False"
| "is_ok (Panic p) = False"

fun is_err :: "'a res \<Rightarrow> bool" where
  "is_err (Ok x) = False"
| "is_err (Err e) = True"
| "is_err (Panic p) = False"

fun is_panic :: "'a res \<Rightarrow> bool" where
  "is_panic (Ok x) = False"
| "is_panic (Err e) = False"
| "is_panic (Panic p) = True"

text \<open>\<open>Option::unwrap\<close> and \<open>Option::expect\<close>; \<open>Option::ok_or\<close>; \<open>Result::unwrap\<close>;
  \<open>Result::map_err\<close> with a constant message; \<open>assert!\<close>.\<close>

definition expect_some :: "string \<Rightarrow> 'a option \<Rightarrow> 'a res" where
  "expect_some msg v = (case v of Some x \<Rightarrow> Ok x | None \<Rightarrow> Panic (Explicit msg))"

definition ok_or :: "string \<Rightarrow> 'a option \<Rightarrow> 'a res" where
  "ok_or msg v = (case v of Some x \<Rightarrow> Ok x | None \<Rightarrow> Err msg)"

fun expect_ok :: "string \<Rightarrow> 'a res \<Rightarrow> 'a res" where
  "expect_ok msg (Ok x) = Ok x"
| "expect_ok msg (Err e) = Panic (Explicit msg)"
| "expect_ok msg (Panic p) = Panic p"

fun map_err :: "string \<Rightarrow> 'a res \<Rightarrow> 'a res" where
  "map_err msg (Ok x) = Ok x"
| "map_err msg (Err e) = Err msg"
| "map_err msg (Panic p) = Panic p"

definition assertR :: "string \<Rightarrow> bool \<Rightarrow> unit res" where
  "assertR msg b = (if b then Ok () else Panic (Explicit msg))"

text \<open>A \<open>for\<close> loop: the body maps the loop state to the next one, or leaves the function.\<close>

primrec foldR :: "('a \<Rightarrow> 's \<Rightarrow> 's res) \<Rightarrow> 'a list \<Rightarrow> 's \<Rightarrow> 's res" where
  "foldR f [] s = Ok s"
| "foldR f (x # xs) s = bindR (f x s) (foldR f xs)"

text \<open>\<open>iter.map(f).collect()\<close> with a body that may leave.\<close>

primrec mapR :: "('a \<Rightarrow> 'b res) \<Rightarrow> 'a list \<Rightarrow> 'b list res" where
  "mapR f [] = Ok []"
| "mapR f (x # xs) = bindR (f x) (\<lambda>y. bindR (mapR f xs) (\<lambda>ys. Ok (y # ys)))"

text \<open>Sequencing for computations with fuel, where \<open>None\<close> means that the fuel ran out.\<close>

fun bindF :: "'a res option \<Rightarrow> ('a \<Rightarrow> 'b res option) \<Rightarrow> 'b res option" where
  "bindF None f = None"
| "bindF (Some (Ok x)) f = f x"
| "bindF (Some (Err e)) f = Some (Err e)"
| "bindF (Some (Panic p)) f = Some (Panic p)"

subsection \<open>Integers\<close>

type_synonym u8 = "8 word"

text \<open>Arithmetic of an unsigned type of \<open>w\<close> bits under overflow checks.\<close>

definition add_w :: "nat \<Rightarrow> nat \<Rightarrow> nat \<Rightarrow> nat res" where
  "add_w w a b = (if a + b < 2 ^ w then Ok (a + b) else Panic Overflow)"

definition sub_w :: "nat \<Rightarrow> nat \<Rightarrow> nat res" where
  "sub_w a b = (if b \<le> a then Ok (a - b) else Panic Overflow)"

definition mul_w :: "nat \<Rightarrow> nat \<Rightarrow> nat \<Rightarrow> nat res" where
  "mul_w w a b = (if a * b < 2 ^ w then Ok (a * b) else Panic Overflow)"

definition div_w :: "nat \<Rightarrow> nat \<Rightarrow> nat res" where
  "div_w a b = (if b = 0 then Panic (Explicit ''attempt to divide by zero'') else Ok (a div b))"

text \<open>\<open>u16::try_from(x).unwrap()\<close> and its kin: the value if it fits in \<open>w\<close> bits.\<close>

definition try_into_w :: "nat \<Rightarrow> nat \<Rightarrow> nat res" where
  "try_into_w w a = (if a < 2 ^ w then Ok a else Panic (Explicit ''out of range integral type conversion''))"

abbreviation add_u64 :: "nat \<Rightarrow> nat \<Rightarrow> nat res" where
  "add_u64 \<equiv> add_w 64"

abbreviation mul_u64 :: "nat \<Rightarrow> nat \<Rightarrow> nat res" where
  "mul_u64 \<equiv> mul_w 64"

abbreviation add_u32 :: "nat \<Rightarrow> nat \<Rightarrow> nat res" where
  "add_u32 \<equiv> add_w 32"

abbreviation mul_u32 :: "nat \<Rightarrow> nat \<Rightarrow> nat res" where
  "mul_u32 \<equiv> mul_w 32"

subsection \<open>Bytes\<close>

text \<open>
  \<open>to_le_bytes\<close> and \<open>from_le_bytes\<close> of an unsigned integer of \<open>n\<close> bytes.  The targets
  are little-endian, so \<open>to_ne_bytes\<close> and \<open>from_ne_bytes\<close> are the same functions.
\<close>

primrec to_le_bytes :: "nat \<Rightarrow> nat \<Rightarrow> u8 list" where
  "to_le_bytes 0 v = []"
| "to_le_bytes (Suc n) v = word_of_nat v # to_le_bytes n (v div 256)"

primrec from_le_bytes :: "u8 list \<Rightarrow> nat" where
  "from_le_bytes [] = 0"
| "from_le_bytes (b # bs) = unat b + 256 * from_le_bytes bs"

text \<open>\<open>slice[a..b]\<close>: a panic when the range is not inside the slice.\<close>

definition slice_range :: "'a list \<Rightarrow> nat \<Rightarrow> nat \<Rightarrow> 'a list res" where
  "slice_range xs a b =
     (if a \<le> b \<and> b \<le> length xs then Ok (take (b - a) (drop a xs))
      else Panic (Explicit ''slice index out of range''))"

definition index_slice :: "'a list \<Rightarrow> nat \<Rightarrow> 'a res" where
  "index_slice xs i =
     (if i < length xs then Ok (xs ! i) else Panic (Explicit ''index out of bounds''))"

section \<open>Lemmas\<close>

named_theorems res_simps \<open>when a composed computation returns a value, an error or a panic\<close>

subsection \<open>Results\<close>

lemma bindR_eq_Ok [res_simps]: "bindR m f = Ok y \<longleftrightarrow> (\<exists>x. m = Ok x \<and> f x = Ok y)"
  by (cases m) auto

lemma bindR_eq_Err [res_simps]: "bindR m f = Err e \<longleftrightarrow> m = Err e \<or> (\<exists>x. m = Ok x \<and> f x = Err e)"
  by (cases m) auto

lemma bindR_eq_Panic [res_simps]:
  "bindR m f = Panic p \<longleftrightarrow> m = Panic p \<or> (\<exists>x. m = Ok x \<and> f x = Panic p)"
  by (cases m) auto

lemma bindR_OkE:
  assumes "bindR m f = Ok y"
  obtains x where "m = Ok x" and "f x = Ok y"
  using assms by (cases m) auto

lemma bindR_assoc [simp]: "bindR (bindR m f) g = bindR m (\<lambda>x. bindR (f x) g)"
  by (cases m) auto

lemma bindR_Ok_right [simp]: "bindR m Ok = m"
  by (cases m) auto

lemma bindR_cong [fundef_cong]:
  "m = m' \<Longrightarrow> (\<And>x. m' = Ok x \<Longrightarrow> f x = f' x) \<Longrightarrow> bindR m f = bindR m' f'"
  by (cases m') auto

lemma is_ok_iff: "is_ok m \<longleftrightarrow> (\<exists>x. m = Ok x)"
  by (cases m) auto

lemma is_panic_iff: "is_panic m \<longleftrightarrow> (\<exists>p. m = Panic p)"
  by (cases m) auto

lemma is_panic_bindR [simp]:
  "is_panic (bindR m f) \<longleftrightarrow> is_panic m \<or> (\<exists>x. m = Ok x \<and> is_panic (f x))"
  by (cases m) auto

lemma expect_some_eq_Ok [res_simps]: "expect_some msg v = Ok x \<longleftrightarrow> v = Some x"
  by (auto simp: expect_some_def split: option.splits)

lemma expect_some_simps [simp]:
  "expect_some msg (Some x) = Ok x" "expect_some msg None = Panic (Explicit msg)"
  "expect_some msg v \<noteq> Err e"
  by (auto simp: expect_some_def split: option.splits)

lemma ok_or_eq_Ok [res_simps]: "ok_or msg v = Ok x \<longleftrightarrow> v = Some x"
  by (auto simp: ok_or_def split: option.splits)

lemma expect_ok_eq_Ok [res_simps]: "expect_ok msg m = Ok x \<longleftrightarrow> m = Ok x"
  by (cases m) auto

lemma map_err_eq_Ok [res_simps]: "map_err msg m = Ok x \<longleftrightarrow> m = Ok x"
  by (cases m) auto

lemma assertR_eq_Ok [res_simps]: "assertR msg b = Ok u \<longleftrightarrow> b"
  by (auto simp: assertR_def)

lemma assertR_simps [simp]:
  "assertR msg True = Ok ()" "assertR msg False = Panic (Explicit msg)" "assertR msg b \<noteq> Err e"
  by (auto simp: assertR_def)

lemma foldR_append [simp]: "foldR f (xs @ ys) s = bindR (foldR f xs s) (foldR f ys)"
  by (induction xs arbitrary: s) (auto intro!: bindR_cong)

text \<open>The loop rule: an invariant indexed by the elements already visited.\<close>

lemma foldR_invariant:
  assumes "foldR f xs s = Ok t"
    and "I [] s"
    and "\<And>ys z zs s s'. xs = ys @ z # zs \<Longrightarrow> I ys s \<Longrightarrow> f z s = Ok s' \<Longrightarrow> I (ys @ [z]) s'"
  shows "I xs t"
proof -
  have "foldR f zs u = Ok t \<Longrightarrow> xs = ys @ zs \<Longrightarrow> I ys u \<Longrightarrow> I xs t" for ys zs u
  proof (induction zs arbitrary: ys u)
    case Nil
    then show ?case by simp
  next
    case (Cons z zs)
    from Cons.prems(1) obtain u' where u': "f z u = Ok u'" "foldR f zs u' = Ok t"
      by (auto simp: res_simps)
    from assms(3)[OF Cons.prems(2,3) u'(1)] have "I (ys @ [z]) u'" .
    with Cons.IH[OF u'(2), of "ys @ [z]"] Cons.prems(2) show ?case by simp
  qed
  from this[OF assms(1), of "[]"] assms(2) show ?thesis by simp
qed

lemma foldR_preserves:
  assumes "foldR f xs s = Ok t" and "P s"
    and "\<And>z s s'. z \<in> set xs \<Longrightarrow> P s \<Longrightarrow> f z s = Ok s' \<Longrightarrow> P s'"
  shows "P t"
  by (rule foldR_invariant[where I = "\<lambda>_. P", OF assms(1,2)]) (use assms(3) in auto)

text \<open>The loop rule for total correctness: the body always returns and keeps the invariant.\<close>

lemma foldR_total:
  assumes "I [] s"
    and "\<And>ys z zs s. xs = ys @ z # zs \<Longrightarrow> I ys s \<Longrightarrow> \<exists>s'. f z s = Ok s' \<and> I (ys @ [z]) s'"
  shows "\<exists>t. foldR f xs s = Ok t \<and> I xs t"
proof -
  have "xs = ys @ zs \<Longrightarrow> I ys u \<Longrightarrow> \<exists>t. foldR f zs u = Ok t \<and> I xs t" for ys zs u
  proof (induction zs arbitrary: ys u)
    case Nil
    then show ?case by simp
  next
    case (Cons z zs)
    from assms(2)[OF Cons.prems] obtain u' where u': "f z u = Ok u'" "I (ys @ [z]) u'"
      by blast
    with Cons.IH[of "ys @ [z]" u'] Cons.prems(1) show ?case by simp
  qed
  from this[of "[]"] assms(1) show ?thesis by simp
qed

lemma mapR_eq_Ok [res_simps]: "mapR f xs = Ok ys \<longleftrightarrow> list_all2 (\<lambda>x y. f x = Ok y) xs ys"
  by (induction xs arbitrary: ys) (auto simp: res_simps list_all2_Cons1)

lemma mapR_Ok_map: "(\<And>x. x \<in> set xs \<Longrightarrow> f x = Ok (g x)) \<Longrightarrow> mapR f xs = Ok (map g xs)"
  by (induction xs) auto

subsection \<open>Integers\<close>

lemma add_w_eq_Ok [res_simps]: "add_w w a b = Ok c \<longleftrightarrow> a + b < 2 ^ w \<and> c = a + b"
  by (auto simp: add_w_def)

lemma sub_w_eq_Ok [res_simps]: "sub_w a b = Ok c \<longleftrightarrow> b \<le> a \<and> c = a - b"
  by (auto simp: sub_w_def)

lemma mul_w_eq_Ok [res_simps]: "mul_w w a b = Ok c \<longleftrightarrow> a * b < 2 ^ w \<and> c = a * b"
  by (auto simp: mul_w_def)

lemma div_w_eq_Ok [res_simps]: "div_w a b = Ok c \<longleftrightarrow> b \<noteq> 0 \<and> c = a div b"
  by (auto simp: div_w_def)

lemma try_into_w_eq_Ok [res_simps]: "try_into_w w a = Ok c \<longleftrightarrow> a < 2 ^ w \<and> c = a"
  by (auto simp: try_into_w_def)

lemma int_ops_not_Err [simp]:
  "add_w w a b \<noteq> Err e" "sub_w a b \<noteq> Err e" "mul_w w a b \<noteq> Err e" "div_w a b \<noteq> Err e"
  "try_into_w w a \<noteq> Err e"
  by (auto simp: add_w_def sub_w_def mul_w_def div_w_def try_into_w_def)

subsection \<open>Bytes\<close>

lemma unat_bounds:
  "unat (a :: 8 word) < 256" "unat (b :: 16 word) < 65536" "unat (c :: 32 word) < 4294967296"
  "unat (d :: 64 word) < 18446744073709551616"
  using unsigned_less[of a] unsigned_less[of b] unsigned_less[of c] unsigned_less[of d] by simp_all

lemma length_to_le_bytes [simp]: "length (to_le_bytes n v) = n"
  by (induction n arbitrary: v) auto

lemma from_to_le_bytes: "from_le_bytes (to_le_bytes n v) = v mod 256 ^ n"
proof (induction n arbitrary: v)
  case 0
  then show ?case by simp
next
  case (Suc n)
  have "v mod 256 + 256 * (v div 256 mod 256 ^ n) = v mod (256 * 256 ^ n)"
    by (simp add: mod_mult2_eq)
  with Suc show ?case by (simp add: unat_of_nat)
qed

lemma from_to_le_bytes_id [simp]: "v < 256 ^ n \<Longrightarrow> from_le_bytes (to_le_bytes n v) = v"
  by (simp add: from_to_le_bytes)

lemma to_from_le_bytes [simp]: "to_le_bytes (length bs) (from_le_bytes bs) = bs"
proof (induction bs)
  case Nil
  then show ?case by simp
next
  case (Cons b bs)
  have b: "unat b < 256" by (rule unat_bounds)
  have "(256 :: u8) = 0" by simp
  then have "(word_of_nat (unat b + 256 * from_le_bytes bs) :: u8) = b"
    by (simp only: of_nat_add of_nat_mult of_nat_numeral) simp
  moreover have "(unat b + 256 * from_le_bytes bs) div 256 = from_le_bytes bs"
    using b by simp
  ultimately show ?case using Cons by simp
qed

lemma to_from_le_bytes_length: "length bs = n \<Longrightarrow> to_le_bytes n (from_le_bytes bs) = bs"
  by auto

lemma from_le_bytes_bound: "from_le_bytes bs < 256 ^ length bs"
proof (induction bs)
  case Nil
  then show ?case by simp
next
  case (Cons b bs)
  have "unat b < 256" by (rule unat_bounds)
  moreover have "256 * from_le_bytes bs + 256 \<le> 256 * 256 ^ length bs"
    using Cons by simp
  ultimately show ?case by simp
qed

lemma to_le_bytes_zero [simp]: "to_le_bytes n 0 = replicate n 0"
  by (induction n) auto

lemma from_le_bytes_zeros [simp]: "from_le_bytes (replicate n 0) = 0"
  by (induction n) auto

lemma slice_range_eq_Ok [res_simps]:
  "slice_range xs a b = Ok ys \<longleftrightarrow> a \<le> b \<and> b \<le> length xs \<and> ys = take (b - a) (drop a xs)"
  by (auto simp: slice_range_def)

lemma index_slice_eq_Ok [res_simps]: "index_slice xs i = Ok y \<longleftrightarrow> i < length xs \<and> y = xs ! i"
  by (auto simp: index_slice_def)

lemma slice_not_Err [simp]: "slice_range xs a b \<noteq> Err e" "index_slice xs i \<noteq> Err e"
  by (auto simp: slice_range_def index_slice_def)

end
