(* ===== verification/Stage_3.thy ===== *)
theory Stage_3
  imports Rust_Prelude
begin

text \<open>
  The page tables and segments with which stage 3 enters long mode
  (\<^verbatim>\<open>src/bios/stage-3/src/paging.rs\<close> and \<^verbatim>\<open>gdt.rs\<close>) and the segments of stage 2
  (\<^verbatim>\<open>src/bios/stage-2/src/protected_mode.rs\<close>).  The addresses of the static tables, which the
  linker chooses, are parameters.  The processor's page walk is part of the specification.
\<close>

unbundle bit_operations_syntax

section \<open>Definitions\<close>

subsection \<open>Page tables\<close>

type_synonym u64 = "64 word"

definition page_table_empty :: "u64 list" where
  "page_table_empty = replicate 512 0"

text \<open>The statics \<open>LEVEL_4\<close>, \<open>LEVEL_3\<close> and \<open>LEVEL_2\<close>.\<close>

record long_mode_tables =
  LEVEL_4 :: "u64 list"
  LEVEL_3 :: "u64 list"
  LEVEL_2 :: "u64 list list"

definition common_flags :: u64 where "common_flags = 3"

text \<open>The inner loop of \<open>create_mappings\<close> stores to every entry of a level 2 table.\<close>

definition fill_level_2 :: "nat \<Rightarrow> u64 list \<Rightarrow> u64 list" where
  "fill_level_2 i l2 =
     (let offset = word_of_nat i * 1024 * 1024 * 1024 in
      map (\<lambda>(j, entry). (offset + word_of_nat j * (2 * 1024 * 1024)) OR common_flags OR push_bit 7 1) (enumerate 0 l2))"

definition map_level_2 :: "nat \<Rightarrow> nat \<times> u64 list \<Rightarrow> u64 list \<times> u64 list list \<Rightarrow> u64 list \<times> u64 list list" where
  "map_level_2 l2_addr = (\<lambda>(i, l2) (l3, l2s).
     (l3[i := word_of_nat (l2_addr + 4096 * i) OR common_flags], l2s[i := fill_level_2 i l2]))"

definition create_mappings :: "nat \<Rightarrow> nat \<Rightarrow> long_mode_tables \<Rightarrow> long_mode_tables" where
  "create_mappings l3_addr l2_addr t =
     (let l4 = (LEVEL_4 t)[0 := word_of_nat l3_addr OR common_flags];
          (l3, l2s) = fold (map_level_2 l2_addr) (enumerate 0 (LEVEL_2 t)) (LEVEL_3 t, LEVEL_2 t)
      in \<lparr>LEVEL_4 = l4, LEVEL_3 = l3, LEVEL_2 = l2s\<rparr>)"

text \<open>The control registers and the EFER register as \<open>enable_paging\<close> leaves them.\<close>

record control_registers =
  reg_cr0 :: "32 word"
  reg_cr3 :: nat
  reg_cr4 :: "32 word"
  reg_efer :: "32 word"

definition enable_paging :: "nat \<Rightarrow> control_registers \<Rightarrow> control_registers" where
  "enable_paging l4_addr c =
     (let c = c\<lparr>reg_cr3 := l4_addr\<rparr>;
          c = c\<lparr>reg_cr4 := reg_cr4 c OR push_bit 5 1\<rparr>;
          c = c\<lparr>reg_efer := reg_efer c OR push_bit 8 1\<rparr>
      in c\<lparr>reg_cr0 := reg_cr0 c OR push_bit 31 1\<rparr>)"

definition paging_init ::
    "nat \<Rightarrow> nat \<Rightarrow> nat \<Rightarrow> long_mode_tables \<times> control_registers \<Rightarrow> long_mode_tables \<times> control_registers" where
  "paging_init l4_addr l3_addr l2_addr = (\<lambda>(t, c). (create_mappings l3_addr l2_addr t, enable_paging l4_addr c))"

subsection \<open>Segments\<close>

record segments =
  seg_zero :: u64
  seg_code :: u64
  seg_data :: u64

definition gdt_long_mode_new :: segments where
  "gdt_long_mode_new =
     (let common_flags = push_bit 44 1 OR push_bit 47 1 OR push_bit 41 1 OR push_bit 40 1
      in \<lparr>seg_zero = 0, seg_code = common_flags OR push_bit 43 1 OR push_bit 53 1, seg_data = common_flags\<rparr>)"

definition gdt_protected_mode_new :: segments where
  "gdt_protected_mode_new =
     (let limit = push_bit 48 0xf OR 0xffff;
          access_common = push_bit 47 1 OR push_bit 44 1 OR push_bit 41 1;
          protected_mode = push_bit 54 1;
          granularity = push_bit 55 1;
          base_flags = protected_mode OR granularity OR access_common OR limit;
          executable = push_bit 43 1
      in \<lparr>seg_zero = 0, seg_code = base_flags OR executable, seg_data = base_flags\<rparr>)"

subsection \<open>Specification vocabulary\<close>

text \<open>
  Physical memory as the page walk sees it: the entry at a physical address, where the tables
  are.  Tables are 4096 bytes, entries 8.
\<close>

definition table_entry_at :: "nat \<Rightarrow> nat \<Rightarrow> nat \<Rightarrow> long_mode_tables \<Rightarrow> nat \<Rightarrow> nat \<Rightarrow> u64 option" where
  "table_entry_at l4_addr l3_addr l2_addr t base i =
     (if base = l4_addr then Some (LEVEL_4 t ! i)
      else if base = l3_addr then Some (LEVEL_3 t ! i)
      else if l2_addr \<le> base \<and> (base - l2_addr) div 4096 < length (LEVEL_2 t) \<and> 4096 dvd base - l2_addr
      then Some (LEVEL_2 t ! ((base - l2_addr) div 4096) ! i)
      else None)"

definition entry_address :: "u64 \<Rightarrow> nat" where
  "entry_address e = unat (e AND 0x000FFFFFFFFFF000)"

text \<open>
  The walk of the processor: at each level the entry must be present and writable; an entry of
  level 2 with bit 7 maps 2 MiB.  Tables of level 1 do not occur.
\<close>

definition present_writable :: "u64 \<Rightarrow> bool" where
  "present_writable e \<longleftrightarrow> bit e 0 \<and> bit e 1"

definition walk :: "(nat \<Rightarrow> nat \<Rightarrow> u64 option) \<Rightarrow> nat \<Rightarrow> nat \<Rightarrow> nat option" where
  "walk entry_at cr3 va =
     Option.bind (entry_at cr3 (va div 2 ^ 39 mod 512)) (\<lambda>e4.
     if \<not> present_writable e4 then None else
     Option.bind (entry_at (entry_address e4) (va div 2 ^ 30 mod 512)) (\<lambda>e3.
     if \<not> present_writable e3 then None else
     Option.bind (entry_at (entry_address e3) (va div 2 ^ 21 mod 512)) (\<lambda>e2.
     if \<not> present_writable e2 \<or> \<not> bit e2 7 then None
     else Some (entry_address e2 + va mod 2 ^ 21))))"

text \<open>The fields of a segment descriptor.\<close>

definition segment_limit :: "u64 \<Rightarrow> nat" where
  "segment_limit e =
     (let raw = unat (e AND 0xFFFF) + unat (drop_bit 48 e AND 0xF) * 2 ^ 16
      in if bit e 55 then raw * 4096 + 4095 else raw)"

definition segment_base :: "u64 \<Rightarrow> nat" where
  "segment_base e = unat (drop_bit 16 e AND 0xFFFFFF) + unat (drop_bit 56 e AND 0xFF) * 2 ^ 24"

text \<open>Where the linker may put the tables: in different pages below 4 GiB.\<close>

definition tables_placed :: "nat \<Rightarrow> nat \<Rightarrow> nat \<Rightarrow> bool" where
  "tables_placed l4_addr l3_addr l2_addr \<longleftrightarrow>
     4096 dvd l4_addr \<and> 4096 dvd l3_addr \<and> 4096 dvd l2_addr \<and> l4_addr \<noteq> l3_addr \<and>
     (l4_addr < l2_addr \<or> l2_addr + 10 * 4096 \<le> l4_addr) \<and> (l3_addr < l2_addr \<or> l2_addr + 10 * 4096 \<le> l3_addr) \<and>
     l4_addr < 2 ^ 32 \<and> l3_addr < 2 ^ 32 \<and> l2_addr + 10 * 4096 \<le> 2 ^ 32"

definition tables_empty :: long_mode_tables where
  "tables_empty = \<lparr>LEVEL_4 = page_table_empty, LEVEL_3 = page_table_empty, LEVEL_2 = replicate 10 page_table_empty\<rparr>"

section \<open>Lemmas\<close>

lemma fold_map_level_2:
  assumes "fold (map_level_2 a) (enumerate k xs) (l3, l2s) = (l3', l2s')"
    and "k + length xs \<le> length l3" and "k + length xs \<le> length l2s"
  shows "length l3' = length l3 \<and> length l2s' = length l2s \<and>
    (\<forall>i < length l3. l3' ! i = (if k \<le> i \<and> i < k + length xs then word_of_nat (a + 4096 * i) OR common_flags else l3 ! i)) \<and>
    (\<forall>i < length l2s. l2s' ! i = (if k \<le> i \<and> i < k + length xs then fill_level_2 i (xs ! (i - k)) else l2s ! i))"
  using assms
proof (induction xs arbitrary: k l3 l2s)
  case (Cons x xs)
  from Cons.IH[of "Suc k" "l3[k := word_of_nat (a + 4096 * k) OR common_flags]" "l2s[k := fill_level_2 k x]"] Cons.prems
  show ?case by (auto simp: map_level_2_def nth_list_update nth_Cons' less_Suc_eq_le not_less_eq_eq dest: le_antisym)
qed auto

text \<open>An aligned address survives the flags.\<close>

lemma address_mask:
  assumes "4096 dvd a" and "a < 2 ^ 52"
  shows "(word_of_nat a :: u64) AND 0x000FFFFFFFFFF000 = word_of_nat a"
proof -
  obtain q where q: "a = 4096 * q" using assms(1) by (auto elim: dvdE)
  with assms(2) have "q < 2 ^ 40" by simp
  then have t: "take_bit 40 (word_of_nat q :: u64) = word_of_nat q" by (simp add: take_bit_of_nat take_bit_nat_eq_self flip: of_nat_take_bit)
  have a: "(word_of_nat a :: u64) = push_bit 12 (word_of_nat q)" by (simp add: q push_bit_eq_mult)
  have "(0x000FFFFFFFFFF000 :: u64) = push_bit 12 (mask 40)" by (simp add: mask_eq_exp_minus_1 push_bit_eq_mult)
  then have "(word_of_nat a :: u64) AND 0x000FFFFFFFFFF000 = push_bit 12 (word_of_nat q AND mask 40)"
    by (simp add: a push_bit_and)
  with t show ?thesis by (simp add: a take_bit_eq_mask)
qed

lemma flagged_entry:
  assumes "4096 dvd a" and "a < 2 ^ 52" and "f AND 0x000FFFFFFFFFF000 = 0"
  shows "entry_address (word_of_nat a OR f) = a"
proof -
  have "(word_of_nat a OR f) AND 0x000FFFFFFFFFF000 = (word_of_nat a :: u64)"
    using address_mask[OF assms(1,2)] assms(3) by (simp add: bit.conj_disj_distrib2)
  then show ?thesis using assms(2) by (simp add: entry_address_def unat_of_nat)
qed

lemma table_entry_ok:
  "present_writable (e OR common_flags)"
  by (simp add: present_writable_def common_flags_def bit_or_iff bit_numeral_rec)

lemma huge_entry_ok:
  "present_writable (e OR common_flags OR push_bit 7 1)" "bit (e OR common_flags OR push_bit 7 1 :: u64) 7"
  by (simp_all add: present_writable_def common_flags_def bit_or_iff bit_numeral_rec bit_push_bit_iff)

lemma fill_level_2_nth:
  "j < length l2 \<Longrightarrow> fill_level_2 i l2 ! j = word_of_nat (i * 2 ^ 30 + j * 2 ^ 21) OR common_flags OR push_bit 7 1"
  by (simp add: fill_level_2_def Let_def nth_enumerate_eq algebra_simps)

lemma create_mappings_tables:
  assumes "length (LEVEL_4 t) = 512" and "length (LEVEL_3 t) = 512" and "length (LEVEL_2 t) = 10"
  shows "LEVEL_4 (create_mappings l3 l2 t) = (LEVEL_4 t)[0 := word_of_nat l3 OR common_flags]"
    and "length (LEVEL_3 (create_mappings l3 l2 t)) = 512" and "length (LEVEL_2 (create_mappings l3 l2 t)) = 10"
    and "i < 512 \<Longrightarrow> LEVEL_3 (create_mappings l3 l2 t) ! i =
      (if i < 10 then word_of_nat (l2 + 4096 * i) OR common_flags else LEVEL_3 t ! i)"
    and "i < 10 \<Longrightarrow> LEVEL_2 (create_mappings l3 l2 t) ! i = fill_level_2 i (LEVEL_2 t ! i)"
proof -
  obtain l3' l2s' where f: "fold (map_level_2 l2) (enumerate 0 (LEVEL_2 t)) (LEVEL_3 t, LEVEL_2 t) = (l3', l2s')"
    by fastforce
  from fold_map_level_2[OF f] f assms
  show "LEVEL_4 (create_mappings l3 l2 t) = (LEVEL_4 t)[0 := word_of_nat l3 OR common_flags]"
    "length (LEVEL_3 (create_mappings l3 l2 t)) = 512" "length (LEVEL_2 (create_mappings l3 l2 t)) = 10"
    "i < 512 \<Longrightarrow> LEVEL_3 (create_mappings l3 l2 t) ! i =
      (if i < 10 then word_of_nat (l2 + 4096 * i) OR common_flags else LEVEL_3 t ! i)"
    "i < 10 \<Longrightarrow> LEVEL_2 (create_mappings l3 l2 t) ! i = fill_level_2 i (LEVEL_2 t ! i)"
    by (simp_all add: create_mappings_def Let_def)
qed

text \<open>The entries the walk meets after \<open>create_mappings\<close>.\<close>

lemma walked_entries:
  assumes p: "tables_placed l4 l3 l2"
  defines "t \<equiv> create_mappings l3 l2 tables_empty"
  shows "i < 512 \<Longrightarrow> table_entry_at l4 l3 l2 t l4 i = Some (if i = 0 then word_of_nat l3 OR common_flags else 0)"
    and "i < 512 \<Longrightarrow> table_entry_at l4 l3 l2 t l3 i =
      Some (if i < 10 then word_of_nat (l2 + 4096 * i) OR common_flags else 0)"
    and "i < 10 \<Longrightarrow> j < 512 \<Longrightarrow> table_entry_at l4 l3 l2 t (l2 + 4096 * i) j =
      Some (word_of_nat (i * 2 ^ 30 + j * 2 ^ 21) OR common_flags OR push_bit 7 1)"
proof -
  have e: "length (LEVEL_4 tables_empty) = 512" "length (LEVEL_3 tables_empty) = 512" "length (LEVEL_2 tables_empty) = 10"
    by (simp_all add: tables_empty_def page_table_empty_def)
  note c = create_mappings_tables[OF e, where ?l3.0 = l3 and ?l2.0 = l2, folded t_def]
  show "table_entry_at l4 l3 l2 t l4 i = Some (if i = 0 then word_of_nat l3 OR common_flags else 0)" if "i < 512"
    using that by (simp add: table_entry_at_def c(1) tables_empty_def page_table_empty_def nth_list_update)
  show "table_entry_at l4 l3 l2 t l3 i = Some (if i < 10 then word_of_nat (l2 + 4096 * i) OR common_flags else 0)"
    if "i < 512"
    using that p c(4)[OF that] by (simp add: table_entry_at_def tables_placed_def) (simp add: tables_empty_def page_table_empty_def)
  show "table_entry_at l4 l3 l2 t (l2 + 4096 * i) j = Some (word_of_nat (i * 2 ^ 30 + j * 2 ^ 21) OR common_flags OR push_bit 7 1)"
    if "i < 10" "j < 512"
  proof -
    have "LEVEL_2 tables_empty ! i = page_table_empty" using that(1) by (simp add: tables_empty_def)
    then have "LEVEL_2 t ! i ! j = word_of_nat (i * 2 ^ 30 + j * 2 ^ 21) OR common_flags OR push_bit 7 1"
      using c(5)[OF that(1)] fill_level_2_nth[of j page_table_empty i] that(2) by (simp add: page_table_empty_def)
    moreover have "l2 + 4096 * i \<noteq> l4" "l2 + 4096 * i \<noteq> l3" using p that(1) by (auto simp: tables_placed_def)
    ultimately show ?thesis using that c(3) by (simp add: table_entry_at_def)
  qed
qed

lemma address_parts: "va = va div 1073741824 * 1073741824 + va div 2097152 mod 512 * 2097152 + va mod (2097152 :: nat)"
proof -
  have "va div 1073741824 = va div 2097152 div 512" by (simp add: div_mult2_eq)
  then have "va div 1073741824 * 512 + va div 2097152 mod 512 = va div 2097152" by simp
  moreover have "va = va div 2097152 * 2097152 + va mod 2097152" by simp
  ultimately show ?thesis by linarith
qed

text \<open>The segments are flat and have ring 0: present, base 0, code executable and data not.  Those of
  stage 2 reach 4 GiB as 32-bit segments; the code segment of stage 3 is a 64-bit segment, which
  excludes the bit for 32 bits.\<close>

definition flat_segment :: "u64 \<Rightarrow> bool" where
  "flat_segment s \<longleftrightarrow> bit s 47 \<and> bit s 44 \<and> drop_bit 45 s AND 3 = 0 \<and> segment_base s = 0"

lemma protected_mode_segments:
  "flat_segment (seg_code gdt_protected_mode_new) \<and> flat_segment (seg_data gdt_protected_mode_new) \<and>
   segment_limit (seg_code gdt_protected_mode_new) = 2 ^ 32 - 1 \<and> segment_limit (seg_data gdt_protected_mode_new) = 2 ^ 32 - 1 \<and>
   bit (seg_code gdt_protected_mode_new) 43 \<and> \<not> bit (seg_data gdt_protected_mode_new) 43 \<and> bit (seg_data gdt_protected_mode_new) 41"
  by (simp add: gdt_protected_mode_new_def flat_segment_def segment_base_def segment_limit_def Let_def bit_numeral_rec)

lemma long_mode_segments:
  "flat_segment (seg_code gdt_long_mode_new) \<and> flat_segment (seg_data gdt_long_mode_new) \<and>
   bit (seg_code gdt_long_mode_new) 43 \<and> bit (seg_code gdt_long_mode_new) 53 \<and> \<not> bit (seg_code gdt_long_mode_new) 54"
  by (simp add: gdt_long_mode_new_def flat_segment_def segment_base_def Let_def)

section \<open>Properties\<close>

text \<open>C19. The page tables of stage 3 map the first 10 GiB to themselves, present and writable at every
  level, and nothing else: the walk of the processor from the address in CR3 gives the address itself
  below 10 GiB and no translation above.\<close>

theorem identity_mapped:
  assumes p: "tables_placed l4 l3 l2" and va: "va < 2 ^ 48"
    and init: "paging_init l4 l3 l2 (tables_empty, c) = (t, c')"
  shows "walk (table_entry_at l4 l3 l2 t) (reg_cr3 c') va = (if va < 10 * 2 ^ 30 then Some va else None)"
proof -
  let ?e = "table_entry_at l4 l3 l2 (create_mappings l3 l2 tables_empty)"
  note e = walked_entries[OF p]
  have flags: "common_flags AND 0x000FFFFFFFFFF000 = 0" "(common_flags OR push_bit 7 1) AND 0x000FFFFFFFFFF000 = 0"
    by (simp_all add: common_flags_def)
  have zero: "\<not> present_writable 0" by (simp add: present_writable_def)
  have r: "t = create_mappings l3 l2 tables_empty" "reg_cr3 c' = l4"
    using init by (auto simp: paging_init_def enable_paging_def Let_def)
  have a3: "entry_address (word_of_nat l3 OR common_flags) = l3" using p flags(1) by (intro flagged_entry) (auto simp: tables_placed_def)
  let ?i = "va div 2 ^ 30" and ?j = "va div 2 ^ 21 mod 512"
  show ?thesis
  proof (cases "va < 10 * 2 ^ 30")
    case True
    then have i: "?i < 10" "?i mod 512 = ?i" "va div 2 ^ 39 = 0" by auto
    have a2: "entry_address (word_of_nat (l2 + 4096 * ?i) OR common_flags) = l2 + 4096 * ?i"
      using p flags(1) i(1) by (intro flagged_entry) (auto simp: tables_placed_def)
    have j: "?j < 512" by simp
    have a1: "entry_address (word_of_nat (?i * 2 ^ 30 + ?j * 2 ^ 21) OR common_flags OR push_bit 7 1) = ?i * 2 ^ 30 + ?j * 2 ^ 21"
    proof -
      have "4096 dvd ?i * 2 ^ 30 + ?j * 2 ^ 21" by (intro dvd_add dvd_mult) simp_all
      moreover have "?i * 2 ^ 30 + ?j * 2 ^ 21 < 2 ^ 52"
        using mult_le_mono1[of ?i 9 "2 ^ 30"] mult_le_mono1[of ?j 511 "2 ^ 21"] i(1) j by simp
      ultimately show ?thesis unfolding or.assoc by (rule flagged_entry[OF _ _ flags(2)])
    qed
    have "va = ?i * 2 ^ 30 + ?j * 2 ^ 21 + va mod 2 ^ 21" using address_parts[of va] by simp
    then show ?thesis
      using True i e(1)[of 0] e(2)[of ?i] e(3)[OF i(1) j] a3 a2 a1
      by (simp add: walk_def r table_entry_ok huge_entry_ok[simplified])
  next
    case False
    then show ?thesis
    proof (cases "va div 2 ^ 39 mod 512 = 0")
      case True
      have "va div 2 ^ 39 < 512" using va by (simp add: less_mult_imp_div_less)
      with True have "va < 2 ^ 39" by (simp add: div_eq_0_iff)
      then have "?i < 512" "?i \<ge> 10" using False by auto
      then show ?thesis using False True e(1)[of 0] e(2)[of ?i] a3 zero by (simp add: walk_def r table_entry_ok)
    next
      case nz: False
      then show ?thesis using False e(1)[of "va div 2 ^ 39 mod 512"] zero by (simp add: walk_def r)
    qed
  qed
qed

theorem identity_mapped_witness:
  "\<exists>t c'. paging_init 0x105000 0x106000 0x107000 (tables_empty, \<lparr>reg_cr0 = 1, reg_cr3 = 0, reg_cr4 = 0, reg_efer = 0\<rparr>) = (t, c') \<and>
     walk (table_entry_at 0x105000 0x106000 0x107000 t) (reg_cr3 c') 0x1234567 = Some 0x1234567 \<and>
     walk (table_entry_at 0x105000 0x106000 0x107000 t) (reg_cr3 c') 0x280000000 = None"
proof -
  obtain t c' where i: "paging_init 0x105000 0x106000 0x107000
      (tables_empty, \<lparr>reg_cr0 = 1, reg_cr3 = 0, reg_cr4 = 0, reg_efer = 0\<rparr>) = (t, c')" by fastforce
  have p: "tables_placed 0x105000 0x106000 0x107000" by (simp add: tables_placed_def)
  show ?thesis using i identity_mapped[OF p _ i, of "0x1234567"] identity_mapped[OF p _ i, of "0x280000000"] by simp
qed

end
