(* ===== verification/Physical_Memory.thy ===== *)
theory Physical_Memory
  imports Rust_Prelude
begin

text \<open>
  Physical memory as a function from addresses to bytes, and the ways the bootloader writes to
  it.  For the kernel loader it stands for the memory outside the frames that hold page tables;
  for stage 2 it is what real-mode code and the firmware share.
\<close>

section \<open>Definitions\<close>

type_synonym memory = "nat \<Rightarrow> u8"

definition read_bytes :: "memory \<Rightarrow> nat \<Rightarrow> nat \<Rightarrow> u8 list" where
  "read_bytes mem a n = map (\<lambda>k. mem (a + k)) [0..<n]"

definition write_slice :: "memory \<Rightarrow> nat \<Rightarrow> u8 list \<Rightarrow> memory" where
  "write_slice mem a bs = (\<lambda>x. if a \<le> x \<and> x < a + length bs then bs ! (x - a) else mem x)"

text \<open>\<open>ptr::write_bytes\<close> and \<open>ptr::copy_nonoverlapping\<close>.\<close>

definition fill_bytes :: "memory \<Rightarrow> nat \<Rightarrow> u8 \<Rightarrow> nat \<Rightarrow> memory" where
  "fill_bytes mem a v n = (\<lambda>x. if a \<le> x \<and> x < a + n then v else mem x)"

definition copy_bytes :: "memory \<Rightarrow> nat \<Rightarrow> nat \<Rightarrow> nat \<Rightarrow> memory" where
  "copy_bytes mem src dst n = (\<lambda>x. if dst \<le> x \<and> x < dst + n then mem (src + (x - dst)) else mem x)"

section \<open>Lemmas\<close>

lemma length_read_bytes [simp]: "length (read_bytes mem a n) = n"
  by (simp add: read_bytes_def)

lemma nth_read_bytes [simp]: "k < n \<Longrightarrow> read_bytes mem a n ! k = mem (a + k)"
  by (simp add: read_bytes_def)

lemma write_slice_apply:
  "write_slice mem a bs x = (if a \<le> x \<and> x < a + length bs then bs ! (x - a) else mem x)"
  by (simp add: write_slice_def)

lemma fill_bytes_apply: "fill_bytes mem a v n x = (if a \<le> x \<and> x < a + n then v else mem x)"
  by (simp add: fill_bytes_def)

lemma copy_bytes_apply:
  "copy_bytes mem s d n x = (if d \<le> x \<and> x < d + n then mem (s + (x - d)) else mem x)"
  by (simp add: copy_bytes_def)

lemma read_write_slice [simp]: "read_bytes (write_slice mem a bs) a (length bs) = bs"
  by (rule nth_equalityI) (simp_all add: write_slice_apply)

lemma read_bytes_0 [simp]: "read_bytes mem a 0 = []"
  by (simp add: read_bytes_def)

lemma read_bytes_add: "read_bytes mem a (m + n) = read_bytes mem a m @ read_bytes mem (a + m) n"
  by (rule nth_equalityI) (auto simp: nth_append)

lemma take_read_bytes [simp]: "take k (read_bytes mem a n) = read_bytes mem a (min k n)"
  by (rule nth_equalityI) auto

lemma drop_read_bytes [simp]: "drop k (read_bytes mem a n) = read_bytes mem (a + k) (n - k)"
  by (rule nth_equalityI) (auto simp: add.assoc)

lemma write_slice_append: "write_slice mem a (xs @ ys) = write_slice (write_slice mem a xs) (a + length xs) ys"
  by (auto simp: write_slice_def nth_append fun_eq_iff)

lemma write_slice_Nil [simp]: "write_slice mem a [] = mem"
  by (auto simp: write_slice_def fun_eq_iff)

text \<open>Reading next to a write, and inside it.\<close>

lemma read_write_apart:
  "a + n \<le> b \<or> b + length bs \<le> a \<Longrightarrow> read_bytes (write_slice mem b bs) a n = read_bytes mem a n"
  by (rule nth_equalityI) (auto simp: write_slice_apply)

lemma read_write_inside:
  "b \<le> a \<Longrightarrow> a + n \<le> b + length bs \<Longrightarrow> read_bytes (write_slice mem b bs) a n = take n (drop (a - b) bs)"
  by (rule nth_equalityI) (auto simp: write_slice_apply)

end
