(* ===== verification/Bios_Disk.thy ===== *)
theory Bios_Disk
  imports Physical_Memory
begin

text \<open>
  Reading the boot disk in stage 2 (\<^verbatim>\<open>src/bios/stage-2/src/disk.rs\<close> and \<^verbatim>\<open>dap.rs\<close>).  The
  firmware's extended read (\<^verbatim>\<open>int 0x13\<close>, function \<^verbatim>\<open>0x42\<close>) is a parameter that may fail;
  the locale \<open>disk_bios\<close> states what its interface documents: it transfers the sectors to the
  buffer of the packet.  A buffer is an address and a length in physical memory, so that writes
  past its end are visible.
\<close>

section \<open>Definitions\<close>

subsection \<open>The disk address packet\<close>

record disk_address_packet =
  packet_size :: nat
  packet_zero :: nat
  number_of_sectors :: nat
  packet_offset :: nat
  packet_segment :: nat
  packet_lba :: nat

definition from_lba :: "nat \<Rightarrow> nat \<Rightarrow> nat \<Rightarrow> nat \<Rightarrow> disk_address_packet" where
  "from_lba start_lba sectors target_addr target_addr_segment = \<lparr>
     packet_size = 0x10,
     packet_zero = 0,
     number_of_sectors = sectors,
     packet_offset = target_addr,
     packet_segment = target_addr_segment,
     packet_lba = start_lba\<rparr>"

text \<open>The firmware call: disk number, packet and memory; \<open>None\<close> is a set carry flag.\<close>

type_synonym bios_read = "nat \<Rightarrow> disk_address_packet \<Rightarrow> memory \<Rightarrow> memory option"

definition perform_load :: "bios_read \<Rightarrow> disk_address_packet \<Rightarrow> nat \<Rightarrow> memory \<Rightarrow> memory res" where
  "perform_load B dap disk_number mem = expect_some ''fail: z'' (B disk_number dap mem)"

subsection \<open>Buffers\<close>

record aligned_buffer =
  buffer_addr :: nat
  buffer_len :: nat

definition buffer_slice :: "aligned_buffer \<Rightarrow> memory \<Rightarrow> u8 list" where
  "buffer_slice buf mem = read_bytes mem (buffer_addr buf) (buffer_len buf)"

subsection \<open>Disk access\<close>

record disk_access =
  disk_number :: nat
  base_offset :: nat
  current_offset :: nat

datatype seek_from = SeekStart nat

fun seek :: "seek_from \<Rightarrow> disk_access \<Rightarrow> disk_access" where
  "seek (SeekStart offset) d = d\<lparr>current_offset := offset\<rparr>"

text \<open>The loop of \<open>read_exact_into\<close>: at most 32 sectors at a time.\<close>

function load_sectors :: "bios_read \<Rightarrow> nat \<Rightarrow> nat \<Rightarrow> nat \<Rightarrow> nat \<Rightarrow> memory \<Rightarrow> memory res" where
  "load_sectors B dn start_lba num target_addr mem =
     (let sectors = min num 32 in
      bindR (try_into_w 16 (target_addr div 16)) (\<lambda>segment.
      bindR (perform_load B (from_lba start_lba sectors (target_addr mod 16) segment) dn mem) (\<lambda>mem.
      bindR (add_u64 start_lba sectors) (\<lambda>start_lba.
      bindR (add_u32 target_addr (sectors * 512)) (\<lambda>target_addr.
      if num - sectors = 0 then Ok mem
      else load_sectors B dn start_lba (num - sectors) target_addr mem)))))"
  by auto

termination load_sectors
  by (relation "measure (\<lambda>(B, d, s, num, t, m). num)") auto

declare load_sectors.simps [simp del]

definition read_exact_into ::
    "bios_read \<Rightarrow> nat \<Rightarrow> aligned_buffer \<Rightarrow> disk_access \<times> memory \<Rightarrow> (disk_access \<times> memory) res" where
  "read_exact_into B len buf = (\<lambda>(d, mem).
     bindR (assertR ''assertion failed: len % 512 == 0'' (len mod 512 = 0)) (\<lambda>_.
     bindR (assertR ''range end index out of range for slice'' (len \<le> buffer_len buf)) (\<lambda>_.
     bindR (add_u64 (base_offset d) (current_offset d)) (\<lambda>start_addr.
     bindR (add_u64 start_addr len) (\<lambda>end_addr.
     bindR (sub_w end_addr 1) (\<lambda>last_addr.
     let start_lba = start_addr div 512;
         end_lba = last_addr div 512
     in
     bindR (sub_w (end_lba + 1) start_lba) (\<lambda>num.
     bindR (load_sectors B (disk_number d) start_lba num (buffer_addr buf) mem) (\<lambda>mem.
       Ok (d\<lparr>current_offset := end_addr\<rparr>, mem)))))))))"

text \<open>\<open>tmp\<close> is the address of the static \<open>TMP_BUF\<close> of two sectors.\<close>

definition read_exact ::
    "bios_read \<Rightarrow> nat \<Rightarrow> nat \<Rightarrow> disk_access \<times> memory \<Rightarrow> (u8 list \<times> disk_access \<times> memory) res" where
  "read_exact B tmp len = (\<lambda>(d, mem).
     let current_sector_offset = current_offset d mod 512;
         buf = \<lparr>buffer_addr = tmp, buffer_len = 1024\<rparr>
     in
     bindR (assertR ''assertion failed: current_sector_offset + len <= buf.buffer.len()''
              (current_sector_offset + len \<le> buffer_len buf)) (\<lambda>_.
     bindR (read_exact_into B (buffer_len buf) buf (d, mem)) (\<lambda>(d, mem).
       Ok (take len (drop current_sector_offset (buffer_slice buf mem)), d, mem))))"

section \<open>The contract of the firmware\<close>

text \<open>
  \<open>img\<close> is the disk's contents, \<open>nsec\<close> its number of sectors.  A transfer of up to 32 sectors
  of the disk to memory below 1 MiB succeeds.
\<close>

locale disk_bios =
  fixes B :: bios_read and disk :: nat and img :: memory and nsec :: nat
  assumes bios_read: "number_of_sectors p \<le> 32 \<Longrightarrow> B disk p mem = Some mem' \<Longrightarrow>
      mem' = write_slice mem (packet_segment p * 16 + packet_offset p)
        (read_bytes img (packet_lba p * 512) (number_of_sectors p * 512))"
    and bios_read_inside: "number_of_sectors p \<le> 32 \<Longrightarrow> packet_lba p + number_of_sectors p \<le> nsec \<Longrightarrow>
      packet_segment p * 16 + packet_offset p + number_of_sectors p * 512 \<le> 2 ^ 20 \<Longrightarrow> B disk p mem \<noteq> None"
begin

lemma perform_load_spec:
  assumes "perform_load B (from_lba start k (target mod 16) (target div 16)) disk mem = Ok mem'" and "k \<le> 32"
  shows "mem' = write_slice mem target (read_bytes img (start * 512) (k * 512))"
  using bios_read[of "from_lba start k (target mod 16) (target div 16)"] assms
  by (simp add: perform_load_def from_lba_def res_simps)

lemma load_sectors_spec:
  assumes "load_sectors B disk start num target mem = Ok mem'"
  shows "mem' = write_slice mem target (read_bytes img (start * 512) (num * 512))"
  using assms
proof (induction num arbitrary: start target mem rule: less_induct)
  case (less num)
  let ?k = "min num 32"
  from less.prems[unfolded load_sectors.simps[of B disk start num target mem]] obtain m where
    m: "perform_load B (from_lba start ?k (target mod 16) (target div 16)) disk mem = Ok m"
    and rest: "(if num - ?k = 0 then Ok m
      else load_sectors B disk (start + ?k) (num - ?k) (target + ?k * 512) m) = Ok mem'"
    by (auto simp: Let_def res_simps)
  note ml = perform_load_spec[OF m]
  show ?case
  proof (cases "num \<le> 32")
    case True
    then show ?thesis using rest ml by (simp add: min_def)
  next
    case False
    with rest have "mem' = write_slice m (target + 32 * 512) (read_bytes img ((start + 32) * 512) ((num - 32) * 512))"
      by (intro less.IH) simp_all
    moreover have "read_bytes img (start * 512) (num * 512) =
        read_bytes img (start * 512) (32 * 512) @ read_bytes img ((start + 32) * 512) ((num - 32) * 512)"
      using False read_bytes_add[of img "start * 512" "32 * 512" "(num - 32) * 512"] by (simp add: algebra_simps)
    ultimately show ?thesis using ml False by (simp add: write_slice_append)
  qed
qed

lemma load_sectors_total:
  assumes "start + num \<le> nsec" and "start + num < 2 ^ 55" and "target + num * 512 \<le> 2 ^ 20" and "target < 2 ^ 20"
  shows "\<exists>mem'. load_sectors B disk start num target mem = Ok mem'"
  using assms
proof (induction num arbitrary: start target mem rule: less_induct)
  case (less num)
  let ?k = "min num 32"
  have "B disk (from_lba start ?k (target mod 16) (target div 16)) mem \<noteq> None"
    by (rule bios_read_inside) (use less.prems in \<open>auto simp: from_lba_def\<close>)
  then obtain m where m: "perform_load B (from_lba start ?k (target mod 16) (target div 16)) disk mem = Ok m"
    by (auto simp: perform_load_def)
  have t: "try_into_w 16 (target div 16) = Ok (target div 16)" "add_u64 start ?k = Ok (start + ?k)"
    "add_u32 target (?k * 512) = Ok (target + ?k * 512)"
    using less.prems by (auto simp: try_into_w_def add_w_def)
  show ?case
  proof (cases "num \<le> 32")
    case True
    then show ?thesis using m t by (subst load_sectors.simps) (simp add: min_def)
  next
    case False
    have "\<exists>mem'. load_sectors B disk (start + 32) (num - 32) (target + 32 * 512) m = Ok mem'"
      by (rule less.IH) (use less.prems False in auto)
    then show ?thesis using m t False by (subst load_sectors.simps) simp
  qed
qed

text \<open>
  What a read leaves in memory: whole sectors from the sector that contains the offset; on a
  sector boundary exactly the buffer.
\<close>

lemma read_exact_into_spec:
  assumes "read_exact_into B len buf (d, mem) = Ok (d', mem')" and "disk_number d = disk"
  defines "start \<equiv> base_offset d + current_offset d"
  shows "disk_number d' = disk" and "base_offset d' = base_offset d" and "512 dvd len" and "len \<le> buffer_len buf"
    and "mem' = write_slice mem (buffer_addr buf)
      (read_bytes img (start div 512 * 512) (len + (if start mod 512 = 0 then 0 else 512)))"
proof -
  from assms(1) obtain num where l: "512 dvd len" "len \<le> buffer_len buf" and num: "num = (start + len - 1) div 512 + 1 - start div 512"
    and pos: "1 \<le> start + len"
    and m: "load_sectors B (disk_number d) (start div 512) num (buffer_addr buf) mem = Ok mem'"
    and d': "d' = d\<lparr>current_offset := start + len\<rparr>"
    by (auto simp: read_exact_into_def res_simps add_w_def sub_w_def Let_def start_def split: if_splits)
  show "disk_number d' = disk" and "base_offset d' = base_offset d" and "512 dvd len" and "len \<le> buffer_len buf"
    using l d' assms(2) by auto
  obtain k where k: "len = 512 * k" using l(1) by blast
  define a where "a = start div 512"
  define r where "r = start mod 512"
  have ar: "start = 512 * a + r" "r < 512" by (simp_all add: a_def r_def)
  have "num = k + (if r = 0 then 0 else 1)"
  proof (cases "r = 0")
    case True
    then obtain n where n: "a + k = Suc n" using pos ar k by (cases "a + k") auto
    then have "start + len - 1 = 512 * n + 511" using True ar k by (simp add: algebra_simps)
    then show ?thesis using True n by (simp add: num a_def[symmetric])
  next
    case False
    then have "start + len - 1 = 512 * (a + k) + (r - 1)" using ar k by simp
    then show ?thesis using False ar(2) by (simp add: num a_def[symmetric])
  qed
  then have "num * 512 = len + (if start mod 512 = 0 then 0 else 512)" by (simp add: k r_def)
  then show "mem' = write_slice mem (buffer_addr buf)
      (read_bytes img (start div 512 * 512) (len + (if start mod 512 = 0 then 0 else 512)))"
    using load_sectors_spec[OF m[unfolded assms(2)]] by simp
qed

lemma sectors_of_range:
  assumes "0 < len"
  shows "start div 512 + ((start + len - 1) div 512 + 1 - start div 512) = (start + len - 1) div 512 + (1 :: nat)"
  using div_le_mono[of start "start + len - 1" 512] assms by simp

lemma read_exact_into_total:
  assumes "512 dvd len" and "0 < len" and "len \<le> buffer_len buf" and "disk_number d = disk"
    and "base_offset d + current_offset d + len \<le> nsec * 512" and "nsec < 2 ^ 55"
    and "buffer_addr buf + len + 512 \<le> 2 ^ 20"
  shows "\<exists>d' mem'. read_exact_into B len buf (d, mem) = Ok (d', mem')"
proof -
  define start where "start = base_offset d + current_offset d"
  define num where "num = (start + len - 1) div 512 + 1 - start div 512"
  have last: "(start + len - 1) div 512 < nsec"
    using assms(2,5) by (simp add: start_def less_mult_imp_div_less)
  have sum: "start div 512 + num = (start + len - 1) div 512 + 1"
    unfolding num_def by (rule sectors_of_range[OF assms(2)])
  have "num * 512 \<le> len + 512"
  proof -
    have "(start + len - 1) div 512 * 512 \<le> start + len - 1" by simp
    moreover have "start < start div 512 * 512 + 512" by (simp add: dividend_less_times_div mult.commute)
    ultimately have "((start + len - 1) div 512 + 1) * 512 \<le> start div 512 * 512 + len + 1023" using assms(2) by simp
    then have "start div 512 * 512 + num * 512 \<le> start div 512 * 512 + len + 1023"
      using sum by (simp add: distrib_right flip: sum)
    moreover obtain k where "len = 512 * k" using assms(1) by blast
    ultimately have "num \<le> k + 1" and "len = 512 * k" by simp_all
    then show ?thesis by simp
  qed
  then have "\<exists>mem'. load_sectors B disk (start div 512) num (buffer_addr buf) mem = Ok mem'"
    by (intro load_sectors_total) (use sum last assms(6,7) in auto)
  then obtain mem' where m: "load_sectors B disk (start div 512) num (buffer_addr buf) mem = Ok mem'" by blast
  have le: "start div 512 \<le> (start + len - 1) div 512 + 1" using sum by simp
  have w: "start + len < 2 ^ 64" using assms(5,6) by (simp add: start_def)
  then have ops: "add_u64 (base_offset d) (current_offset d) = Ok start" "add_u64 start len = Ok (start + len)"
    "sub_w (start + len) 1 = Ok (start + len - 1)" "sub_w ((start + len - 1) div 512 + 1) (start div 512) = Ok num"
    using assms(2) le by (simp_all add: add_w_def sub_w_def start_def num_def)
  show ?thesis using assms(1,3,4) ops m by (auto simp: read_exact_into_def mod_eq_0_iff_dvd)
qed

lemma read_exact_spec:
  assumes ok: "read_exact B tmp len (d, mem) = Ok (bs, d', mem')" and d: "disk_number d = disk" and base: "512 dvd base_offset d"
  defines "start \<equiv> base_offset d + current_offset d"
  shows "bs = read_bytes img start len"
    and "mem' = write_slice mem tmp (read_bytes img (start div 512 * 512) (if start mod 512 = 0 then 1024 else 1536))"
    and "disk_number d' = disk" and "base_offset d' = base_offset d"
proof -
  let ?o = "current_offset d mod 512" and ?buf = "\<lparr>buffer_addr = tmp, buffer_len = 1024\<rparr>"
  from ok have fit: "?o + len \<le> 1024" and r: "read_exact_into B 1024 ?buf (d, mem) = Ok (d', mem')"
    and bs: "bs = take len (drop ?o (read_bytes mem' tmp 1024))"
    by (auto simp: read_exact_def Let_def res_simps buffer_slice_def)
  note sp = read_exact_into_spec[OF r d, folded start_def]
  show m: "mem' = write_slice mem tmp (read_bytes img (start div 512 * 512) (if start mod 512 = 0 then 1024 else 1536))"
    using sp(5) by simp
  show "disk_number d' = disk" and "base_offset d' = base_offset d" by (fact sp(1,2))+
  have o: "start mod 512 = ?o" using base by (auto simp: start_def elim!: dvdE)
  have "len \<le> 1024 - ?o" using fit by simp
  then have "bs = read_bytes mem' (tmp + ?o) len" using bs by (simp only: drop_read_bytes take_read_bytes min_absorb1)
  also have "\<dots> = read_bytes img (start div 512 * 512 + ?o) len"
    using fit by (subst m) (auto simp: read_write_inside min.absorb1)
  also have "start div 512 * 512 + ?o = start" using div_mult_mod_eq[of start 512] o by simp
  finally show "bs = read_bytes img start len" .
qed

lemma read_exact_total:
  assumes "disk_number d = disk" and "current_offset d mod 512 + len \<le> 1024"
    and "base_offset d + current_offset d + 1024 \<le> nsec * 512" and "nsec < 2 ^ 55" and "tmp + 1536 \<le> 2 ^ 20"
  shows "\<exists>r. read_exact B tmp len (d, mem) = Ok r"
  using read_exact_into_total[of 1024 "\<lparr>buffer_addr = tmp, buffer_len = 1024\<rparr>" d mem] assms
  by (auto simp: read_exact_def Let_def)

end

section \<open>A firmware that keeps the contract\<close>

definition image_bios :: "nat \<Rightarrow> memory \<Rightarrow> nat \<Rightarrow> bios_read" where
  "image_bios disk img nsec n p mem =
     (if n = disk \<and> packet_lba p + number_of_sectors p \<le> nsec
      then Some (write_slice mem (packet_segment p * 16 + packet_offset p)
        (read_bytes img (packet_lba p * 512) (number_of_sectors p * 512)))
      else None)"

interpretation disk_img: disk_bios "image_bios disk img nsec" disk img nsec for disk img nsec
  by unfold_locales (auto simp: image_bios_def split: if_splits)

section \<open>Properties\<close>

text \<open>Reading from the disk gives the bytes of the disk at the current offset of the partition,
  whatever the alignment of the offset, and succeeds when they are on the disk, the request fits the
  two-sector buffer and the buffer lies below 1 MiB.\<close>

theorem read_exact_reads:
  assumes "disk_bios B disk img nsec" and "disk_number d = disk" and "512 dvd base_offset d"
    and "current_offset d mod 512 + len \<le> 1024"
    and "base_offset d + current_offset d + 1024 \<le> nsec * 512" and "nsec < 2 ^ 55" and "tmp + 1536 \<le> 2 ^ 20"
  shows "\<exists>d' mem'. read_exact B tmp len (d, mem) =
    Ok (read_bytes img (base_offset d + current_offset d) len, d', mem')"
proof -
  obtain bs d' mem' where r: "read_exact B tmp len (d, mem) = Ok (bs, d', mem')"
    using disk_bios.read_exact_total[OF assms(1,2,4-7)] by (metis prod_cases3)
  with disk_bios.read_exact_spec(1)[OF assms(1) r assms(2,3)] show ?thesis by blast
qed

theorem read_exact_reads_witness:
  "\<exists>d' mem'. read_exact (image_bios 0x80 (\<lambda>a. word_of_nat (a mod 251)) 100) 0x7000 4
     (\<lparr>disk_number = 0x80, base_offset = 0x400, current_offset = 0x1fe\<rparr>, \<lambda>_. 0) =
   Ok ([28, 29, 30, 31], d', mem')"
  using read_exact_reads[OF disk_img.disk_bios_axioms, of "\<lparr>disk_number = 0x80, base_offset = 0x400, current_offset = 0x1fe\<rparr>"
      "0x80" 4 100 "0x7000" "\<lambda>a. word_of_nat (a mod 251)" "\<lambda>_. 0"]
  by (simp add: read_bytes_def upt_conv_Cons)

text \<open>C39. A read from an offset that is not on a sector boundary overruns the static buffer: the
  firmware transfers three sectors to the 1024 bytes of \<open>TMP_BUF\<close>, so the 512 bytes after it are
  overwritten with disk contents.\<close>

theorem read_exact_overruns:
  assumes "disk_bios B disk img nsec" and "disk_number d = disk" and "512 dvd base_offset d"
    and "read_exact B tmp len (d, mem) = Ok (bs, d', mem')" and "current_offset d mod 512 \<noteq> 0" and "j < 512"
  shows "mem' (tmp + 1024 + j) = img ((base_offset d + current_offset d) div 512 * 512 + 1024 + j)"
proof -
  have "(base_offset d + current_offset d) mod 512 \<noteq> 0" using assms(3,5) by (auto elim!: dvdE)
  with disk_bios.read_exact_spec(2)[OF assms(1,4,2,3)] assms(6) show ?thesis
    by (simp add: write_slice_apply add.assoc)
qed

theorem read_exact_overruns_witness:
  "case read_exact (image_bios 0x80 (\<lambda>a. 7) 100) 0x7000 2
     (\<lparr>disk_number = 0x80, base_offset = 0, current_offset = 3\<rparr>, \<lambda>_. 0) of
   Ok (bs, d', mem') \<Rightarrow> mem' (0x7000 + 1024 + 100) = 7 | _ \<Rightarrow> False"
proof -
  let ?d = "\<lparr>disk_number = 0x80, base_offset = 0, current_offset = 3\<rparr>"
  obtain bs d' mem' where r: "read_exact (image_bios 0x80 (\<lambda>a. 7) 100) 0x7000 2 (?d, \<lambda>_. 0) = Ok (bs, d', mem')"
    using disk_img.read_exact_total[of ?d "0x80" 2 100 "0x7000" "\<lambda>a. 7" "\<lambda>_. 0"] by (auto simp: split_paired_Ex)
  have "mem' (0x7000 + 1024 + 100) = 7"
    using read_exact_overruns[OF disk_img.disk_bios_axioms _ _ r, of 100] by simp
  then show ?thesis by (simp add: r)
qed

end
