(* ===== verification/Boot_Sector.thy ===== *)
theory Boot_Sector
  imports Bios_Disk
begin

text \<open>
  The first stage (\<^verbatim>\<open>src/bios/boot_sector/src/main.rs\<close>, \<^verbatim>\<open>mbr.rs\<close>, \<^verbatim>\<open>fail.rs\<close>): it reads the
  first entry of the partition table, loads the sectors of that partition behind the boot sector and
  jumps there.  The addresses are those of \<^verbatim>\<open>src/bios/boot_sector/boot-sector-link.ld\<close>.  The crate
  is built without overflow checks, so its arithmetic wraps.
\<close>

section \<open>Definitions\<close>

subsection \<open>Failing\<close>

text \<open>\<open>fail\<close> prints the code and halts.\<close>

definition fail :: "char \<Rightarrow> 'a res" where
  "fail code = Panic (Explicit [code])"

definition unwrap_or_fail :: "char \<Rightarrow> 'a option \<Rightarrow> 'a res" where
  "unwrap_or_fail code v = (case v of Some v \<Rightarrow> Ok v | None \<Rightarrow> fail code)"

subsection \<open>The partition table\<close>

record partition_table_entry =
  bootable :: bool
  partition_type :: nat
  logical_block_address :: nat
  sector_count :: nat

text \<open>\<open>slice.get(i)\<close>, \<open>slice.get(a..)\<close> and \<open>slice.get(..n)\<close>.\<close>

definition get_nth :: "'a list \<Rightarrow> nat \<Rightarrow> 'a option" where
  "get_nth xs i = (if i < length xs then Some (xs ! i) else None)"

definition get_from :: "'a list \<Rightarrow> nat \<Rightarrow> 'a list option" where
  "get_from xs a = (if a \<le> length xs then Some (drop a xs) else None)"

definition get_to :: "nat \<Rightarrow> 'a list \<Rightarrow> 'a list option" where
  "get_to n xs = (if n \<le> length xs then Some (take n xs) else None)"

definition get_partition :: "u8 list \<Rightarrow> nat \<Rightarrow> partition_table_entry res" where
  "get_partition partitions_raw index =
     bindR (unwrap_or_fail (CHR ''c'') (get_from partitions_raw ((index * 16) mod 2 ^ 32))) (\<lambda>buffer.
     bindR (unwrap_or_fail (CHR ''d'') (get_nth buffer 0)) (\<lambda>bootable_raw.
     bindR (unwrap_or_fail (CHR ''e'') (get_nth buffer 4)) (\<lambda>partition_type.
     bindR (unwrap_or_fail (CHR ''e'') (Option.bind (get_from buffer 8) (get_to 4))) (\<lambda>lba.
     bindR (unwrap_or_fail (CHR ''f'') (Option.bind (get_from buffer 12) (get_to 4))) (\<lambda>len.
       Ok \<lparr>bootable = (bootable_raw = 0x80), partition_type = unat partition_type,
           logical_block_address = from_le_bytes lba, sector_count = from_le_bytes len\<rparr>)))))"

subsection \<open>Loading the second stage\<close>

definition partition_table_raw :: nat where "partition_table_raw = 0x7c00 + 446"
definition second_stage_start :: nat where "second_stage_start = 0x7c00 + 512"

function load_second_stage :: "bios_read \<Rightarrow> nat \<Rightarrow> nat \<Rightarrow> nat \<Rightarrow> nat \<Rightarrow> memory \<Rightarrow> memory res" where
  "load_second_stage B disk start_lba num target_addr mem =
     (let sectors = min num 32 in
      bindR (unwrap_or_fail (CHR ''a'') (if target_addr div 16 < 2 ^ 16 then Some (target_addr div 16) else None)) (\<lambda>segment.
      bindR (perform_load B (from_lba start_lba sectors (target_addr mod 16) segment) disk mem) (\<lambda>mem.
      let start_lba = (start_lba + sectors) mod 2 ^ 64;
          num = num - sectors;
          target_addr = (target_addr + sectors * 512) mod 2 ^ 32
      in
      if num = 0 then Ok mem else load_second_stage B disk start_lba num target_addr mem)))"
  by auto

termination load_second_stage
  by (relation "measure (\<lambda>(B, d, s, num, t, m). num)") auto

declare load_second_stage.simps [simp del]

text \<open>The result is the call of the second stage: its address, its two arguments and memory.\<close>

definition first_stage :: "bios_read \<Rightarrow> nat \<Rightarrow> memory \<Rightarrow> (nat \<times> nat \<times> nat \<times> memory) res" where
  "first_stage B disk mem =
     bindR (get_partition (read_bytes mem partition_table_raw 64) 0) (\<lambda>second_stage_partition.
     let entry_point_address = second_stage_start in
     bindR (load_second_stage B disk (logical_block_address second_stage_partition)
              (sector_count second_stage_partition) entry_point_address mem) (\<lambda>mem.
       Ok (entry_point_address, disk, partition_table_raw, mem)))"

section \<open>Lemmas\<close>

text \<open>Where nothing wraps, the loop is that of \<open>read_exact_into\<close> in stage 2.\<close>

lemma load_second_stage_eq:
  assumes "start + num < 2 ^ 64" and "target + num * 512 \<le> 2 ^ 20" and "target < 2 ^ 20"
  shows "load_second_stage B disk start num target mem = load_sectors B disk start num target mem"
  using assms
proof (induction num arbitrary: start target mem rule: less_induct)
  case (less num)
  let ?k = "min num 32"
  have seg: "target div 16 < 2 ^ 16" using less.prems(3) by simp
  have ops: "try_into_w 16 (target div 16) = Ok (target div 16)" "add_u64 start ?k = Ok (start + ?k)"
    "add_u32 target (?k * 512) = Ok (target + ?k * 512)"
    using less.prems by (auto simp: try_into_w_def add_w_def)
  have wrap: "(start + ?k) mod 2 ^ 64 = start + ?k" "(target + ?k * 512) mod 2 ^ 32 = target + ?k * 512"
    using less.prems by (auto intro!: mod_less)
  have ih: "load_second_stage B disk (start + ?k) (num - ?k) (target + ?k * 512) m =
      load_sectors B disk (start + ?k) (num - ?k) (target + ?k * 512) m" if "num - ?k \<noteq> 0" for m
    by (rule less.IH) (use less.prems that in auto)
  show ?case
    unfolding load_second_stage.simps[of B disk start num target mem] load_sectors.simps[of B disk start num target mem]
      Let_def ops wrap
    using seg ih by (auto simp: unwrap_or_fail_def intro!: bindR_cong)
qed

lemma get_partition_fields:
  assumes "16 * index + 16 \<le> length raw" and "16 * index < 2 ^ 32"
  shows "get_partition raw index = Ok \<lparr>bootable = (raw ! (16 * index) = 0x80), partition_type = unat (raw ! (16 * index + 4)),
    logical_block_address = from_le_bytes (take 4 (drop (16 * index + 8) raw)),
    sector_count = from_le_bytes (take 4 (drop (16 * index + 12) raw))\<rparr>"
proof -
  let ?b = "drop (16 * index) raw"
  have len: "16 \<le> length ?b" using assms(1) by simp
  have "(index * 16) mod 2 ^ 32 = 16 * index" using assms(2) by simp
  then have "get_from raw ((index * 16) mod 2 ^ 32) = Some ?b" using assms(1) by (simp add: get_from_def)
  moreover have "get_nth ?b 0 = Some (raw ! (16 * index))" "get_nth ?b 4 = Some (raw ! (16 * index + 4))"
    using assms(1) by (simp_all add: get_nth_def)
  moreover have "Option.bind (get_from ?b 8) (get_to 4) = Some (take 4 (drop (16 * index + 8) raw))"
    "Option.bind (get_from ?b 12) (get_to 4) = Some (take 4 (drop (16 * index + 12) raw))"
    using assms(1) by (auto simp: get_from_def get_to_def add.commute)
  ultimately show ?thesis by (simp only: get_partition_def unwrap_or_fail_def option.case bindR.simps)
qed

lemma first_stage_loads:
  assumes bios: "disk_bios B disk img nsec"
    and lba: "lba = from_le_bytes (read_bytes mem (partition_table_raw + 8) 4)"
    and n: "n = from_le_bytes (read_bytes mem (partition_table_raw + 12) 4)"
    and fits: "lba + n \<le> nsec" "second_stage_start + n * 512 \<le> 2 ^ 20"
  shows "first_stage B disk mem = Ok (second_stage_start, disk, partition_table_raw,
    write_slice mem second_stage_start (read_bytes img (lba * 512) (n * 512)))"
proof -
  have "lba < 2 ^ 32" "n < 2 ^ 32"
    using from_le_bytes_bound[of "read_bytes mem (partition_table_raw + 8) 4"]
      from_le_bytes_bound[of "read_bytes mem (partition_table_raw + 12) 4"] by (simp_all add: lba n)
  then have b: "lba + n < 2 ^ 55" by simp
  have start: "second_stage_start < 2 ^ 20" by (simp add: second_stage_start_def)
  obtain mem' where m: "load_sectors B disk lba n second_stage_start mem = Ok mem'"
    using disk_bios.load_sectors_total[OF bios fits(1) b fits(2) start] by blast
  with load_second_stage_eq[OF _ fits(2) start] b
  have l: "load_second_stage B disk lba n second_stage_start mem = Ok mem'" by simp
  have "get_partition (read_bytes mem partition_table_raw 64) 0 = Ok \<lparr>bootable = (mem partition_table_raw = 0x80),
      partition_type = unat (mem (partition_table_raw + 4)), logical_block_address = lba, sector_count = n\<rparr>"
    using get_partition_fields[of 0 "read_bytes mem partition_table_raw 64"] by (simp add: lba n)
  then show ?thesis using l disk_bios.load_sectors_spec[OF bios m] by (simp add: first_stage_def Let_def)
qed

section \<open>Properties\<close>

text \<open>C20. The boot sector loads the second stage: when the first entry of the partition table names
  \<open>n\<close> sectors of the disk that fit between the boot sector and 1 MiB, the first stage returns the
  address behind the boot sector as entry point, the bytes of those sectors are there, and no other
  byte of memory has changed.\<close>

theorem second_stage_loaded:
  assumes bios: "disk_bios B disk img nsec"
    and lba: "lba = from_le_bytes (read_bytes mem (partition_table_raw + 8) 4)"
    and n: "n = from_le_bytes (read_bytes mem (partition_table_raw + 12) 4)"
    and fits: "lba + n \<le> nsec" "second_stage_start + n * 512 \<le> 2 ^ 20"
  shows "first_stage B disk mem = Ok (second_stage_start, disk, partition_table_raw,
    write_slice mem second_stage_start (read_bytes img (lba * 512) (n * 512)))"
  by (rule first_stage_loads[OF assms])

text \<open>A boot sector whose table names two sectors from sector 1 on.\<close>

definition example_boot_sector :: memory where
  "example_boot_sector a = (if a = partition_table_raw + 8 then 1 else if a = partition_table_raw + 12 then 2 else 0)"

theorem second_stage_loaded_witness:
  "\<exists>mem'. first_stage (image_bios 0x80 (\<lambda>a. word_of_nat (a mod 251)) 100) 0x80 example_boot_sector =
     Ok (0x7e00, 0x80, 0x7dbe, mem') \<and> mem' 0x7e00 = word_of_nat (512 mod 251) \<and> mem' 0x7e01 = word_of_nat (513 mod 251) \<and>
     mem' 0x8200 = 0"
proof -
  have t: "read_bytes example_boot_sector (partition_table_raw + 8) 4 = [1, 0, 0, 0]"
    "read_bytes example_boot_sector (partition_table_raw + 12) 4 = [2, 0, 0, 0]"
    by (simp_all add: read_bytes_def upt_conv_Cons example_boot_sector_def)
  have "first_stage (image_bios 0x80 (\<lambda>a. word_of_nat (a mod 251)) 100) 0x80 example_boot_sector =
      Ok (second_stage_start, 0x80, partition_table_raw, write_slice example_boot_sector second_stage_start
        (read_bytes (\<lambda>a. word_of_nat (a mod 251)) (1 * 512) (2 * 512)))"
    by (rule second_stage_loaded[OF disk_img.disk_bios_axioms]) (simp_all add: t second_stage_start_def)
  then show ?thesis
    by (simp add: second_stage_start_def partition_table_raw_def write_slice_apply example_boot_sector_def)
qed

end
