(* ===== verification/Fat.thy ===== *)
theory Fat
  imports Bios_Disk
begin

text \<open>
  The FAT file system reader of stage 2 (\<^verbatim>\<open>src/bios/stage-2/src/fat.rs\<close>): the BIOS parameter
  block, the root directory, and cluster chains.  Names are lists of code points.  The UTF-8 and
  UTF-16 decoders of the standard library are written out.  The release profile of stage 2 keeps
  overflow checks and drops \<open>debug_assert!\<close>.  Products of header fields in \<open>u64\<close> cannot
  overflow and are plain.
\<close>

unbundle bit_operations_syntax

section \<open>Definitions\<close>

subsection \<open>Text\<close>

text \<open>\<open>core::str::from_utf8\<close>, as the code points of the string.\<close>

definition utf8_cont :: "nat \<Rightarrow> bool" where
  "utf8_cont b \<longleftrightarrow> 0x80 \<le> b \<and> b < 0xC0"

fun utf8_decode :: "nat list \<Rightarrow> nat list option" where
  "utf8_decode [] = Some []"
| "utf8_decode (a # bs) =
     (if a < 0x80 then map_option ((#) a) (utf8_decode bs)
      else if 0xC2 \<le> a \<and> a < 0xE0 then
        (case bs of
           b # bs \<Rightarrow>
             if utf8_cont b
             then map_option ((#) (a mod 0x20 * 0x40 + b mod 0x40)) (utf8_decode bs) else None
         | _ \<Rightarrow> None)
      else if 0xE0 \<le> a \<and> a < 0xF0 then
        (case bs of
           b # c # bs \<Rightarrow>
             if utf8_cont b \<and> utf8_cont c \<and> (a = 0xE0 \<longrightarrow> 0xA0 \<le> b) \<and> (a = 0xED \<longrightarrow> b < 0xA0)
             then map_option ((#) (a mod 0x10 * 0x1000 + b mod 0x40 * 0x40 + c mod 0x40)) (utf8_decode bs)
             else None
         | _ \<Rightarrow> None)
      else if 0xF0 \<le> a \<and> a < 0xF5 then
        (case bs of
           b # c # d # bs \<Rightarrow>
             if utf8_cont b \<and> utf8_cont c \<and> utf8_cont d \<and> (a = 0xF0 \<longrightarrow> 0x90 \<le> b) \<and> (a = 0xF4 \<longrightarrow> b < 0x90)
             then map_option ((#) (a mod 8 * 0x40000 + b mod 0x40 * 0x1000 + c mod 0x40 * 0x40 + d mod 0x40))
               (utf8_decode bs)
             else None
         | _ \<Rightarrow> None)
      else None)"

text \<open>\<open>char::decode_utf16\<close>; \<open>None\<close> is an item \<open>Err(DecodeUtf16Error)\<close>.\<close>

fun decode_utf16 :: "nat list \<Rightarrow> nat option list" where
  "decode_utf16 [] = []"
| "decode_utf16 (u # us) =
     (if u < 0xD800 \<or> 0xE000 \<le> u then Some u # decode_utf16 us
      else if 0xDC00 \<le> u then None # decode_utf16 us
      else (case us of
          [] \<Rightarrow> [None]
        | v # vs \<Rightarrow>
            if 0xDC00 \<le> v \<and> v < 0xE000
            then Some (0x10000 + (u - 0xD800) * 0x400 + (v - 0xDC00)) # decode_utf16 vs
            else None # decode_utf16 us))"

text \<open>\<open>slice::chunks\<close> and \<open>Iterator::position\<close>.\<close>

function chunks :: "nat \<Rightarrow> 'a list \<Rightarrow> 'a list list" where
  "chunks n xs = (if n = 0 \<or> xs = [] then [] else take n xs # chunks n (drop n xs))"
  by auto
termination chunks by (relation "measure (\<lambda>(n, xs). length xs)") auto

declare chunks.simps [simp del]

fun position :: "('a \<Rightarrow> bool) \<Rightarrow> 'a list \<Rightarrow> nat option" where
  "position P [] = None"
| "position P (x # xs) = (if P x then Some 0 else map_option Suc (position P xs))"

subsection \<open>The BIOS parameter block\<close>

definition DIRECTORY_ENTRY_BYTES :: nat where "DIRECTORY_ENTRY_BYTES = 32"
definition UNUSED_ENTRY_PREFIX :: u8 where "UNUSED_ENTRY_PREFIX = 0xE5"
definition END_OF_DIRECTORY_PREFIX :: u8 where "END_OF_DIRECTORY_PREFIX = 0"

record fat_file =
  first_cluster :: nat
  file_size :: nat

record bpb =
  bytes_per_sector :: nat
  sectors_per_cluster :: nat
  reserved_sector_count :: nat
  num_fats :: nat
  root_entry_count :: nat
  total_sectors_16 :: nat
  fat_size_16 :: nat
  total_sectors_32 :: nat
  fat_size_32 :: nat
  root_cluster :: nat

text \<open>The little-endian number in \<open>raw[a..a + n]\<close>.\<close>

definition le_field :: "u8 list \<Rightarrow> nat \<Rightarrow> nat \<Rightarrow> nat" where
  "le_field raw a n = from_le_bytes (take n (drop a raw))"

definition bpb_of_sector :: "u8 list \<Rightarrow> bpb res" where
  "bpb_of_sector raw =
     (let total_16 = le_field raw 19 2;
          total_32 = le_field raw 32 4
      in bindR
        (if total_16 = 0 \<and> total_32 \<noteq> 0 then Ok (le_field raw 36 4, le_field raw 44 4)
         else if total_16 \<noteq> 0 \<and> total_32 = 0 then Ok (0, 0)
         else Panic (Explicit ''ExactlyOneTotalSectorsFieldMustBeZero'')) (\<lambda>(size_32, root).
        Ok \<lparr>bytes_per_sector = le_field raw 11 2,
            sectors_per_cluster = le_field raw 13 1,
            reserved_sector_count = le_field raw 14 2,
            num_fats = le_field raw 16 1,
            root_entry_count = le_field raw 17 2,
            total_sectors_16 = total_16,
            fat_size_16 = le_field raw 22 2,
            total_sectors_32 = total_32,
            fat_size_32 = size_32,
            root_cluster = root\<rparr>))"

definition bpb_parse ::
    "bios_read \<Rightarrow> nat \<Rightarrow> disk_access \<times> memory \<Rightarrow> (bpb \<times> disk_access \<times> memory) res" where
  "bpb_parse B tmp = (\<lambda>(d, mem).
     bindR (read_exact B tmp 512 (seek (SeekStart 0) d, mem)) (\<lambda>(raw, d, mem).
     bindR (bpb_of_sector raw) (\<lambda>b. Ok (b, d, mem))))"

definition fat_size_in_sectors :: "bpb \<Rightarrow> nat" where
  "fat_size_in_sectors b =
     (if fat_size_16 b \<noteq> 0 \<and> fat_size_32 b = 0 then fat_size_16 b else fat_size_32 b)"

definition count_of_clusters :: "bpb \<Rightarrow> nat res" where
  "count_of_clusters b =
     bindR (mul_u32 (root_entry_count b) 32) (\<lambda>root_bytes.
     bindR (sub_w (bytes_per_sector b) 1) (\<lambda>round.
     bindR (add_u32 root_bytes round) (\<lambda>rounded.
     bindR (div_w rounded (bytes_per_sector b)) (\<lambda>root_dir_sectors.
     let total_sectors = (if total_sectors_16 b \<noteq> 0 then total_sectors_16 b else total_sectors_32 b) in
     bindR (mul_u32 (num_fats b) (fat_size_in_sectors b)) (\<lambda>fats.
     bindR (add_u32 (reserved_sector_count b) fats) (\<lambda>before_root.
     bindR (add_u32 before_root root_dir_sectors) (\<lambda>before_data.
     bindR (sub_w total_sectors before_data) (\<lambda>data_sectors.
       div_w data_sectors (sectors_per_cluster b)))))))))"

datatype fat_type = Fat12 | Fat16 | Fat32

definition fat_type_of :: "nat \<Rightarrow> fat_type" where
  "fat_type_of clusters = (if clusters < 4085 then Fat12 else if clusters < 65525 then Fat16 else Fat32)"

definition bpb_fat_type :: "bpb \<Rightarrow> fat_type res" where
  "bpb_fat_type b = bindR (count_of_clusters b) (\<lambda>n. Ok (fat_type_of n))"

definition root_directory_size :: "bpb \<Rightarrow> nat res" where
  "root_directory_size b =
     bindR (bpb_fat_type b) (\<lambda>_. mul_u32 (root_entry_count b) DIRECTORY_ENTRY_BYTES)"

definition root_directory_offset :: "bpb \<Rightarrow> nat" where
  "root_directory_offset b =
     (reserved_sector_count b + num_fats b * fat_size_16 b) * bytes_per_sector b"

definition maximum_valid_cluster :: "bpb \<Rightarrow> nat res" where
  "maximum_valid_cluster b = bindR (count_of_clusters b) (\<lambda>n. add_u32 n 1)"

definition fat_offset :: "bpb \<Rightarrow> nat" where
  "fat_offset b = reserved_sector_count b * bytes_per_sector b"

definition data_offset :: "bpb \<Rightarrow> nat res" where
  "data_offset b =
     bindR (root_directory_size b) (\<lambda>root.
       Ok (root + (reserved_sector_count b + fat_size_in_sectors b * num_fats b) * bytes_per_sector b))"

definition bytes_per_cluster :: "bpb \<Rightarrow> nat" where
  "bytes_per_cluster b = bytes_per_sector b * sectors_per_cluster b"

subsection \<open>The file allocation table\<close>

fun fat_entry_defective :: "fat_type \<Rightarrow> nat" where
  "fat_entry_defective Fat12 = 0xFF7"
| "fat_entry_defective Fat16 = 0xFFF7"
| "fat_entry_defective Fat32 = 0x0FFFFFF7"

datatype fat_lookup_error = FreeCluster | DefectiveCluster | UnspecifiedEntryOne | ReservedEntry

datatype file_fat_entry = AllocatedCluster nat | EndOfFile

text \<open>\<open>Inl\<close> is the \<open>Err\<close> and \<open>Inr\<close> the \<open>Ok\<close> of the source's \<open>Result\<close>.\<close>

definition classify_fat_entry :: "fat_type \<Rightarrow> nat \<Rightarrow> nat \<Rightarrow> fat_lookup_error + file_fat_entry" where
  "classify_fat_entry ft entry max_cluster =
     (if entry = 0 then Inl FreeCluster
      else if entry = 1 then Inl UnspecifiedEntryOne
      else if entry \<le> max_cluster then Inr (AllocatedCluster entry)
      else if entry < fat_entry_defective ft then Inl ReservedEntry
      else if entry = fat_entry_defective ft then Inl DefectiveCluster
      else Inr EndOfFile)"

definition fat_entry_of_nth_cluster ::
    "bios_read \<Rightarrow> nat \<Rightarrow> fat_type \<Rightarrow> nat \<Rightarrow> nat \<Rightarrow> disk_access \<times> memory \<Rightarrow>
     (nat \<times> disk_access \<times> memory) res" where
  "fat_entry_of_nth_cluster B tmp ft fat_start n = (\<lambda>(d, mem).
     case ft of
       Fat32 \<Rightarrow>
         bindR (read_exact B tmp 4 (seek (SeekStart (fat_start + n * 4)) d, mem)) (\<lambda>(buf, s).
           Ok (from_le_bytes buf mod 2 ^ 28, s))
     | Fat16 \<Rightarrow>
         bindR (read_exact B tmp 2 (seek (SeekStart (fat_start + n * 2)) d, mem)) (\<lambda>(buf, s).
           Ok (from_le_bytes buf, s))
     | Fat12 \<Rightarrow>
         bindR (read_exact B tmp 2 (seek (SeekStart (fat_start + (n + n div 2))) d, mem)) (\<lambda>(buf, s).
           let entry16 = from_le_bytes buf in
           Ok (if n mod 2 = 0 then entry16 mod 2 ^ 12 else entry16 div 2 ^ 4, s)))"

subsection \<open>Cluster chains\<close>

record fat_cluster =
  cluster_index :: nat
  start_offset :: nat
  len_bytes :: nat

text \<open>
  The iterator \<open>Traverser\<close>: its \<open>current_entry\<close> is an argument and part of the result.  An
  \<open>Err\<close> is an entry that does not belong to a file.
\<close>

definition next_cluster ::
    "bios_read \<Rightarrow> nat \<Rightarrow> bpb \<Rightarrow> nat \<Rightarrow> disk_access \<times> memory \<Rightarrow>
     (fat_cluster option \<times> nat \<times> disk_access \<times> memory) res" where
  "next_cluster B tmp b current_entry s =
     bindR (bpb_fat_type b) (\<lambda>ft.
     bindR (maximum_valid_cluster b) (\<lambda>max_cluster.
     case classify_fat_entry ft current_entry max_cluster of
       Inl _ \<Rightarrow> Err ''()''
     | Inr EndOfFile \<Rightarrow> Ok (None, current_entry, s)
     | Inr (AllocatedCluster entry) \<Rightarrow>
         bindR (data_offset b) (\<lambda>data.
         let cluster_start = data + (entry - 2) * bytes_per_cluster b in
         bindR (fat_entry_of_nth_cluster B tmp ft (fat_offset b) entry s) (\<lambda>(next_entry, s).
           Ok (Some \<lparr>cluster_index = current_entry, start_offset = cluster_start,
                      len_bytes = bytes_per_cluster b\<rparr>, next_entry, s)))))"

subsection \<open>The root directory\<close>

record raw_directory_entry_normal =
  short_filename_main :: "nat list"
  short_filename_extension :: "nat list"
  n_attributes :: u8
  n_first_cluster :: nat
  n_file_size :: nat

record raw_directory_entry_long_name =
  order :: u8
  name_1 :: "u8 list"
  name_2 :: "u8 list"
  name_3 :: "u8 list"
  l_attributes :: u8
  checksum :: u8

datatype raw_directory_entry = Normal raw_directory_entry_normal | LongName raw_directory_entry_long_name

definition DIRECTORY :: u8 where "DIRECTORY = 0x10"
definition LONG_NAME :: u8 where "LONG_NAME = 0x0F"

definition slice_to_string :: "u8 list \<Rightarrow> nat list res" where
  "slice_to_string sl =
     (case position (\<lambda>c. c \<noteq> 0x20) sl of
        Some start_idx \<Rightarrow>
          let end_idx = start_idx + (case position (\<lambda>c. c = 0x20) (drop (start_idx + 1) sl) of
                Some i \<Rightarrow> i | None \<Rightarrow> length sl)
          in bindR (slice_range sl start_idx end_idx) (\<lambda>bs. ok_or ''()'' (utf8_decode (map unat bs)))
      | None \<Rightarrow> Ok [])"

text \<open>\<open>raw\<close> has 32 bytes.\<close>

definition entry_parse :: "u8 list \<Rightarrow> raw_directory_entry res" where
  "entry_parse raw =
     (if raw ! 11 = LONG_NAME then
        Ok (LongName \<lparr>order = raw ! 0, name_1 = take 10 (drop 1 raw), name_2 = take 12 (drop 14 raw),
              name_3 = take 4 (drop 28 raw), l_attributes = raw ! 11, checksum = raw ! 13\<rparr>)
      else
        bindR (slice_to_string (take 8 raw)) (\<lambda>main.
        bindR (slice_to_string (take 3 (drop 8 raw))) (\<lambda>extension.
          Ok (Normal \<lparr>short_filename_main = main, short_filename_extension = extension,
                n_attributes = raw ! 11,
                n_first_cluster = le_field raw 20 2 * 2 ^ 16 + le_field raw 26 2,
                n_file_size = le_field raw 28 4\<rparr>))))"

definition long_name :: "raw_directory_entry_long_name \<Rightarrow> nat option list" where
  "long_name e =
     decode_utf16 (takeWhile (\<lambda>c. c \<noteq> 0)
       (map from_le_bytes (chunks 2 (name_1 e) @ chunks 2 (name_2 e) @ chunks 2 (name_3 e))))"

fun eq_name :: "raw_directory_entry \<Rightarrow> nat list \<Rightarrow> bool" where
  "eq_name (Normal e) name \<longleftrightarrow> short_filename_main e @ short_filename_extension e = name"
| "eq_name (LongName e) name \<longleftrightarrow> long_name e = map Some name"

text \<open>\<open>filter_map(|e| e.ok())\<close>, one step and with \<open>find\<close>: the entry and what the iterator still has.\<close>

fun next_entry :: "u8 list list \<Rightarrow> (raw_directory_entry \<times> u8 list list) option res" where
  "next_entry [] = Ok None"
| "next_entry (raw # rest) =
     (case entry_parse raw of
        Ok e \<Rightarrow> Ok (Some (e, rest))
      | Err _ \<Rightarrow> next_entry rest
      | Panic p \<Rightarrow> Panic p)"

fun find_entry :: "nat list \<Rightarrow> u8 list list \<Rightarrow> (raw_directory_entry \<times> u8 list list) option res" where
  "find_entry name [] = Ok None"
| "find_entry name (raw # rest) =
     (case entry_parse raw of
        Ok e \<Rightarrow> if eq_name e name then Ok (Some (e, rest)) else find_entry name rest
      | Err _ \<Rightarrow> find_entry name rest
      | Panic p \<Rightarrow> Panic p)"

text \<open>The entries in use, up to the end mark; \<open>read_root_dir\<close> up to the parsing of its entries.\<close>

definition dir_entries :: "u8 list \<Rightarrow> u8 list list" where
  "dir_entries raw =
     filter (\<lambda>raw. raw ! 0 \<noteq> UNUSED_ENTRY_PREFIX)
       (takeWhile (\<lambda>raw. raw ! 0 \<noteq> END_OF_DIRECTORY_PREFIX) (chunks DIRECTORY_ENTRY_BYTES raw))"

definition read_root_dir ::
    "bios_read \<Rightarrow> bpb \<Rightarrow> aligned_buffer \<Rightarrow> disk_access \<times> memory \<Rightarrow>
     (u8 list list \<times> disk_access \<times> memory) res" where
  "read_root_dir B b buf = (\<lambda>(d, mem).
     bindR (bpb_fat_type b) (\<lambda>ft.
     if ft = Fat32 then Panic (Explicit ''not implemented'')
     else
       bindR (root_directory_size b) (\<lambda>sz.
       bindR (read_exact_into B sz buf (seek (SeekStart (root_directory_offset b)) d, mem)) (\<lambda>(d, mem).
         Ok (dir_entries (buffer_slice buf mem), d, mem)))))"

definition find_file_in_entries :: "nat list \<Rightarrow> u8 list list \<Rightarrow> fat_file option res" where
  "find_file_in_entries name entries =
     bindR (find_entry name entries) (\<lambda>r.
     case r of
       None \<Rightarrow> Ok None
     | Some (raw_entry, rest) \<Rightarrow>
         bindR (case raw_entry of
             Normal e \<Rightarrow> Ok e
           | LongName _ \<Rightarrow>
               bindR (next_entry rest) (\<lambda>n.
               case n of
                 Some (LongName _, _) \<Rightarrow> Panic (Explicit ''not implemented'')
               | Some (Normal e, _) \<Rightarrow> Ok e
               | None \<Rightarrow> Panic (Explicit ''next none''))) (\<lambda>e.
           Ok (if n_attributes e AND DIRECTORY \<noteq> 0 then None
               else Some \<lparr>first_cluster = n_first_cluster e, file_size = n_file_size e\<rparr>)))"

definition find_file_in_root_dir ::
    "bios_read \<Rightarrow> bpb \<Rightarrow> nat list \<Rightarrow> aligned_buffer \<Rightarrow> disk_access \<times> memory \<Rightarrow>
     (fat_file option \<times> disk_access \<times> memory) res" where
  "find_file_in_root_dir B b name buf s =
     bindR (read_root_dir B b buf s) (\<lambda>(entries, s).
     bindR (find_file_in_entries name entries) (\<lambda>f. Ok (f, s)))"

subsection \<open>Specification vocabulary\<close>

text \<open>The table as one little-endian number: entry \<open>n\<close> is its \<open>n\<close>-th group of bits.\<close>

fun fat_bits :: "fat_type \<Rightarrow> nat" where
  "fat_bits Fat12 = 12"
| "fat_bits Fat16 = 16"
| "fat_bits Fat32 = 32"

definition table_entry :: "fat_type \<Rightarrow> u8 list \<Rightarrow> nat \<Rightarrow> nat" where
  "table_entry ft table n = from_le_bytes table div 2 ^ (fat_bits ft * n) mod 2 ^ (if ft = Fat32 then 28 else fat_bits ft)"

text \<open>
  A file's clusters, from the entry that leads to the first one: \<open>table\<close> gives the table's
  entries and \<open>max_cluster\<close> is the last cluster.
\<close>

inductive cluster_chain :: "fat_type \<Rightarrow> nat \<Rightarrow> (nat \<Rightarrow> nat) \<Rightarrow> nat \<Rightarrow> nat list \<Rightarrow> bool"
  for ft max_cluster table where
  chain_end: "classify_fat_entry ft e max_cluster = Inr EndOfFile \<Longrightarrow> cluster_chain ft max_cluster table e []"
| chain_step: "classify_fat_entry ft e max_cluster = Inr (AllocatedCluster c) \<Longrightarrow>
    cluster_chain ft max_cluster table (table c) cs \<Longrightarrow> cluster_chain ft max_cluster table e (c # cs)"

inductive_cases chain_NilE: "cluster_chain ft max_cluster table e []"
inductive_cases chain_ConsE: "cluster_chain ft max_cluster table e (c # cs)"

text \<open>A long name entry as the file system's documentation lays it out: 13 units, padded.\<close>

definition long_name_units :: "nat list \<Rightarrow> nat list" where
  "long_name_units name = take 13 (name @ 0 # replicate 13 0xFFFF)"

definition long_name_entry :: "nat list \<Rightarrow> u8 \<Rightarrow> u8 \<Rightarrow> u8 list" where
  "long_name_entry name ord chk =
     (let bs = concat (map (to_le_bytes 2) (long_name_units name)) in
      ord # take 10 bs @ [LONG_NAME, 0, chk] @ take 12 (drop 10 bs) @ [0, 0] @ drop 22 bs)"

section \<open>Lemmas\<close>

subsection \<open>Bytes of numbers\<close>

lemma from_le_bytes_append: "from_le_bytes (xs @ ys) = from_le_bytes xs + 256 ^ length xs * from_le_bytes ys"
  by (induction xs) (simp_all add: algebra_simps)

lemma from_le_bytes_div: "from_le_bytes xs div 256 ^ k = from_le_bytes (drop k xs)"
proof (cases "k \<le> length xs")
  case True
  have "from_le_bytes xs = from_le_bytes (take k xs) + 256 ^ k * from_le_bytes (drop k xs)"
    using from_le_bytes_append[of "take k xs" "drop k xs"] True by simp
  moreover have "from_le_bytes (take k xs) < 256 ^ k" using from_le_bytes_bound[of "take k xs"] True by simp
  ultimately show ?thesis by simp
next
  case False
  have "from_le_bytes xs < 256 ^ length xs" by (rule from_le_bytes_bound)
  also have "\<dots> \<le> 256 ^ k" using False by (intro power_increasing) simp_all
  finally show ?thesis using False by simp
qed

lemma from_le_bytes_mod: "k \<le> length xs \<Longrightarrow> from_le_bytes xs mod 256 ^ k = from_le_bytes (take k xs)"
  using from_le_bytes_append[of "take k xs" "drop k xs"] from_le_bytes_bound[of "take k xs"] by simp

lemma le_field_bound: "a + n \<le> length raw \<Longrightarrow> le_field raw a n < 256 ^ n"
  using from_le_bytes_bound[of "take n (drop a raw)"] by (simp add: le_field_def)

text \<open>The group of bits at a byte boundary, read from two or four bytes.\<close>

lemma table_entry_bytes:
  assumes "k + m \<le> length table"
  shows "from_le_bytes table div 256 ^ k mod 256 ^ m = from_le_bytes (take m (drop k table))"
  using assms by (simp add: from_le_bytes_div from_le_bytes_mod)

subsection \<open>Chunks\<close>

lemma chunks_append: "length x = n \<Longrightarrow> 0 < n \<Longrightarrow> chunks n (x @ xs) = x # chunks n xs"
  by (subst chunks.simps) auto

lemma chunks_Nil [simp]: "chunks n [] = []"
  by (subst chunks.simps) simp

lemma position_spec:
  "position P xs = Some i \<longleftrightarrow> i < length xs \<and> P (xs ! i) \<and> (\<forall>j < i. \<not> P (xs ! j))"
proof (induction xs arbitrary: i)
  case (Cons x xs)
  then show ?case by (cases i) (auto simp: less_Suc_eq_0_disj)
qed simp

lemma position_None: "position P xs = None \<longleftrightarrow> (\<forall>x \<in> set xs. \<not> P x)"
  by (induction xs) auto

subsection \<open>Reading the table\<close>

text \<open>What the code reads for entry \<open>n\<close>, with the table at \<open>start\<close> of the disk.\<close>

definition disk_entry :: "memory \<Rightarrow> fat_type \<Rightarrow> nat \<Rightarrow> nat \<Rightarrow> nat" where
  "disk_entry img ft start n =
     (case ft of
        Fat32 \<Rightarrow> from_le_bytes (read_bytes img (start + n * 4) 4) mod 2 ^ 28
      | Fat16 \<Rightarrow> from_le_bytes (read_bytes img (start + n * 2) 2)
      | Fat12 \<Rightarrow>
          let v = from_le_bytes (read_bytes img (start + (n + n div 2)) 2) in
          if n mod 2 = 0 then v mod 2 ^ 12 else v div 2 ^ 4)"

lemma disk_entry_table:
  assumes len: "4 * n + 4 \<le> len"
  shows "disk_entry img ft start n = table_entry ft (read_bytes img start len) n"
proof (cases ft)
  case Fat32
  define x where "x = from_le_bytes (read_bytes img start len) div 256 ^ (4 * n)"
  have "from_le_bytes (read_bytes img (start + n * 4) 4) = x mod 2 ^ 32"
    using table_entry_bytes[of "4 * n" 4 "read_bytes img start len"] len by (auto simp: x_def min_def mult.commute)
  moreover have "(256 :: nat) ^ (4 * n) = 2 ^ (32 * n)" using power_mult[of "2 :: nat" 8 "4 * n"] by simp
  ultimately show ?thesis using Fat32 by (simp add: disk_entry_def table_entry_def x_def mod_mod_cancel)
next
  case Fat16
  have "from_le_bytes (read_bytes img start len) div 256 ^ (2 * n) mod 256 ^ 2 =
      from_le_bytes (read_bytes img (start + 2 * n) 2)"
    using len by (subst table_entry_bytes) (auto simp: min_def)
  moreover have "(256 :: nat) ^ (2 * n) = 2 ^ (16 * n)" using power_mult[of "2 :: nat" 8 "2 * n"] by simp
  ultimately show ?thesis using Fat16 by (simp add: disk_entry_def table_entry_def mult.commute)
next
  case Fat12
  define x where "x = from_le_bytes (read_bytes img start len)"
  define k where "k = n + n div 2"
  have v: "x div 256 ^ k mod 2 ^ 16 = from_le_bytes (read_bytes img (start + k) 2)"
    using table_entry_bytes[of k 2 "read_bytes img start len"] len by (auto simp: x_def k_def min_def)
  show ?thesis
  proof (cases "n mod 2 = 0")
    case True
    then have "(256 :: nat) ^ k = 2 ^ (12 * n)" using power_mult[of "2 :: nat" 8 k] by (auto simp: k_def elim!: evenE)
    moreover have "x div 2 ^ (12 * n) mod 2 ^ 16 mod 2 ^ 12 = x div 2 ^ (12 * n) mod 2 ^ 12" by (simp add: mod_mod_cancel)
    ultimately show ?thesis using True v Fat12 by (simp add: disk_entry_def table_entry_def x_def k_def Let_def)
  next
    case False
    then have "12 * n = 8 * k + 4" unfolding k_def by presburger
    then have "2 ^ (12 * n) = (256 :: nat) ^ k * 2 ^ 4"
      using power_mult[of "2 :: nat" 8 k] by (simp only: power_add) simp
    then have "x div 2 ^ (12 * n) mod 2 ^ 12 = x div 256 ^ k div 2 ^ 4 mod 2 ^ 12" by (simp add: div_mult2_eq)
    also have "\<dots> = x div 256 ^ k mod 2 ^ 16 div 2 ^ 4" using mod_mult2_eq[of "x div 256 ^ k" 16 4096] by simp
    finally show ?thesis using False v Fat12 by (simp add: disk_entry_def table_entry_def x_def k_def Let_def)
  qed
qed

context disk_bios
begin

lemma fat_entry_spec:
  assumes ok: "fat_entry_of_nth_cluster B tmp ft fat_start n (d, mem) = Ok (e, d', mem')"
    and d: "disk_number d = disk" and base: "512 dvd base_offset d"
  shows "e = disk_entry img ft (base_offset d + fat_start) n"
    and "disk_number d' = disk" and "base_offset d' = base_offset d"
    and "a < tmp \<or> tmp + 1536 \<le> a \<Longrightarrow> mem' a = mem a"
proof -
  obtain p len buf where r: "read_exact B tmp len (seek (SeekStart p) d, mem) = Ok (buf, d', mem')"
    and ol: "(ft, p, len) \<in> {(Fat32, fat_start + n * 4, 4), (Fat16, fat_start + n * 2, 2), (Fat12, fat_start + (n + n div 2), 2)}"
    and e: "e = (case ft of Fat32 \<Rightarrow> from_le_bytes buf mod 2 ^ 28 | Fat16 \<Rightarrow> from_le_bytes buf
      | Fat12 \<Rightarrow> if n mod 2 = 0 then from_le_bytes buf mod 2 ^ 12 else from_le_bytes buf div 2 ^ 4)"
    using ok by (cases ft) (auto simp: fat_entry_of_nth_cluster_def res_simps Let_def)
  note sp = read_exact_spec[OF r, simplified, OF d base]
  show "e = disk_entry img ft (base_offset d + fat_start) n"
    using ol sp(1) by (cases ft) (auto simp: e disk_entry_def Let_def add.assoc)
  show "disk_number d' = disk" and "base_offset d' = base_offset d" using sp(3,4) by simp_all
  show "mem' a = mem a" if "a < tmp \<or> tmp + 1536 \<le> a" using sp(2) that by (auto simp: write_slice_apply)
qed

lemma fat_entry_total:
  assumes "disk_number d = disk" and "base_offset d + fat_start + 4 * n + 1024 \<le> nsec * 512" and "nsec < 2 ^ 55"
    and "tmp + 1536 \<le> 2 ^ 20"
  shows "\<exists>r. fat_entry_of_nth_cluster B tmp ft fat_start n (d, mem) = Ok r"
proof -
  have r: "\<exists>r. read_exact B tmp len (d\<lparr>current_offset := p\<rparr>, mem) = Ok r" if "p \<le> fat_start + 4 * n" "len \<le> 4" for p len
    by (rule read_exact_total) (use assms that mod_less_divisor[of 512 p] in auto)
  have "n + n div 2 \<le> 4 * n" by (rule order_trans[of _ "n + n"]) (simp_all add: div_le_dividend)
  then show ?thesis
    using r[of "fat_start + n * 4" 4] r[of "fat_start + n * 2" 2] r[of "fat_start + (n + n div 2)" 2]
    by (cases ft) (auto simp: fat_entry_of_nth_cluster_def Let_def split_paired_Ex)
qed

text \<open>One step along a chain: the iterator yields the cluster's place and moves to the next entry.\<close>

lemma next_cluster_step:
  assumes st: "classify_fat_entry ft e mx = Inr (AllocatedCluster c)"
    and b: "bpb_fat_type b = Ok ft" "maximum_valid_cluster b = Ok mx" "data_offset b = Ok data"
    and d: "disk_number d = disk" and base: "512 dvd base_offset d"
    and room: "base_offset d + fat_offset b + 4 * c + 1024 \<le> nsec * 512" "nsec < 2 ^ 55" "tmp + 1536 \<le> 2 ^ 20"
  obtains d' mem' where "next_cluster B tmp b e (d, mem) =
      Ok (Some \<lparr>cluster_index = e, start_offset = data + (c - 2) * bytes_per_cluster b, len_bytes = bytes_per_cluster b\<rparr>,
        disk_entry img ft (base_offset d + fat_offset b) c, d', mem')"
    and "disk_number d' = disk" and "base_offset d' = base_offset d"
    and "\<And>a. a < tmp \<or> tmp + 1536 \<le> a \<Longrightarrow> mem' a = mem a"
proof -
  obtain n d' mem' where r: "fat_entry_of_nth_cluster B tmp ft (fat_offset b) c (d, mem) = Ok (n, d', mem')"
    using fat_entry_total[OF d room] by (metis prod_cases3)
  note sp = fat_entry_spec[OF r d base]
  show thesis
    by (rule that[OF _ sp(2-4)]) (use r st b sp(1) in \<open>simp_all add: next_cluster_def\<close>)
qed

end

subsection \<open>Directory entries\<close>

lemma chunks_2_bytes: "chunks 2 (concat (map (to_le_bytes 2) us)) = map (to_le_bytes 2) us"
  by (induction us) (simp_all add: chunks_append)

lemma decode_utf16_plain: "\<forall>u \<in> set us. u < 0xD800 \<Longrightarrow> decode_utf16 us = map Some us"
  by (induction us) auto

lemma take_concat_bytes: "take (2 * k) (concat (map (to_le_bytes 2) us)) = concat (map (to_le_bytes 2) (take k us))"
proof (induction us arbitrary: k)
  case (Cons u us)
  then show ?case by (cases k) auto
qed simp

lemma drop_concat_bytes: "drop (2 * k) (concat (map (to_le_bytes 2) us)) = concat (map (to_le_bytes 2) (drop k us))"
proof (induction us arbitrary: k)
  case (Cons u us)
  then show ?case by (cases k) auto
qed simp

lemma takeWhile_units:
  assumes "length name \<le> 13" and "\<forall>u \<in> set name. u \<noteq> 0"
  shows "takeWhile (\<lambda>c. c \<noteq> 0) (long_name_units name) = name"
proof -
  have "long_name_units name = name @ take (13 - length name) (0 # replicate 13 0xFFFF)"
    using assms(1) by (simp add: long_name_units_def)
  then show ?thesis using assms(2) by (cases "13 - length name") (auto simp: takeWhile_append2)
qed

lemma long_name_entry_parse:
  assumes "length name \<le> 13" and "\<forall>u \<in> set name. 0 < u \<and> u < 0xD800"
  obtains e where "entry_parse (long_name_entry name ord chk) = Ok (LongName e)" and "long_name e = map Some name"
proof -
  define us where "us = long_name_units name"
  define bs where "bs = concat (map (to_le_bytes 2) us)"
  have us: "length us = 13" "\<forall>u \<in> set us. u < 0x10000"
    using assms by (auto simp: us_def long_name_units_def dest!: in_set_takeD)
  have lb: "length bs = 26" by (simp add: bs_def length_concat us(1) comp_def sum_list_triv)
  have parts: "take 10 bs = concat (map (to_le_bytes 2) (take 5 us))"
    "take 12 (drop 10 bs) = concat (map (to_le_bytes 2) (take 6 (drop 5 us)))"
    "drop 22 bs = concat (map (to_le_bytes 2) (drop 11 us))"
    using take_concat_bytes[of 5 us] drop_concat_bytes[of 5 us] take_concat_bytes[of 6 "drop 5 us"] drop_concat_bytes[of 11 us]
    by (simp_all add: bs_def)
  define raw where "raw = ord # take 10 bs @ [LONG_NAME, 0, chk] @ take 12 (drop 10 bs) @ [0, 0] @ drop 22 bs"
  have raw: "long_name_entry name ord chk = raw" by (simp add: long_name_entry_def raw_def bs_def us_def Let_def)
  have l: "length (take 10 bs) = 10" "length (take 12 (drop 10 bs)) = 12" "length (drop 22 bs) = 4" using lb by simp_all
  have f: "raw ! 11 = LONG_NAME" "take 10 (drop 1 raw) = take 10 bs" "take 12 (drop 14 raw) = take 12 (drop 10 bs)"
    "take 4 (drop 28 raw) = drop 22 bs"
    using l by (simp_all add: raw_def nth_append)
  let ?e = "\<lparr>order = raw ! 0, name_1 = take 10 bs, name_2 = take 12 (drop 10 bs), name_3 = drop 22 bs,
      l_attributes = raw ! 11, checksum = raw ! 13\<rparr>"
  have id: "map (from_le_bytes \<circ> to_le_bytes 2) us = us" using us(2) by (simp add: map_idI)
  have "take 5 us @ take 6 (drop 5 us) @ drop 11 us = us"
    using append_take_drop_id[of 5 us] append_take_drop_id[of 6 "drop 5 us"] by (simp del: append_take_drop_id)
  then have "map (from_le_bytes \<circ> to_le_bytes 2) (take 5 us) @ map (from_le_bytes \<circ> to_le_bytes 2) (take 6 (drop 5 us)) @
      map (from_le_bytes \<circ> to_le_bytes 2) (drop 11 us) = us"
    by (metis id map_append)
  then have "long_name ?e = decode_utf16 (takeWhile (\<lambda>c. c \<noteq> 0) us)"
    by (simp add: long_name_def parts chunks_2_bytes)
  also have "\<dots> = map Some name"
    unfolding us_def using assms by (subst takeWhile_units) (auto intro: decode_utf16_plain)
  finally have "long_name ?e = map Some name" .
  moreover have "entry_parse (long_name_entry name ord chk) = Ok (LongName ?e)"
    unfolding raw entry_parse_def f by simp
  ultimately show thesis by (rule that[rotated])
qed

lemma utf8_decode_ascii: "\<forall>b \<in> set bs. b < 0x80 \<Longrightarrow> utf8_decode bs = Some bs"
  by (induction bs) auto

lemma find_entry_append:
  assumes "\<forall>raw \<in> set pre. case entry_parse raw of Ok e \<Rightarrow> \<not> eq_name e name | Err _ \<Rightarrow> True | Panic _ \<Rightarrow> False"
  shows "find_entry name (pre @ rest) = find_entry name rest"
  using assms by (induction pre) (auto split: res.splits)

section \<open>Properties\<close>



text \<open>C35. An entry of the file allocation table is found where the format puts it: reading two or four
  bytes and masking gives the \<open>n\<close>-th group of 12, 16 or 32 bits (28 significant) of the table taken as
  one little-endian number.\<close>

theorem fat_entry_equals_table:
  assumes "disk_bios B disk img nsec" and "disk_number d = disk" and "512 dvd base_offset d"
    and "base_offset d + fat_start + 4 * n + 1024 \<le> nsec * 512" and "nsec < 2 ^ 55" and "tmp + 1536 \<le> 2 ^ 20"
    and "4 * n + 4 \<le> len"
  shows "\<exists>s'. fat_entry_of_nth_cluster B tmp ft fat_start n (d, mem) =
    Ok (table_entry ft (read_bytes img (base_offset d + fat_start) len) n, s')"
proof -
  obtain e d' mem' where r: "fat_entry_of_nth_cluster B tmp ft fat_start n (d, mem) = Ok (e, d', mem')"
    using disk_bios.fat_entry_total[OF assms(1,2,4,5,6)] by (metis prod_cases3)
  with disk_bios.fat_entry_spec(1)[OF assms(1) r assms(2,3)] disk_entry_table[OF assms(7)] show ?thesis by auto
qed

theorem fat_entry_equals_table_witness:
  "\<exists>s'. fat_entry_of_nth_cluster (image_bios 0x80 (\<lambda>a. if a = 0x204 then 0xAB else if a = 0x205 then 0xCD else 0x11) 10)
     0x7000 Fat12 0x200 3 (\<lparr>disk_number = 0x80, base_offset = 0, current_offset = 0\<rparr>, \<lambda>_. 0) = Ok (0xCDA, s')"
  using fat_entry_equals_table[OF disk_img.disk_bios_axioms, where d = "\<lparr>disk_number = 0x80, base_offset = 0, current_offset = 0\<rparr>"
      and disk = "0x80" and fat_start = "0x200" and n = 3 and nsec = 10 and tmp = "0x7000" and len = 16 and ft = Fat12
      and img = "\<lambda>a. if a = 0x204 then 0xAB else if a = 0x205 then 0xCD else 0x11" and mem = "\<lambda>_. 0"]
  by (simp add: table_entry_def read_bytes_def upt_conv_Cons)

text \<open>C37. A long name written as the format lays it out is read back: a directory entry for a name of up
  to 13 characters of the basic plane is parsed as a long name entry, and it matches that name and no
  other.\<close>

theorem long_name_roundtrip:
  assumes "length name \<le> 13" and "\<forall>u \<in> set name. 0 < u \<and> u < 0xD800"
  shows "\<exists>e. entry_parse (long_name_entry name ord chk) = Ok e \<and> (\<forall>other. eq_name e other \<longleftrightarrow> other = name)"
proof -
  obtain e where "entry_parse (long_name_entry name ord chk) = Ok (LongName e)" "long_name e = map Some name"
    by (rule long_name_entry_parse[OF assms])
  moreover have "map Some name = map Some other \<longleftrightarrow> other = name" for other
    by (auto simp: inj_map_eq_map)
  ultimately show ?thesis by simp
qed

theorem long_name_roundtrip_witness:
  "\<exists>e. entry_parse (long_name_entry (map of_char ''kernel-x86_64'') 0x41 0) = Ok e \<and>
     eq_name e (map of_char ''kernel-x86_64'') \<and> \<not> eq_name e (map of_char ''kernel'')"
proof -
  have "length (map of_char ''kernel-x86_64'' :: nat list) \<le> 13" by simp
  moreover have "\<forall>u \<in> set (map of_char ''kernel-x86_64'' :: nat list). 0 < u \<and> u < 0xD800" by simp
  ultimately obtain e where "entry_parse (long_name_entry (map of_char ''kernel-x86_64'') 0x41 0) = Ok e"
    "\<forall>other. eq_name e other \<longleftrightarrow> other = map of_char ''kernel-x86_64''"
    using long_name_roundtrip by blast
  then show ?thesis by auto
qed

text \<open>C36. A file with a long name is found in the root directory: when no earlier entry matches or makes
  the parser panic, the entry after the long name gives the file's first cluster and size.\<close>

theorem find_file_long_name:
  assumes "length name \<le> 13" and "\<forall>u \<in> set name. 0 < u \<and> u < 0xD800"
    and "\<forall>raw \<in> set pre. case entry_parse raw of Ok e \<Rightarrow> \<not> eq_name e name | Err _ \<Rightarrow> True | Panic _ \<Rightarrow> False"
    and "entry_parse short = Ok (Normal e)" and "n_attributes e AND DIRECTORY = 0"
  shows "find_file_in_entries name (pre @ long_name_entry name ord chk # short # rest) =
    Ok (Some \<lparr>first_cluster = n_first_cluster e, file_size = n_file_size e\<rparr>)"
proof -
  obtain l where "entry_parse (long_name_entry name ord chk) = Ok (LongName l)" "long_name l = map Some name"
    by (rule long_name_entry_parse[OF assms(1,2)])
  then show ?thesis using find_entry_append[OF assms(3)] assms(4,5) by (simp add: find_file_in_entries_def)
qed

theorem find_file_long_name_witness:
  "find_file_in_entries (map of_char ''ramdisk'')
     [long_name_entry (map of_char ''boot.json'') 0x41 0,
      map word_of_nat (map of_char ''BOOT~1  JSO'') @ [0x20] @ replicate 14 0 @ [2, 0, 5, 0, 0, 0],
      long_name_entry (map of_char ''ramdisk'') 0x41 0,
      map word_of_nat (map of_char ''RAMDISK    '') @ [0x20] @ replicate 14 0 @ [3, 1, 7, 0, 1, 0]] =
   Ok (Some \<lparr>first_cluster = 0x103, file_size = 0x10007\<rparr>)"
proof -
  let ?r = "map of_char ''ramdisk'' :: nat list" and ?j = "map of_char ''boot.json'' :: nat list"
  let ?a = "map word_of_nat (map of_char ''BOOT~1  JSO'') @ [0x20] @ replicate 14 0 @ [2, 0, 5, 0, 0, 0] :: u8 list"
  let ?b = "map word_of_nat (map of_char ''RAMDISK    '') @ [0x20] @ replicate 14 0 @ [3, 1, 7, 0, 1, 0] :: u8 list"
  have a: "entry_parse ?a = Ok (Normal \<lparr>short_filename_main = map of_char ''BOOT~'', short_filename_extension = map of_char ''JSO'',
      n_attributes = 0x20, n_first_cluster = 2, n_file_size = 5\<rparr>)"
    by (simp add: entry_parse_def LONG_NAME_def slice_to_string_def slice_range_def ok_or_def le_field_def take_Cons' nth_append Let_def)
  have b: "entry_parse ?b = Ok (Normal \<lparr>short_filename_main = map of_char ''RAMDIS'', short_filename_extension = [],
      n_attributes = 0x20, n_first_cluster = 0x103, n_file_size = 0x10007\<rparr>)"
    by (simp add: entry_parse_def LONG_NAME_def slice_to_string_def slice_range_def ok_or_def le_field_def take_Cons' nth_append Let_def)
  obtain l where "entry_parse (long_name_entry ?j 0x41 0) = Ok (LongName l)" "long_name l = map Some ?j"
    by (rule long_name_entry_parse[of ?j]) auto
  with a have "\<forall>raw \<in> set [long_name_entry ?j 0x41 0, ?a].
      case entry_parse raw of Ok e \<Rightarrow> \<not> eq_name e ?r | Err _ \<Rightarrow> True | Panic _ \<Rightarrow> False" by simp
  from find_file_long_name[OF _ _ this b, where ord = "0x41" and chk = 0 and rest = "[]"] show ?thesis
    by (simp add: DIRECTORY_def)
qed

text \<open>C40. A short name that is padded with spaces is read without its last character: the second search
  starts behind the first character, but its result is added to the index of the first character.\<close>

theorem short_name_loses_last:
  assumes "xs \<noteq> []" and "\<forall>x \<in> set xs. x \<noteq> 0x20 \<and> x < 0x80"
  shows "slice_to_string (xs @ 0x20 # ys) = Ok (map unat (butlast xs))"
proof -
  obtain x zs where xs: "xs = x # zs" using assms(1) by (cases xs) auto
  have "position (\<lambda>c. c = 0x20) (zs @ 0x20 # ys) = Some (length zs)"
    using assms(2) by (auto simp: position_spec xs nth_append)
  moreover have "take (length zs) (x # zs @ 0x20 # ys) = butlast xs" by (simp add: xs butlast_conv_take take_Cons')
  moreover have "\<forall>b \<in> set (butlast xs). b < 0x80" using assms(2) by (auto dest: in_set_butlastD)
  then have "utf8_decode (map unat (butlast xs)) = Some (map unat (butlast xs))"
    by (intro utf8_decode_ascii) (auto simp: word_less_nat_alt)
  ultimately show ?thesis using assms(2) by (simp add: slice_to_string_def xs slice_range_def ok_or_def)
qed

theorem short_name_loses_last_witness:
  "slice_to_string (map word_of_nat (map of_char ''RAMDISK '')) = Ok (map of_char ''RAMDIS'')"
  using short_name_loses_last[of "map word_of_nat (map of_char ''RAMDISK'')" "[]"] by simp

end
