(* ===== verification/Load_File.thy ===== *)
theory Load_File
  imports Fat
begin

text \<open>
  Loading files in stage 2: \<open>try_load_file\<close> and \<open>load_file\<close> of
  \<^verbatim>\<open>src/bios/stage-2/src/main.rs\<close> and the copy to memory above 1 MiB of
  \<^verbatim>\<open>src/bios/stage-2/src/protected_mode.rs\<close>.  A cluster chain on the disk may be cyclic, so the
  loop over the clusters has fuel, and \<open>None\<close> means that it did not end; a chain of \<open>n\<close> clusters
  is loaded with any fuel above \<open>n\<close>.
\<close>

section \<open>Definitions\<close>

subsection \<open>Memory above 1 MiB\<close>

text \<open>Pointers have 32 bits and wrap; each byte is read back.\<close>

definition read_from_protected_mode :: "nat \<Rightarrow> memory \<Rightarrow> u8" where
  "read_from_protected_mode ptr mem = mem ptr"

definition copy_byte :: "nat \<Rightarrow> nat \<times> u8 \<Rightarrow> memory \<Rightarrow> memory res" where
  "copy_byte target = (\<lambda>(offset, byte) mem.
     let dst = (target + offset) mod 2 ^ 32;
         mem = mem(dst := byte)
     in bindR (assertR ''assertion failed: read_from_protected_mode(dst) == *byte''
          (read_from_protected_mode dst mem = byte)) (\<lambda>_. Ok mem))"

definition copy_to_protected_mode :: "nat \<Rightarrow> u8 list \<Rightarrow> memory \<Rightarrow> memory res" where
  "copy_to_protected_mode target bytes mem = foldR (copy_byte target) (enumerate 0 bytes) mem"

subsection \<open>Loading a cluster\<close>

definition DISK_BUFFER_LEN :: nat where "DISK_BUFFER_LEN = 0x4000"

definition disk_buffer :: "nat \<Rightarrow> aligned_buffer" where
  "disk_buffer addr = \<lparr>buffer_addr = addr, buffer_len = DISK_BUFFER_LEN\<rparr>"

text \<open>The inner loop of \<open>try_load_file\<close>; the result starts with the new \<open>total_offset\<close>.\<close>

function load_range ::
    "bios_read \<Rightarrow> nat \<Rightarrow> nat \<Rightarrow> nat \<Rightarrow> nat \<Rightarrow> nat \<Rightarrow> nat \<Rightarrow> disk_access \<times> memory \<Rightarrow>
     (nat \<times> disk_access \<times> memory) res" where
  "load_range B buf dst cluster_start cluster_end offset total_offset s =
     (let range_start = cluster_start + offset in
      if range_start \<ge> cluster_end then Ok (total_offset, s)
      else
        let range_end = min (range_start + DISK_BUFFER_LEN) cluster_end;
            len = range_end - range_start
        in
        bindR (read_exact_into B DISK_BUFFER_LEN (disk_buffer buf) (seek (SeekStart range_start) (fst s), snd s))
          (\<lambda>(d, mem).
        let sl = take len (buffer_slice (disk_buffer buf) mem);
            target = (dst + total_offset) mod 2 ^ 32
        in
        bindR (copy_to_protected_mode target sl mem) (\<lambda>mem.
        bindR (assertR ''assertion failed: slice[0] == written''
                 (sl ! 0 = read_from_protected_mode target mem)) (\<lambda>_.
        bindR (add_u32 total_offset len) (\<lambda>total_offset.
          load_range B buf dst cluster_start cluster_end (offset + len) total_offset (d, mem))))))"
  by auto

termination load_range
  by (relation "measure (\<lambda>(B, buf, dst, c, e, offset, t, s). e - (c + offset))")
    (auto simp: DISK_BUFFER_LEN_def)

declare load_range.simps [simp del]

subsection \<open>Loading a file\<close>

record file_system =
  fs_disk :: disk_access
  fs_bpb :: bpb

definition file_system_parse ::
    "bios_read \<Rightarrow> nat \<Rightarrow> disk_access \<Rightarrow> memory \<Rightarrow> (file_system \<times> memory) res" where
  "file_system_parse B tmp d mem =
     bindR (bpb_parse B tmp (d, mem)) (\<lambda>(b, d, mem). Ok (\<lparr>fs_disk = d, fs_bpb = b\<rparr>, mem))"

text \<open>
  The loop over the clusters.  The file system has its own copy of the disk access: \<open>fs_disk\<close>
  reads the table, \<open>d\<close> the contents.
\<close>

fun load_clusters ::
    "nat \<Rightarrow> bios_read \<Rightarrow> nat \<Rightarrow> nat \<Rightarrow> nat \<Rightarrow> nat \<Rightarrow> nat \<Rightarrow> file_system \<Rightarrow> disk_access \<Rightarrow> memory \<Rightarrow>
     (nat \<times> file_system \<times> disk_access \<times> memory) res option" where
  "load_clusters 0 B tmp buf dst entry total_offset fs d mem = None"
| "load_clusters (Suc fuel) B tmp buf dst entry total_offset fs d mem =
     (case next_cluster B tmp (fs_bpb fs) entry (fs_disk fs, mem) of
        Panic p \<Rightarrow> Some (Panic p)
      | Err e \<Rightarrow> Some (Panic (Explicit ''called `Result::unwrap()` on an `Err` value''))
      | Ok (None, entry, fd, mem) \<Rightarrow> Some (Ok (total_offset, fs\<lparr>fs_disk := fd\<rparr>, d, mem))
      | Ok (Some cluster, entry, fd, mem) \<Rightarrow>
          (case load_range B buf dst (start_offset cluster) (start_offset cluster + len_bytes cluster) 0
                  total_offset (d, mem) of
             Ok (total_offset, d, mem) \<Rightarrow>
               load_clusters fuel B tmp buf dst entry total_offset (fs\<lparr>fs_disk := fd\<rparr>) d mem
           | Err e \<Rightarrow> Some (Err e)
           | Panic p \<Rightarrow> Some (Panic p)))"

definition try_load_file ::
    "nat \<Rightarrow> bios_read \<Rightarrow> nat \<Rightarrow> nat \<Rightarrow> nat list \<Rightarrow> nat \<Rightarrow> file_system \<Rightarrow> disk_access \<Rightarrow> memory \<Rightarrow>
     (nat option \<times> file_system \<times> disk_access \<times> memory) res option" where
  "try_load_file fuel B tmp buf name dst fs d mem =
     (case find_file_in_root_dir B (fs_bpb fs) name (disk_buffer buf) (fs_disk fs, mem) of
        Panic p \<Rightarrow> Some (Panic p)
      | Err e \<Rightarrow> Some (Err e)
      | Ok (None, fd, mem) \<Rightarrow> Some (Ok (None, fs\<lparr>fs_disk := fd\<rparr>, d, mem))
      | Ok (Some f, fd, mem) \<Rightarrow>
          map_option (\<lambda>r. bindR r (\<lambda>(_, fs, d, mem). Ok (Some (file_size f), fs, d, mem)))
            (load_clusters fuel B tmp buf dst (first_cluster f) 0 (fs\<lparr>fs_disk := fd\<rparr>) d mem))"

definition load_file ::
    "nat \<Rightarrow> bios_read \<Rightarrow> nat \<Rightarrow> nat \<Rightarrow> nat list \<Rightarrow> nat \<Rightarrow> file_system \<Rightarrow> disk_access \<Rightarrow> memory \<Rightarrow>
     (nat \<times> file_system \<times> disk_access \<times> memory) res option" where
  "load_file fuel B tmp buf name dst fs d mem =
     map_option (\<lambda>r. bindR r (\<lambda>(len, fs, d, mem).
         bindR (expect_some ''file not found'' len) (\<lambda>len. Ok (len, fs, d, mem))))
       (try_load_file fuel B tmp buf name dst fs d mem)"

subsection \<open>Specification vocabulary\<close>

text \<open>Memory above 1 MiB has changed exactly to the bytes \<open>bs\<close> at \<open>a\<close>.\<close>

definition loaded_at :: "memory \<Rightarrow> nat \<Rightarrow> u8 list \<Rightarrow> memory \<Rightarrow> bool" where
  "loaded_at mem a bs mem' \<longleftrightarrow> (\<forall>x \<ge> 2 ^ 20. mem' x = write_slice mem a bs x)"

text \<open>The contents of the clusters \<open>cs\<close>, with cluster 2 at \<open>data\<close> of the disk.\<close>

definition cluster_bytes :: "memory \<Rightarrow> nat \<Rightarrow> nat \<Rightarrow> nat list \<Rightarrow> u8 list" where
  "cluster_bytes img data len cs = concat (map (\<lambda>c. read_bytes img (data + (c - 2) * len) len) cs)"

section \<open>Lemmas\<close>

lemma loaded_at_refl [simp]: "loaded_at mem a [] mem"
  by (simp add: loaded_at_def)

lemma loaded_at_trans:
  "loaded_at mem a xs mem1 \<Longrightarrow> loaded_at mem1 (a + length xs) ys mem2 \<Longrightarrow> loaded_at mem a (xs @ ys) mem2"
  by (simp add: loaded_at_def write_slice_append) (simp add: write_slice_apply)

lemma length_cluster_bytes [simp]: "length (cluster_bytes img data len cs) = length cs * len"
  by (induction cs) (simp_all add: cluster_bytes_def)

lemma copy_bytes_from:
  assumes "target + k + length bytes \<le> 2 ^ 32"
  shows "foldR (copy_byte target) (enumerate k bytes) mem = Ok (write_slice mem (target + k) bytes)"
  using assms
proof (induction bytes arbitrary: k mem)
  case (Cons b bs)
  have "copy_byte target (k, b) mem = Ok (write_slice mem (target + k) [b])"
    using Cons.prems by (simp add: copy_byte_def read_from_protected_mode_def Let_def write_slice_def fun_eq_iff)
  then show ?case
    using Cons.IH[of "Suc k"] Cons.prems write_slice_append[of mem "target + k" "[b]" bs] by simp
qed simp

lemma copy_to_protected_mode_ok:
  "target + length bytes \<le> 2 ^ 32 \<Longrightarrow> copy_to_protected_mode target bytes mem = Ok (write_slice mem target bytes)"
  using copy_bytes_from[of target 0] by (simp add: copy_to_protected_mode_def)

context disk_bios
begin

text \<open>One round of the inner loop: a buffer of disk contents, of which \<open>len\<close> bytes are copied.\<close>

lemma load_chunk:
  assumes al: "512 dvd r" "512 dvd base_offset d" and d: "disk_number d = disk"
    and room: "base_offset d + r + DISK_BUFFER_LEN \<le> nsec * 512" "nsec < 2 ^ 55" "buf + DISK_BUFFER_LEN + 512 \<le> 2 ^ 20"
    and len: "len \<le> DISK_BUFFER_LEN"
  obtains d' mem1 where
    "read_exact_into B DISK_BUFFER_LEN (disk_buffer buf) (seek (SeekStart r) d, mem) = Ok (d', mem1)"
    and "disk_number d' = disk" and "base_offset d' = base_offset d"
    and "take len (buffer_slice (disk_buffer buf) mem1) = read_bytes img (base_offset d + r) len"
    and "\<And>x. 2 ^ 20 \<le> x \<Longrightarrow> mem1 x = mem x"
proof -
  obtain d' mem1 where r: "read_exact_into B DISK_BUFFER_LEN (disk_buffer buf) (seek (SeekStart r) d, mem) = Ok (d', mem1)"
    using read_exact_into_total[of DISK_BUFFER_LEN "disk_buffer buf" "seek (SeekStart r) d" mem] room d
    by (auto simp: disk_buffer_def DISK_BUFFER_LEN_def)
  note sp = read_exact_into_spec[OF r]
  have "(base_offset d + r) mod 512 = 0" using al by simp
  then have m: "mem1 = write_slice mem buf (read_bytes img (base_offset d + r) DISK_BUFFER_LEN)"
    using sp(5) d al by (simp add: disk_buffer_def)
  show thesis
  proof (rule that[OF r])
    show "disk_number d' = disk" "base_offset d' = base_offset d" using sp(1,2) d by simp_all
    show "take len (buffer_slice (disk_buffer buf) mem1) = read_bytes img (base_offset d + r) len"
      using len read_write_slice[of mem buf "read_bytes img (base_offset d + r) DISK_BUFFER_LEN"]
      by (simp add: m buffer_slice_def disk_buffer_def min_absorb1)
    show "mem1 x = mem x" if "2 ^ 20 \<le> x" for x using that room(3) by (simp add: m write_slice_apply)
  qed
qed

lemma load_range_round:
  assumes lt: "c + offset < e" and al: "512 dvd c + offset" "512 dvd e" "512 dvd base_offset d"
    and d: "disk_number d = disk"
    and room: "base_offset d + e + DISK_BUFFER_LEN \<le> nsec * 512" "nsec < 2 ^ 55" "buf + DISK_BUFFER_LEN + 512 \<le> 2 ^ 20"
    and dst: "2 ^ 20 \<le> dst" "dst + total_offset + (e - (c + offset)) \<le> 2 ^ 32"
  obtains len d' mem' where "0 < len" and "c + offset + len \<le> e" and "512 dvd len"
    and "load_range B buf dst c e offset total_offset (d, mem) =
      load_range B buf dst c e (offset + len) (total_offset + len) (d', mem')"
    and "disk_number d' = disk" and "base_offset d' = base_offset d"
    and "loaded_at mem (dst + total_offset) (read_bytes img (base_offset d + (c + offset)) len) mem'"
proof -
  define r where "r = c + offset"
  define len where "len = min (r + DISK_BUFFER_LEN) e - r"
  have len: "0 < len" "len \<le> DISK_BUFFER_LEN" "r + len \<le> e" "512 dvd len"
    using lt al by (auto simp: len_def r_def min_def DISK_BUFFER_LEN_def dvd_diff_nat)
  have "512 dvd r" and fits: "base_offset d + r + DISK_BUFFER_LEN \<le> nsec * 512" using al room(1) lt by (simp_all add: r_def)
  obtain d' mem1 where rd: "read_exact_into B DISK_BUFFER_LEN (disk_buffer buf) (seek (SeekStart r) d, mem) = Ok (d', mem1)"
    and d': "disk_number d' = disk" "base_offset d' = base_offset d"
    and sl: "take len (buffer_slice (disk_buffer buf) mem1) = read_bytes img (base_offset d + r) len"
    and same: "\<And>x. 2 ^ 20 \<le> x \<Longrightarrow> mem1 x = mem x"
    by (rule load_chunk[OF \<open>512 dvd r\<close> al(3) d fits room(2,3) len(2)]) (rule that)
  let ?t = "dst + total_offset" and ?bs = "read_bytes img (base_offset d + r) len"
  have "0 < dst" using dst(1) by simp
  then have fit: "?t + len \<le> 2 ^ 32" "?t < 2 ^ 32" "total_offset + len < 2 ^ 32"
    using len(1,3) dst(2) unfolding r_def by linarith+
  define mem2 where "mem2 = write_slice mem1 ?t ?bs"
  have cp: "copy_to_protected_mode ?t ?bs mem1 = Ok mem2"
    using copy_to_protected_mode_ok[of ?t ?bs mem1] fit(1) by (simp add: mem2_def)
  have first: "?bs ! 0 = read_from_protected_mode ?t mem2"
    using len(1) by (simp add: mem2_def read_from_protected_mode_def write_slice_apply)
  have "load_range B buf dst c e offset total_offset (d, mem) =
      load_range B buf dst c e (offset + len) (total_offset + len) (d', mem2)"
    using lt rd cp first sl fit by (subst load_range.simps)
      (simp add: r_def[symmetric] len_def[symmetric] Let_def add_w_def)
  moreover have "loaded_at mem ?t ?bs mem2" using same by (simp add: loaded_at_def mem2_def write_slice_apply)
  ultimately show thesis using that len d' by (simp add: r_def)
qed

lemma load_range_spec:
  assumes "c + offset \<le> e" and "512 dvd c + offset" and "512 dvd e" and "512 dvd base_offset d" and "disk_number d = disk"
    and "base_offset d + e + DISK_BUFFER_LEN \<le> nsec * 512" and "nsec < 2 ^ 55"
    and "buf + DISK_BUFFER_LEN + 512 \<le> 2 ^ 20" and "2 ^ 20 \<le> dst" and "dst + total_offset + (e - (c + offset)) \<le> 2 ^ 32"
  shows "\<exists>d' mem'. load_range B buf dst c e offset total_offset (d, mem) = Ok (total_offset + (e - (c + offset)), d', mem') \<and>
    disk_number d' = disk \<and> base_offset d' = base_offset d \<and>
    loaded_at mem (dst + total_offset) (read_bytes img (base_offset d + (c + offset)) (e - (c + offset))) mem'"
  using assms
proof (induction "e - (c + offset)" arbitrary: offset total_offset d mem rule: less_induct)
  case less
  show ?case
  proof (cases "c + offset < e")
    case False
    then have "e = c + offset" using less.prems(1) by simp
    then show ?thesis using less.prems(5) by (subst load_range.simps) simp
  next
    case True
    note pre = less.prems(2-10)
    obtain len d1 mem1 where len: "0 < len" "c + offset + len \<le> e" "512 dvd len"
      and go: "load_range B buf dst c e offset total_offset (d, mem) =
        load_range B buf dst c e (offset + len) (total_offset + len) (d1, mem1)"
      and d1: "disk_number d1 = disk" "base_offset d1 = base_offset d"
      and at: "loaded_at mem (dst + total_offset) (read_bytes img (base_offset d + (c + offset)) len) mem1"
      by (rule load_range_round[OF True pre, where mem = mem]) (rule that)
    define n where "n = e - (c + (offset + len))"
    have n: "e - (c + offset) = len + n" using len(2) by (simp add: n_def)
    have "\<exists>d' mem'. load_range B buf dst c e (offset + len) (total_offset + len) (d1, mem1) =
          Ok (total_offset + len + n, d', mem') \<and> disk_number d' = disk \<and> base_offset d' = base_offset d1 \<and>
        loaded_at mem1 (dst + (total_offset + len)) (read_bytes img (base_offset d1 + (c + (offset + len))) n) mem'"
      unfolding n_def
    proof (rule less.hyps)
      show "512 dvd c + (offset + len)" using pre(1) len(3) by (metis add.assoc dvd_add)
      show "dst + (total_offset + len) + (e - (c + (offset + len))) \<le> 2 ^ 32" using pre(9) n unfolding n_def by linarith
    qed (use pre d1 len in simp_all)
    then show ?thesis
      using go d1(2) loaded_at_trans[OF at] by (auto simp: n read_bytes_add add.assoc)
  qed
qed

end

text \<open>
  What the loader needs of the medium and of memory for the clusters \<open>cs\<close>: table and contents on
  the disk of \<open>nsec\<close> sectors, with a whole buffer readable after each cluster; sizes in whole
  sectors; the buffers below 1 MiB.
\<close>

definition chain_room :: "nat \<Rightarrow> nat \<Rightarrow> nat \<Rightarrow> nat \<Rightarrow> bpb \<Rightarrow> nat \<Rightarrow> nat list \<Rightarrow> bool" where
  "chain_room nsec tmp buf base b data cs \<longleftrightarrow>
     512 dvd base \<and> 512 dvd data \<and> 512 dvd bytes_per_cluster b \<and> nsec < 2 ^ 55 \<and>
     tmp + 1536 \<le> 2 ^ 20 \<and> buf + DISK_BUFFER_LEN + 512 \<le> 2 ^ 20 \<and>
     (\<forall>c \<in> set cs. base + fat_offset b + 4 * c + 1024 \<le> nsec * 512 \<and>
        base + (data + (c - 2) * bytes_per_cluster b + bytes_per_cluster b) + DISK_BUFFER_LEN \<le> nsec * 512)"

text \<open>The parameter block in use, and where the two disk accesses point.\<close>

definition fs_at :: "nat \<Rightarrow> nat \<Rightarrow> bpb \<Rightarrow> file_system \<Rightarrow> disk_access \<Rightarrow> bool" where
  "fs_at disk base b fs d \<longleftrightarrow> fs_bpb fs = b \<and> disk_number (fs_disk fs) = disk \<and> base_offset (fs_disk fs) = base \<and>
     disk_number d = disk \<and> base_offset d = base"

context disk_bios
begin

lemma load_clusters_spec:
  assumes "cluster_chain ft mx (disk_entry img ft (base + fat_offset b)) e cs"
    and b: "bpb_fat_type b = Ok ft" "maximum_valid_cluster b = Ok mx" "data_offset b = Ok data"
    and "fs_at disk base b fs d" and "chain_room nsec tmp buf base b data cs"
    and dst: "2 ^ 20 \<le> dst" and "dst + total_offset + length cs * bytes_per_cluster b \<le> 2 ^ 32" and "length cs < fuel"
  shows "\<exists>fs' d' mem'. load_clusters fuel B tmp buf dst e total_offset fs d mem =
      Some (Ok (total_offset + length cs * bytes_per_cluster b, fs', d', mem')) \<and> fs_at disk base b fs' d' \<and>
    loaded_at mem (dst + total_offset) (cluster_bytes img (base + data) (bytes_per_cluster b) cs) mem'"
  using assms(1,5,6,8,9)
proof (induction arbitrary: total_offset fs d mem fuel rule: cluster_chain.induct)
  case (chain_end e)
  from chain_end.prems(4) obtain n where "fuel = Suc n" by (cases fuel) auto
  with chain_end b show ?case by (auto simp: next_cluster_def fs_at_def cluster_bytes_def)
next
  case (chain_step e c cs)
  let ?n = "bytes_per_cluster b"
  from chain_step.prems(4) obtain n where n: "fuel = Suc n" "length cs < n" by (cases fuel) auto
  have fs: "fs_bpb fs = b" "disk_number (fs_disk fs) = disk" "base_offset (fs_disk fs) = base"
    and d: "disk_number d = disk" "base_offset d = base" using chain_step.prems(1) by (simp_all add: fs_at_def)
  have room: "512 dvd base" "512 dvd data" "512 dvd ?n" "nsec < 2 ^ 55" "tmp + 1536 \<le> 2 ^ 20"
    "buf + DISK_BUFFER_LEN + 512 \<le> 2 ^ 20" "base + fat_offset b + 4 * c + 1024 \<le> nsec * 512"
    "base + (data + (c - 2) * ?n + ?n) + DISK_BUFFER_LEN \<le> nsec * 512" and more: "chain_room nsec tmp buf base b data cs"
    using chain_step.prems(2) by (simp_all add: chain_room_def)
  obtain fd mem1 where nx: "next_cluster B tmp b e (fs_disk fs, mem) =
      Ok (Some \<lparr>cluster_index = e, start_offset = data + (c - 2) * ?n, len_bytes = ?n\<rparr>,
        disk_entry img ft (base + fat_offset b) c, fd, mem1)"
    and fd: "disk_number fd = disk" "base_offset fd = base"
    and same: "\<And>a. a < tmp \<or> tmp + 1536 \<le> a \<Longrightarrow> mem1 a = mem a"
    using next_cluster_step[OF chain_step.hyps(1) b fs(2)] fs(3) room(1,4,5,7) by metis
  let ?c = "data + (c - 2) * ?n"
  have "\<exists>d1 mem2. load_range B buf dst ?c (?c + ?n) 0 total_offset (d, mem1) = Ok (total_offset + (?c + ?n - (?c + 0)), d1, mem2) \<and>
      disk_number d1 = disk \<and> base_offset d1 = base_offset d \<and>
      loaded_at mem1 (dst + total_offset) (read_bytes img (base_offset d + (?c + 0)) (?c + ?n - (?c + 0))) mem2"
    by (rule load_range_spec) (use room d dst chain_step.prems(3) in auto)
  then obtain d1 mem2 where lr: "load_range B buf dst ?c (?c + ?n) 0 total_offset (d, mem1) = Ok (total_offset + ?n, d1, mem2)"
    and d1: "disk_number d1 = disk" "base_offset d1 = base"
    and at: "loaded_at mem1 (dst + total_offset) (read_bytes img (base + ?c) ?n) mem2" using d(2) by auto
  have "fs_at disk base b (fs\<lparr>fs_disk := fd\<rparr>) d1" using fs(1) fd d1 by (simp add: fs_at_def)
  from chain_step.IH[OF this more _ n(2), of "total_offset + ?n" mem2] chain_step.prems(3)
  obtain fs' d' mem' where rest: "load_clusters n B tmp buf dst (disk_entry img ft (base + fat_offset b) c) (total_offset + ?n)
        (fs\<lparr>fs_disk := fd\<rparr>) d1 mem2 = Some (Ok (total_offset + ?n + length cs * ?n, fs', d', mem'))"
    and fs': "fs_at disk base b fs' d'"
    and l: "loaded_at mem2 (dst + (total_offset + ?n)) (cluster_bytes img (base + data) ?n cs) mem'" by (auto simp: algebra_simps)
  have "loaded_at mem (dst + total_offset) (read_bytes img (base + ?c) ?n) mem2"
    using at same room(5) by (simp add: loaded_at_def write_slice_apply)
  from loaded_at_trans[OF this] l have "loaded_at mem (dst + total_offset) (cluster_bytes img (base + data) ?n (c # cs)) mem'"
    by (simp add: cluster_bytes_def add.assoc)
  then show ?case using n(1) fs(1) nx lr rest fs' by (simp add: add.assoc)
qed

text \<open>A root directory of 512 entries fills the buffer.\<close>

lemma find_file_spec:
  assumes b: "bpb_fat_type b = Ok ft" "ft \<noteq> Fat32" "root_directory_size b = Ok DISK_BUFFER_LEN"
    and fd: "disk_number fd = disk" "base_offset fd = base" and al: "512 dvd base" "512 dvd root_directory_offset b"
    and room: "base + root_directory_offset b + DISK_BUFFER_LEN \<le> nsec * 512" "nsec < 2 ^ 55" "buf + DISK_BUFFER_LEN + 512 \<le> 2 ^ 20"
  obtains fd' mem' where
    "find_file_in_root_dir B b name (disk_buffer buf) (fd, mem) =
      bindR (find_file_in_entries name (dir_entries (read_bytes img (base + root_directory_offset b) DISK_BUFFER_LEN)))
        (\<lambda>f. Ok (f, fd', mem'))"
    and "disk_number fd' = disk" and "base_offset fd' = base" and "\<And>x. 2 ^ 20 \<le> x \<Longrightarrow> mem' x = mem x"
proof -
  have al': "512 dvd base_offset fd" and room': "base_offset fd + root_directory_offset b + DISK_BUFFER_LEN \<le> nsec * 512"
    using al room(1) by (simp_all add: fd(2))
  obtain fd' mem' where r: "read_exact_into B DISK_BUFFER_LEN (disk_buffer buf)
      (seek (SeekStart (root_directory_offset b)) fd, mem) = Ok (fd', mem')"
    and fd': "disk_number fd' = disk" "base_offset fd' = base_offset fd"
    and sl: "take DISK_BUFFER_LEN (buffer_slice (disk_buffer buf) mem') =
      read_bytes img (base_offset fd + root_directory_offset b) DISK_BUFFER_LEN"
    and same: "\<And>x. 2 ^ 20 \<le> x \<Longrightarrow> mem' x = mem x"
    by (rule load_chunk[OF al(2) al' fd(1) room' room(2,3) order_refl, where mem = mem]) (rule that)
  have "buffer_slice (disk_buffer buf) mem' = read_bytes img (base + root_directory_offset b) DISK_BUFFER_LEN"
    using sl by (simp add: buffer_slice_def disk_buffer_def fd(2))
  then have "find_file_in_root_dir B b name (disk_buffer buf) (fd, mem) =
      bindR (find_file_in_entries name (dir_entries (read_bytes img (base + root_directory_offset b) DISK_BUFFER_LEN)))
        (\<lambda>f. Ok (f, fd', mem'))"
    using r b by (simp add: find_file_in_root_dir_def read_root_dir_def)
  then show thesis using that fd' fd(2) same by simp
qed

end

text \<open>The two searches put together.\<close>

lemma try_load_file_spec:
  assumes bios: "disk_bios B disk img nsec"
    and b: "bpb_fat_type b = Ok ft" "ft \<noteq> Fat32" "maximum_valid_cluster b = Ok mx" "data_offset b = Ok data"
      "root_directory_size b = Ok DISK_BUFFER_LEN" "512 dvd root_directory_offset b"
    and found: "find_file_in_entries name (dir_entries (read_bytes img (base + root_directory_offset b) DISK_BUFFER_LEN)) = Ok (Some f)"
    and chain: "cluster_chain ft mx (disk_entry img ft (base + fat_offset b)) (first_cluster f) cs"
    and fs: "fs_at disk base b fs d" and room: "chain_room nsec tmp buf base b data cs"
      "base + root_directory_offset b + DISK_BUFFER_LEN \<le> nsec * 512"
    and dst: "2 ^ 20 \<le> dst" "dst + length cs * bytes_per_cluster b \<le> 2 ^ 32" and fuel: "length cs < fuel"
  shows "\<exists>fs' d' mem'. try_load_file fuel B tmp buf name dst fs d mem = Some (Ok (Some (file_size f), fs', d', mem')) \<and>
    fs_at disk base b fs' d' \<and> loaded_at mem dst (cluster_bytes img (base + data) (bytes_per_cluster b) cs) mem'"
proof -
  have f: "fs_bpb fs = b" "disk_number (fs_disk fs) = disk" "base_offset (fs_disk fs) = base" using fs by (simp_all add: fs_at_def)
  have r: "512 dvd base" "nsec < 2 ^ 55" "buf + DISK_BUFFER_LEN + 512 \<le> 2 ^ 20" using room(1) by (simp_all add: chain_room_def)
  obtain fd mem1 where ff: "find_file_in_root_dir B b name (disk_buffer buf) (fs_disk fs, mem) = Ok (Some f, fd, mem1)"
    and fd: "disk_number fd = disk" "base_offset fd = base" and same: "\<And>x. 2 ^ 20 \<le> x \<Longrightarrow> mem1 x = mem x"
    by (rule disk_bios.find_file_spec[OF bios b(1,2,5) f(2,3) r(1) b(6) room(2) r(2,3), of name mem]) (use found that in simp)
  have at: "fs_at disk base b (fs\<lparr>fs_disk := fd\<rparr>) d" using fs fd by (simp add: fs_at_def)
  have "dst + 0 + length cs * bytes_per_cluster b \<le> 2 ^ 32" using dst(2) by simp
  from disk_bios.load_clusters_spec[OF bios chain b(1,3,4) at room(1) dst(1) this fuel, of mem1]
  obtain fs' d' mem' where "load_clusters fuel B tmp buf dst (first_cluster f) 0 (fs\<lparr>fs_disk := fd\<rparr>) d mem1 =
      Some (Ok (length cs * bytes_per_cluster b, fs', d', mem'))" "fs_at disk base b fs' d'"
    "loaded_at mem1 dst (cluster_bytes img (base + data) (bytes_per_cluster b) cs) mem'" by auto
  moreover from this(3) same have "loaded_at mem dst (cluster_bytes img (base + data) (bytes_per_cluster b) cs) mem'"
    by (simp add: loaded_at_def write_slice_apply)
  ultimately show ?thesis using ff f(1) by (simp add: try_load_file_def)
qed

lemma try_load_file_absent:
  assumes bios: "disk_bios B disk img nsec"
    and b: "bpb_fat_type b = Ok ft" "ft \<noteq> Fat32" "root_directory_size b = Ok DISK_BUFFER_LEN" "512 dvd root_directory_offset b"
    and absent: "find_file_in_entries name (dir_entries (read_bytes img (base + root_directory_offset b) DISK_BUFFER_LEN)) = Ok None"
    and fs: "fs_at disk base b fs d" and base: "512 dvd base"
    and room: "base + root_directory_offset b + DISK_BUFFER_LEN \<le> nsec * 512" "nsec < 2 ^ 55" "buf + DISK_BUFFER_LEN + 512 \<le> 2 ^ 20"
  shows "\<exists>fs' mem'. try_load_file fuel B tmp buf name dst fs d mem = Some (Ok (None, fs', d, mem')) \<and>
    fs_at disk base b fs' d \<and> loaded_at mem dst [] mem'"
proof -
  have f: "fs_bpb fs = b" "disk_number (fs_disk fs) = disk" "base_offset (fs_disk fs) = base" using fs by (simp_all add: fs_at_def)
  obtain fd mem1 where ff: "find_file_in_root_dir B b name (disk_buffer buf) (fs_disk fs, mem) = Ok (None, fd, mem1)"
    and fd: "disk_number fd = disk" "base_offset fd = base" and same: "\<And>x. 2 ^ 20 \<le> x \<Longrightarrow> mem1 x = mem x"
    by (rule disk_bios.find_file_spec[OF bios b(1,2,3) f(2,3) base b(4) room, of name mem]) (use absent that in simp)
  moreover have "fs_at disk base b (fs\<lparr>fs_disk := fd\<rparr>) d" using fs fd by (simp add: fs_at_def)
  ultimately show ?thesis using f(1) by (auto simp: try_load_file_def loaded_at_def)
qed

section \<open>Properties\<close>

text \<open>C11. Loading a file puts the contents of its clusters into memory, in the order of the chain: when
  the root directory names the file and the table links its clusters up to an end mark, loading
  returns the file's size, the bytes of the clusters follow each other from the destination on, and
  no other byte above 1 MiB changes.  Any fuel above the number of clusters is enough.\<close>

theorem file_loaded:
  assumes bios: "disk_bios B disk img nsec"
    and b: "bpb_fat_type b = Ok ft" "ft \<noteq> Fat32" "maximum_valid_cluster b = Ok mx" "data_offset b = Ok data"
      "root_directory_size b = Ok DISK_BUFFER_LEN" "512 dvd root_directory_offset b"
    and found: "find_file_in_entries name (dir_entries (read_bytes img (base + root_directory_offset b) DISK_BUFFER_LEN)) = Ok (Some f)"
    and chain: "cluster_chain ft mx (disk_entry img ft (base + fat_offset b)) (first_cluster f) cs"
    and fs: "fs_at disk base b fs d" and room: "chain_room nsec tmp buf base b data cs"
      "base + root_directory_offset b + DISK_BUFFER_LEN \<le> nsec * 512"
    and dst: "2 ^ 20 \<le> dst" "dst + length cs * bytes_per_cluster b \<le> 2 ^ 32" and fuel: "length cs < fuel"
  shows "\<exists>fs' d' mem'. try_load_file fuel B tmp buf name dst fs d mem = Some (Ok (Some (file_size f), fs', d', mem')) \<and>
    fs_at disk base b fs' d' \<and> loaded_at mem dst (cluster_bytes img (base + data) (bytes_per_cluster b) cs) mem'"
  by (rule try_load_file_spec[OF bios b found chain fs room dst fuel])

text \<open>A small disk with one file of two clusters.\<close>

definition example_bpb :: bpb where
  "example_bpb = \<lparr>bytes_per_sector = 512, sectors_per_cluster = 1, reserved_sector_count = 1, num_fats = 1,
     root_entry_count = 512, total_sectors_16 = 100, fat_size_16 = 1, total_sectors_32 = 0, fat_size_32 = 0, root_cluster = 0\<rparr>"

definition example_dir :: "u8 list" where
  "example_dir = long_name_entry (map of_char ''ramdisk'') 0x41 0 @
     map word_of_nat (map of_char ''RAMDISK    '') @ [0x20] @ replicate 14 0 @ [2, 0, 0xBC, 2, 0, 0]"

definition example_disk :: memory where
  "example_disk a =
     (if 512 \<le> a \<and> a < 518 then [0xF8, 0xFF, 0xFF, 0x03, 0xF0, 0xFF] ! (a - 512)
      else if 1024 \<le> a \<and> a < 1088 then example_dir ! (a - 1024)
      else if a < 17408 then 0 else word_of_nat (a mod 251))"

definition example_fs :: file_system where
  "example_fs = \<lparr>fs_disk = \<lparr>disk_number = 0x80, base_offset = 0, current_offset = 0\<rparr>, fs_bpb = example_bpb\<rparr>"

lemma example_bpb_values:
  "bpb_fat_type example_bpb = Ok Fat12" "maximum_valid_cluster example_bpb = Ok 67" "data_offset example_bpb = Ok 17408"
  "root_directory_size example_bpb = Ok DISK_BUFFER_LEN" "root_directory_offset example_bpb = 1024"
  "fat_offset example_bpb = 512" "bytes_per_cluster example_bpb = 512"
  by (simp_all add: example_bpb_def bpb_fat_type_def count_of_clusters_def fat_size_in_sectors_def maximum_valid_cluster_def
      data_offset_def root_directory_size_def root_directory_offset_def fat_offset_def bytes_per_cluster_def fat_type_of_def
      mul_w_def add_w_def sub_w_def div_w_def DIRECTORY_ENTRY_BYTES_def DISK_BUFFER_LEN_def)

lemma example_dir_read:
  "read_bytes example_disk 1024 DISK_BUFFER_LEN =
     long_name_entry (map of_char ''ramdisk'') 0x41 0 @
     (map word_of_nat (map of_char ''RAMDISK    '') @ [0x20] @ replicate 14 0 @ [2, 0, 0xBC, 2, 0, 0]) @
     read_bytes example_disk 1088 16320"
proof -
  have "length example_dir = 64" by (simp add: example_dir_def long_name_entry_def long_name_units_def Let_def length_concat sum_list_replicate)
  then have "read_bytes example_disk 1024 64 = example_dir"
    by (intro nth_equalityI) (simp_all add: read_bytes_def example_disk_def)
  then show ?thesis using read_bytes_add[of example_disk 1024 64 16320]
    by (simp add: example_dir_def DISK_BUFFER_LEN_def)
qed

lemma example_file:
  "find_file_in_entries (map of_char ''ramdisk'') (dir_entries (read_bytes example_disk 1024 DISK_BUFFER_LEN)) =
     Ok (Some \<lparr>first_cluster = 2, file_size = 700\<rparr>)"
proof -
  let ?l = "long_name_entry (map of_char ''ramdisk'') 0x41 0"
  let ?s = "map word_of_nat (map of_char ''RAMDISK    '') @ [0x20] @ replicate 14 0 @ [2, 0, 0xBC, 2, 0, 0] :: u8 list"
  have s: "entry_parse ?s = Ok (Normal \<lparr>short_filename_main = map of_char ''RAMDIS'', short_filename_extension = [],
      n_attributes = 0x20, n_first_cluster = 2, n_file_size = 700\<rparr>)"
    by (simp add: entry_parse_def LONG_NAME_def slice_to_string_def slice_range_def ok_or_def le_field_def take_Cons' nth_append Let_def)
  obtain l where l: "entry_parse ?l = Ok (LongName l)" "long_name l = map Some (map of_char ''ramdisk'')"
    by (rule long_name_entry_parse[of "map of_char ''ramdisk''"]) auto
  have len: "length ?l = 32" "length ?s = 32"
    by (simp_all add: long_name_entry_def long_name_units_def Let_def length_concat sum_list_replicate)
  have hd: "?l ! 0 = 0x41" "?s ! 0 = 0x52" by (simp_all add: long_name_entry_def Let_def)
  have z: "takeWhile (\<lambda>raw. raw ! 0 \<noteq> 0) (chunks 32 (read_bytes example_disk 1088 16320)) = []"
    by (subst chunks.simps) (simp add: example_disk_def read_bytes_def)
  have "dir_entries (read_bytes example_disk 1024 DISK_BUFFER_LEN) = [?l, ?s]"
    using z hd unfolding example_dir_read dir_entries_def DIRECTORY_ENTRY_BYTES_def END_OF_DIRECTORY_PREFIX_def UNUSED_ENTRY_PREFIX_def
    by (simp only: chunks_append[OF len(1)] chunks_append[OF len(2)] takeWhile.simps filter.simps) simp
  then show ?thesis using l s by (simp only: find_file_in_entries_def) (simp add: DIRECTORY_def)
qed

lemma example_chain: "cluster_chain Fat12 67 (disk_entry example_disk Fat12 512) 2 [2, 3]"
proof (intro chain_step chain_end)
  have "disk_entry example_disk Fat12 512 2 = 3" "disk_entry example_disk Fat12 512 3 = 0xFFF"
    by (simp_all add: disk_entry_def example_disk_def read_bytes_def upt_conv_Cons)
  then show "classify_fat_entry Fat12 (disk_entry example_disk Fat12 512 2) 67 = Inr (AllocatedCluster 3)"
    and "classify_fat_entry Fat12 (disk_entry example_disk Fat12 512 3) 67 = Inr EndOfFile"
    by (simp_all add: classify_fat_entry_def)
qed (simp add: classify_fat_entry_def)

theorem file_loaded_witness:
  "\<exists>fs' d' mem'. try_load_file 3 (image_bios 0x80 example_disk 100) 0x7000 0x8000 (map of_char ''ramdisk'') 0x100000
       example_fs (fs_disk example_fs) (\<lambda>_. 0) = Some (Ok (Some 700, fs', d', mem')) \<and>
     mem' 0x100000 = example_disk 17408 \<and> mem' 0x1002BB = example_disk 18107 \<and> mem' 0x100400 = 0"
proof -
  have bios: "disk_bios (image_bios 0x80 example_disk 100) 0x80 example_disk 100" by (rule disk_img.disk_bios_axioms)
  have fs: "fs_at 0x80 0 example_bpb example_fs (fs_disk example_fs)" by (simp add: fs_at_def example_fs_def)
  have room: "chain_room 100 0x7000 0x8000 0 example_bpb 17408 [2, 3]"
    by (simp add: chain_room_def example_bpb_values DISK_BUFFER_LEN_def)
  have found: "find_file_in_entries (map of_char ''ramdisk'')
      (dir_entries (read_bytes example_disk (0 + root_directory_offset example_bpb) DISK_BUFFER_LEN)) =
      Ok (Some \<lparr>first_cluster = 2, file_size = 700\<rparr>)" using example_file by (simp only: example_bpb_values add_0)
  have chain: "cluster_chain Fat12 67 (disk_entry example_disk Fat12 (0 + fat_offset example_bpb))
      (first_cluster \<lparr>first_cluster = 2, file_size = 700\<rparr>) [2, 3]" using example_chain by (simp add: example_bpb_values)
  have "\<exists>fs' d' mem'. try_load_file 3 (image_bios 0x80 example_disk 100) 0x7000 0x8000 (map of_char ''ramdisk'') 0x100000
      example_fs (fs_disk example_fs) (\<lambda>_. 0) = Some (Ok (Some (file_size \<lparr>first_cluster = 2, file_size = 700\<rparr>), fs', d', mem')) \<and>
      fs_at 0x80 0 example_bpb fs' d' \<and>
      loaded_at (\<lambda>_. 0) 0x100000 (cluster_bytes example_disk (0 + 17408) (bytes_per_cluster example_bpb) [2, 3]) mem'"
    by (rule file_loaded[OF bios example_bpb_values(1) _ example_bpb_values(2-4) _ found chain fs room])
      (simp_all add: example_bpb_values DISK_BUFFER_LEN_def)
  then obtain fs' d' mem' where "try_load_file 3 (image_bios 0x80 example_disk 100) 0x7000 0x8000 (map of_char ''ramdisk'') 0x100000
      example_fs (fs_disk example_fs) (\<lambda>_. 0) = Some (Ok (Some 700, fs', d', mem'))"
    and at: "loaded_at (\<lambda>_. 0) 0x100000 (read_bytes example_disk 17408 512 @ read_bytes example_disk 17920 512) mem'"
    by (auto simp: example_bpb_values cluster_bytes_def)
  moreover have "mem' 0x100000 = example_disk 17408" "mem' 0x1002BB = example_disk 18107" "mem' 0x100400 = 0"
    using at by (simp_all add: loaded_at_def write_slice_apply nth_append read_bytes_def)
  ultimately show ?thesis by blast
qed

end
