(* ===== verification/Vesa.thy ===== *)
theory Vesa
  imports Bios_Disk
begin

text \<open>
  Choosing a graphics mode in stage 2 (\<^verbatim>\<open>src/bios/stage-2/src/vesa.rs\<close>).  The three calls of the
  VESA BIOS (\<^verbatim>\<open>int 0x10\<close>, functions \<^verbatim>\<open>0x4f00\<close> to \<^verbatim>\<open>0x4f02\<close>) are parameters that take the address
  of the block to fill; the locale \<open>vesa_bios\<close> states what their interface documents.  The list of modes is
  read from memory up to its end mark, so the loop over it has fuel; a list of \<open>n\<close> modes needs any
  fuel above \<open>n\<close>.
\<close>

unbundle bit_operations_syntax

section \<open>Definitions\<close>

datatype bios_pixel_format = BiosRgb | BiosBgr | BiosUnknown nat nat nat

fun is_unknown :: "bios_pixel_format \<Rightarrow> bool" where
  "is_unknown BiosRgb = False"
| "is_unknown BiosBgr = False"
| "is_unknown (BiosUnknown r g b) = True"

record vesa_mode_info =
  vm_mode :: nat
  vm_width :: nat
  vm_height :: nat
  framebuffer_start :: nat
  bytes_per_scanline :: nat
  vm_bytes_per_pixel :: nat
  vm_pixel_format :: bios_pixel_format
  memory_model :: nat
  attributes :: nat

text \<open>The block of the controller is at \<open>info_addr\<close>; \<open>rest\<close> is the rest of the buffer.\<close>

record vesa_info =
  info_addr :: nat
  rest_addr :: nat
  rest_len :: nat

record vbe =
  vbe_controller_info :: "nat \<Rightarrow> memory \<Rightarrow> nat \<times> memory"
  vbe_mode_info :: "nat \<Rightarrow> nat \<Rightarrow> memory \<Rightarrow> nat \<times> memory"
  vbe_set_mode :: "nat \<Rightarrow> nat"

definition field_at :: "memory \<Rightarrow> nat \<Rightarrow> nat \<Rightarrow> nat" where
  "field_at mem a n = from_le_bytes (read_bytes mem a n)"

subsection \<open>The controller\<close>

text \<open>The call gets the segment 0 and the low 16 bits of the buffer's address.\<close>

definition vesa_info_query :: "vbe \<Rightarrow> aligned_buffer \<Rightarrow> memory \<Rightarrow> (vesa_info \<times> memory) res" where
  "vesa_info_query V buf mem =
     bindR (assertR ''mid > len'' (512 \<le> buffer_len buf)) (\<lambda>_.
     let block_ptr = buffer_addr buf;
         (ret, mem) = vbe_controller_info V (block_ptr mod 2 ^ 16) (fill_bytes mem block_ptr 0 512)
     in
     if ret = 0x4f
     then Ok (\<lparr>info_addr = block_ptr, rest_addr = block_ptr + 512, rest_len = buffer_len buf - 512\<rparr>, mem)
     else Err ''u16'')"

text \<open>\<open>video_mode_ptr\<close> is a far pointer at offset 14 of the block.\<close>

definition video_mode_ptr :: "vesa_info \<Rightarrow> memory \<Rightarrow> nat" where
  "video_mode_ptr vi mem =
     (let raw = field_at mem (info_addr vi + 14) 4;
          segment = raw div 2 ^ 16;
          offset = raw mod 2 ^ 16
      in segment * 16 + offset)"

definition get_mode :: "vesa_info \<Rightarrow> nat \<Rightarrow> memory \<Rightarrow> nat option" where
  "get_mode vi index mem =
     (let mode = field_at mem (video_mode_ptr vi mem + 2 * index) 2
      in if mode = 0xffff then None else Some mode)"

subsection \<open>Modes\<close>

text \<open>The fields of \<open>VbeModeInfo\<close> at their offsets.\<close>

definition mode_of_block :: "nat \<Rightarrow> u8 list \<Rightarrow> vesa_mode_info" where
  "mode_of_block mode block =
     (let field = (\<lambda>a n. from_le_bytes (take n (drop a block)));
          red_position = field 32 1; green_position = field 34 1; blue_position = field 36 1
      in \<lparr>vm_mode = mode,
          vm_width = field 18 2,
          vm_height = field 20 2,
          framebuffer_start = field 40 4,
          bytes_per_scanline = field 16 2,
          vm_bytes_per_pixel = field 25 1 div 8,
          vm_pixel_format =
            (if (red_position, green_position, blue_position) = (0, 8, 16) then BiosRgb
             else if (red_position, green_position, blue_position) = (16, 8, 0) then BiosBgr
             else BiosUnknown red_position green_position blue_position),
          memory_model = field 27 1,
          attributes = field 0 2\<rparr>)"

definition mode_info_query :: "vbe \<Rightarrow> nat \<Rightarrow> nat \<Rightarrow> nat \<Rightarrow> memory \<Rightarrow> (vesa_mode_info \<times> memory) res" where
  "mode_info_query V mode addr len mem =
     bindR (assertR ''range end index 256 out of range for slice'' (256 \<le> len)) (\<lambda>_.
     let segment = addr div 16;
         target_addr = addr - segment * 16;
         (ret, mem) = vbe_mode_info V mode (segment mod 2 ^ 16 * 16 + target_addr) (fill_bytes mem addr 0 256)
     in
     if ret = 0x4f then Ok (mode_of_block mode (read_bytes mem addr 256), mem) else Err ''u16'')"

definition enable :: "vbe \<Rightarrow> vesa_mode_info \<Rightarrow> unit res" where
  "enable V m = (if vbe_set_mode V (vm_mode m) = 0x4f then Ok () else Err ''u16'')"

subsection \<open>The best mode\<close>

definition supported_modes :: "nat list" where "supported_modes = [4, 6]"

definition mode_suitable :: "nat \<Rightarrow> nat \<Rightarrow> vesa_mode_info \<Rightarrow> bool" where
  "mode_suitable max_width max_height m \<longleftrightarrow>
     attributes m AND 0x90 = 0x90 \<and> List.member supported_modes (memory_model m) \<and>
     \<not> (vm_width m > max_width \<or> vm_height m > max_height)"

definition replaces :: "vesa_mode_info option \<Rightarrow> vesa_mode_info \<Rightarrow> bool" where
  "replaces best m =
     (case best of
        None \<Rightarrow> True
      | Some best \<Rightarrow> is_unknown (vm_pixel_format best) \<or> vm_width best < vm_width m \<or>
          (vm_width best = vm_width m \<and> vm_height best < vm_height m))"

definition consider_mode :: "nat \<Rightarrow> nat \<Rightarrow> vesa_mode_info \<Rightarrow> vesa_mode_info option \<Rightarrow> vesa_mode_info option" where
  "consider_mode max_width max_height m best =
     (if mode_suitable max_width max_height m \<and> replaces best m then Some m else best)"

fun best_mode_loop ::
    "nat \<Rightarrow> vbe \<Rightarrow> vesa_info \<Rightarrow> nat \<Rightarrow> nat \<Rightarrow> nat \<Rightarrow> vesa_mode_info option \<Rightarrow> memory \<Rightarrow>
     (vesa_mode_info option \<times> memory) res option" where
  "best_mode_loop 0 V vi max_width max_height i best mem = None"
| "best_mode_loop (Suc fuel) V vi max_width max_height i best mem =
     (case get_mode vi i mem of
        None \<Rightarrow> Some (Ok (best, mem))
      | Some mode \<Rightarrow>
          (case expect_ok ''called `Result::unwrap()` on an `Err` value''
                  (mode_info_query V mode (rest_addr vi) (rest_len vi) mem) of
             Ok (mode_info, mem) \<Rightarrow>
               best_mode_loop fuel V vi max_width max_height (i + 1)
                 (consider_mode max_width max_height mode_info best) mem
           | Err e \<Rightarrow> Some (Err e)
           | Panic p \<Rightarrow> Some (Panic p)))"

definition get_best_mode ::
    "nat \<Rightarrow> vbe \<Rightarrow> vesa_info \<Rightarrow> nat \<Rightarrow> nat \<Rightarrow> memory \<Rightarrow> (vesa_mode_info option \<times> memory) res option" where
  "get_best_mode fuel V vi max_width max_height mem = best_mode_loop fuel V vi max_width max_height 0 None mem"

section \<open>The contract of the firmware\<close>

text \<open>
  The modes \<open>ms\<close> are listed in memory, with the end mark, clear of the block the queries use.
\<close>

definition modes_listed :: "vesa_info \<Rightarrow> nat list \<Rightarrow> memory \<Rightarrow> bool" where
  "modes_listed vi ms mem \<longleftrightarrow>
     (\<forall>i < length ms. field_at mem (video_mode_ptr vi mem + 2 * i) 2 = ms ! i \<and> ms ! i \<noteq> 0xffff) \<and>
     field_at mem (video_mode_ptr vi mem + 2 * length ms) 2 = 0xffff \<and>
     (video_mode_ptr vi mem + 2 * length ms + 2 \<le> rest_addr vi \<or> rest_addr vi + 256 \<le> video_mode_ptr vi mem) \<and>
     info_addr vi + 512 \<le> rest_addr vi \<and> rest_addr vi < 2 ^ 20 \<and> 256 \<le> rest_len vi"

text \<open>\<open>blk\<close> is the block of 256 bytes with which the firmware describes a mode.\<close>

locale vesa_bios =
  fixes V :: vbe and blk :: "nat \<Rightarrow> u8 list"
  assumes mode_block: "length (blk m) = 256"
    and mode_call: "vbe_mode_info V m a mem = (0x4f, write_slice mem a (blk m))"
begin

lemma mode_info_query_spec:
  assumes "addr < 2 ^ 20" and "256 \<le> len"
  shows "mode_info_query V mode addr len mem = Ok (mode_of_block mode (blk mode), write_slice mem addr (blk mode))"
proof -
  have "addr div 16 mod 2 ^ 16 * 16 + (addr - addr div 16 * 16) = addr" using assms(1) by simp
  moreover have "write_slice (fill_bytes mem addr 0 256) addr (blk mode) = write_slice mem addr (blk mode)"
    by (simp add: fun_eq_iff write_slice_apply fill_bytes_def mode_block)
  moreover have "read_bytes (write_slice mem addr (blk mode)) addr 256 = blk mode"
    using read_write_slice[of mem addr "blk mode"] by (simp add: mode_block)
  ultimately show ?thesis using assms(2) by (simp add: mode_info_query_def mode_call Let_def)
qed

text \<open>What the queries write does not disturb the list.\<close>

lemma modes_listed_write:
  assumes "modes_listed vi ms mem"
  shows "modes_listed vi ms (write_slice mem (rest_addr vi) (blk m))"
proof -
  let ?mem = "write_slice mem (rest_addr vi) (blk m)"
  have "field_at ?mem (info_addr vi + 14) 4 = field_at mem (info_addr vi + 14) 4"
    using assms by (simp add: field_at_def read_write_apart mode_block modes_listed_def)
  then have p: "video_mode_ptr vi ?mem = video_mode_ptr vi mem" by (simp add: video_mode_ptr_def)
  have "field_at ?mem (video_mode_ptr vi mem + 2 * i) 2 = field_at mem (video_mode_ptr vi mem + 2 * i) 2" if "i \<le> length ms" for i
    using assms that by (auto simp: field_at_def read_write_apart mode_block modes_listed_def)
  then show ?thesis using assms by (simp add: modes_listed_def p)
qed

lemma best_mode_loop_spec:
  assumes "modes_listed vi ms mem" and "i \<le> length ms" and "length ms - i < fuel"
  shows "\<exists>mem'. best_mode_loop fuel V vi w h i best mem =
    Some (Ok (fold (consider_mode w h) (map (\<lambda>m. mode_of_block m (blk m)) (drop i ms)) best, mem')) \<and>
    (\<forall>x. x < rest_addr vi \<or> rest_addr vi + 256 \<le> x \<longrightarrow> mem' x = mem x)"
  using assms
proof (induction fuel arbitrary: i best mem)
  case (Suc fuel)
  show ?case
  proof (cases "i = length ms")
    case True
    then have "get_mode vi i mem = None" using Suc.prems(1) by (simp add: get_mode_def modes_listed_def Let_def)
    then show ?thesis using True by simp
  next
    case False
    then have i: "i < length ms" using Suc.prems(2) by simp
    then have g: "get_mode vi i mem = Some (ms ! i)" using Suc.prems(1) by (simp add: get_mode_def modes_listed_def Let_def)
    have q: "mode_info_query V (ms ! i) (rest_addr vi) (rest_len vi) mem =
        Ok (mode_of_block (ms ! i) (blk (ms ! i)), write_slice mem (rest_addr vi) (blk (ms ! i)))"
      using Suc.prems(1) by (intro mode_info_query_spec) (auto simp: modes_listed_def)
    from Suc.IH[OF modes_listed_write[OF Suc.prems(1)], of "Suc i"] Suc.prems(3) i obtain mem' where
      "best_mode_loop fuel V vi w h (Suc i) (consider_mode w h (mode_of_block (ms ! i) (blk (ms ! i))) best)
         (write_slice mem (rest_addr vi) (blk (ms ! i))) =
       Some (Ok (fold (consider_mode w h) (map (\<lambda>m. mode_of_block m (blk m)) (drop (Suc i) ms))
         (consider_mode w h (mode_of_block (ms ! i) (blk (ms ! i))) best), mem'))"
      "\<forall>x. x < rest_addr vi \<or> rest_addr vi + 256 \<le> x \<longrightarrow> mem' x = write_slice mem (rest_addr vi) (blk (ms ! i)) x" by fastforce
    moreover from this(2) have "\<forall>x. x < rest_addr vi \<or> rest_addr vi + 256 \<le> x \<longrightarrow> mem' x = mem x"
      by (auto simp: write_slice_apply mode_block)
    ultimately show ?thesis using g q by (auto simp: Cons_nth_drop_Suc[OF i, symmetric])
  qed
qed simp

end

section \<open>A firmware that keeps the contract\<close>

definition pad_block :: "u8 list \<Rightarrow> u8 list" where
  "pad_block bs = take 256 (bs @ replicate 256 0)"

definition table_vbe :: "u8 list \<Rightarrow> (nat \<Rightarrow> u8 list) \<Rightarrow> vbe" where
  "table_vbe ctl blk = \<lparr>vbe_controller_info = (\<lambda>a mem. (0x4f, write_slice mem a ctl)),
     vbe_mode_info = (\<lambda>m a mem. (0x4f, write_slice mem a (pad_block (blk m)))), vbe_set_mode = (\<lambda>_. 0x4f)\<rparr>"

interpretation vesa_table: vesa_bios "table_vbe ctl blk" "\<lambda>m. pad_block (blk m)" for ctl blk
  by unfold_locales (simp_all add: table_vbe_def pad_block_def)

section \<open>Lemmas\<close>

text \<open>The size of a mode, ordered by width and then by height.\<close>

definition smaller_or_equal :: "vesa_mode_info \<Rightarrow> vesa_mode_info \<Rightarrow> bool" where
  "smaller_or_equal a b \<longleftrightarrow> vm_width a < vm_width b \<or> vm_width a = vm_width b \<and> vm_height a \<le> vm_height b"

lemma fold_consider_mode:
  assumes "\<forall>m \<in> set (filter (mode_suitable w h) ms) \<union> set_option best. \<not> is_unknown (vm_pixel_format m)"
  shows "case fold (consider_mode w h) ms best of
      None \<Rightarrow> best = None \<and> filter (mode_suitable w h) ms = []
    | Some b \<Rightarrow> b \<in> set (filter (mode_suitable w h) ms) \<union> set_option best \<and>
        (\<forall>m \<in> set (filter (mode_suitable w h) ms) \<union> set_option best. smaller_or_equal m b)"
  using assms
proof (induction ms arbitrary: best)
  case Nil
  then show ?case by (cases best) (auto simp: smaller_or_equal_def)
next
  case (Cons m ms)
  let ?best = "consider_mode w h m best"
  have known: "\<forall>x \<in> set (filter (mode_suitable w h) ms) \<union> set_option ?best. \<not> is_unknown (vm_pixel_format x)"
    using Cons.prems by (auto simp: consider_mode_def split: if_splits)
  have step: "set_option ?best \<subseteq> set (filter (mode_suitable w h) [m]) \<union> set_option best"
    "(?best = None) = (best = None \<and> \<not> mode_suitable w h m)"
    "\<forall>x \<in> set (filter (mode_suitable w h) [m]) \<union> set_option best. \<exists>b. ?best = Some b \<and> smaller_or_equal x b"
    using Cons.prems by (auto simp: consider_mode_def replaces_def smaller_or_equal_def split: option.splits if_splits)
  have trans: "smaller_or_equal x z" if "smaller_or_equal x y" "smaller_or_equal y z" for x y z
    using that by (auto simp: smaller_or_equal_def)
  show ?case
    using Cons.IH[OF known] step by (auto split: option.splits intro: trans)
qed

section \<open>Properties\<close>

text \<open>C22. The graphics mode stage 2 selects is the best one: among the listed modes with a linear
  framebuffer, a supported memory model and a size within the limits it is one of the greatest width
  and, for that width, of the greatest height; none is selected exactly when there is no such mode.
  This needs the pixel format of these modes to be known.  The search ends for every fuel above the
  number of modes.\<close>

theorem best_mode_largest:
  assumes bios: "vesa_bios V blk" and listed: "modes_listed vi ms mem" and fuel: "length ms < fuel"
    and cs: "cs = filter (mode_suitable w h) (map (\<lambda>m. mode_of_block m (blk m)) ms)"
    and known: "\<forall>m \<in> set cs. \<not> is_unknown (vm_pixel_format m)"
  shows "\<exists>best mem'. get_best_mode fuel V vi w h mem = Some (Ok (best, mem')) \<and>
    (case best of None \<Rightarrow> cs = [] | Some b \<Rightarrow> b \<in> set cs \<and> (\<forall>m \<in> set cs. smaller_or_equal m b))"
proof -
  let ?best = "fold (consider_mode w h) (map (\<lambda>m. mode_of_block m (blk m)) ms) None"
  obtain mem' where "get_best_mode fuel V vi w h mem = Some (Ok (?best, mem'))"
    using vesa_bios.best_mode_loop_spec[OF bios listed, of 0 fuel w h None] fuel by (auto simp: get_best_mode_def)
  moreover have "case ?best of None \<Rightarrow> cs = [] | Some b \<Rightarrow> b \<in> set cs \<and> (\<forall>m \<in> set cs. smaller_or_equal m b)"
    using fold_consider_mode[of w h "map (\<lambda>m. mode_of_block m (blk m)) ms" None] known
    unfolding cs by (simp split: option.splits)
  ultimately show ?thesis by blast
qed

text \<open>Three modes of direct colour, the largest of them beyond the limits.\<close>

definition example_block :: "nat \<Rightarrow> u8 list" where
  "example_block mode =
     [0x90, 0] @ replicate 16 0 @
     (if mode = 0x101 then [0x80, 2, 0xE0, 1] else if mode = 0x118 then [0, 4, 0, 3] else [0, 5, 0xD0, 2]) @
     [0, 0, 0, 32, 0, 6] @ replicate 4 0 @ [16, 0, 8, 0, 0] @ replicate 3 0 @ [0, 0, 0, 0xFD]"

definition example_modes :: memory where
  "example_modes a = (if a = 0x800E then 0 else if a = 0x800F then 0x90 else if a = 0x9000 \<or> a = 0x9001 then 1
     else if a = 0x9002 then 0x18 else if a = 0x9003 then 1 else if a = 0x9004 then 0x1A else if a = 0x9005 then 1
     else if a = 0x9006 \<or> a = 0x9007 then 0xFF else 0)"

lemma example_listed:
  "modes_listed \<lparr>info_addr = 0x8000, rest_addr = 0x8200, rest_len = 0x3E00\<rparr> [0x101, 0x118, 0x11A] example_modes"
proof -
  have p: "video_mode_ptr \<lparr>info_addr = 0x8000, rest_addr = 0x8200, rest_len = 0x3E00\<rparr> example_modes = 0x9000"
    by (simp add: video_mode_ptr_def field_at_def read_bytes_def upt_conv_Cons example_modes_def Let_def)
  have "field_at example_modes (0x9000 + 2 * i) 2 = [0x101, 0x118, 0x11A] ! i \<and> [0x101, 0x118, 0x11A] ! i \<noteq> (0xffff :: nat)"
    if "i < 3" for i
  proof -
    from that have "i = 0 \<or> i = 1 \<or> i = 2" by auto
    then show ?thesis by (auto simp: field_at_def read_bytes_def upt_conv_Cons example_modes_def)
  qed
  then show ?thesis
    by (simp add: modes_listed_def p) (simp add: field_at_def read_bytes_def upt_conv_Cons example_modes_def)
qed

lemma pad_block_field: "length bs \<le> 256 \<Longrightarrow> a + n \<le> length bs \<Longrightarrow> take n (drop a (pad_block bs)) = take n (drop a bs)"
  by (simp add: pad_block_def)

lemma example_mode:
  "mode_of_block m (pad_block (example_block m)) =
     \<lparr>vm_mode = m, vm_width = (if m = 0x101 then 640 else if m = 0x118 then 1024 else 1280),
      vm_height = (if m = 0x101 then 480 else if m = 0x118 then 768 else 720), framebuffer_start = 0xFD000000,
      bytes_per_scanline = 0, vm_bytes_per_pixel = 4, vm_pixel_format = BiosBgr, memory_model = 6, attributes = 0x90\<rparr>"
proof -
  have "length (example_block m) = 44" by (simp add: example_block_def)
  then have f: "take n (drop a (pad_block (example_block m))) = take n (drop a (example_block m))" if "a + n \<le> 44" for a n
    using that by (simp add: pad_block_field)
  note fs = f[of 32 1] f[of 34 1] f[of 36 1] f[of 18 2] f[of 20 2] f[of 40 4] f[of 16 2] f[of 25 1] f[of 27 1] f[of 0 2]
  have "mode_of_block m (pad_block (example_block m)) = mode_of_block m (example_block m)"
    using fs by (simp only: mode_of_block_def Let_def)
  also have "\<dots> = \<lparr>vm_mode = m, vm_width = (if m = 0x101 then 640 else if m = 0x118 then 1024 else 1280),
      vm_height = (if m = 0x101 then 480 else if m = 0x118 then 768 else 720), framebuffer_start = 0xFD000000,
      bytes_per_scanline = 0, vm_bytes_per_pixel = 4, vm_pixel_format = BiosBgr, memory_model = 6, attributes = 0x90\<rparr>"
    by (simp add: mode_of_block_def Let_def example_block_def take_Cons' drop_Cons')
  finally show ?thesis .
qed

theorem best_mode_largest_witness:
  "\<exists>b mem'. get_best_mode 4 (table_vbe [] example_block) \<lparr>info_addr = 0x8000, rest_addr = 0x8200, rest_len = 0x3E00\<rparr>
     1024 768 example_modes = Some (Ok (Some b, mem')) \<and> vm_mode b = 0x118 \<and> vm_width b = 1024"
proof -
  let ?mode = "\<lambda>m. mode_of_block m (pad_block (example_block m))"
  have cs: "filter (mode_suitable 1024 768) (map ?mode [0x101, 0x118, 0x11A]) = [?mode 0x101, ?mode 0x118]"
    by (simp add: mode_suitable_def supported_modes_def example_mode)
  from best_mode_largest[OF vesa_table.vesa_bios_axioms[where ctl = "[]" and blk = example_block] example_listed _ cs[symmetric], of 4] obtain best mem' where
    r: "get_best_mode 4 (table_vbe [] example_block) \<lparr>info_addr = 0x8000, rest_addr = 0x8200, rest_len = 0x3E00\<rparr> 1024 768 example_modes =
      Some (Ok (best, mem'))"
    and b: "case best of None \<Rightarrow> [?mode 0x101, ?mode 0x118] = []
      | Some b \<Rightarrow> b \<in> set [?mode 0x101, ?mode 0x118] \<and> (\<forall>m \<in> set [?mode 0x101, ?mode 0x118]. smaller_or_equal m b)"
    by (auto simp: example_mode)
  from b have "best = Some (?mode 0x118)"
    by (auto simp: smaller_or_equal_def example_mode split: option.splits)
  then show ?thesis using r by (auto simp: example_mode)
qed

end
