(* ===== verification/Config.thy ===== *)
theory Config
  imports Rust_Prelude
begin

text \<open>
  The kernel's configuration as the \<^verbatim>\<open>bootloader_api\<close> crate stores it in the kernel's
  \<^verbatim>\<open>.bootloader-config\<close> section (\<^verbatim>\<open>src/api/src/config.rs\<close>): the data types, the 124-byte
  serialisation and the parser the bootloader runs on it.  The array concatenations the
  crate's build script generates are modelled from the generator (\<^verbatim>\<open>src/api/build.rs\<close>).
  The version numbers are build-time constants, so the defaults take them as an argument.
  The lemmas show that the two directions are inverse to each other on all 124-byte inputs
  the parser accepts, and that the parser never panics.
\<close>

section \<open>Definitions\<close>

subsection \<open>Data\<close>

type_synonym u16w = "16 word"
type_synonym u64w = "64 word"

datatype mapping = Dynamic | FixedAddress u64w

record api_version =
  version_major :: u16w
  version_minor :: u16w
  version_patch :: u16w
  pre_release :: bool

record mappings =
  kernel_stack :: mapping
  boot_info :: mapping
  framebuffer :: mapping
  physical_memory :: "mapping option"
  page_table_recursive :: "mapping option"
  aslr :: bool
  dynamic_range_start :: "u64w option"
  dynamic_range_end :: "u64w option"
  ramdisk_memory :: mapping

record frame_buffer_config =
  minimum_framebuffer_height :: "u64w option"
  minimum_framebuffer_width :: "u64w option"

record bootloader_config =
  version :: api_version
  mappings :: mappings
  kernel_stack_size :: u64w
  frame_buffer :: frame_buffer_config

definition UUID :: "u8 list" where
  "UUID = [0x74, 0x3C, 0xA9, 0x61, 0x09, 0x36, 0x46, 0xA0, 0xBB, 0x55, 0x5C, 0x15, 0x89, 0x15,
           0x25, 0x3D]"

definition SERIALIZED_LEN :: nat where
  "SERIALIZED_LEN = 124"

subsection \<open>Defaults\<close>

definition mapping_new_default :: mapping where
  "mapping_new_default = Dynamic"

definition mappings_new_default :: mappings where
  "mappings_new_default = \<lparr>
     kernel_stack = mapping_new_default,
     boot_info = mapping_new_default,
     framebuffer = mapping_new_default,
     physical_memory = None,
     page_table_recursive = None,
     aslr = False,
     dynamic_range_start = None,
     dynamic_range_end = None,
     ramdisk_memory = mapping_new_default\<rparr>"

definition frame_buffer_new_default :: frame_buffer_config where
  "frame_buffer_new_default = \<lparr>
     minimum_framebuffer_height = None,
     minimum_framebuffer_width = None\<rparr>"

text \<open>\<open>v\<close> holds the constants of the generated \<^verbatim>\<open>version_info.rs\<close>.\<close>

definition config_new_default :: "api_version \<Rightarrow> bootloader_config" where
  "config_new_default v = \<lparr>
     version = v,
     mappings = mappings_new_default,
     kernel_stack_size = 80 * 1024,
     frame_buffer = frame_buffer_new_default\<rparr>"

subsection \<open>Serialisation\<close>

text \<open>The functions \<open>concat_i_j\<close> that \<^verbatim>\<open>build.rs\<close> prints: \<open>[a[0], ..., a[i-1], b[0], ..., b[j-1]]\<close>.\<close>

definition concat_arrays :: "nat \<Rightarrow> nat \<Rightarrow> u8 list \<Rightarrow> u8 list \<Rightarrow> u8 list" where
  "concat_arrays i j a b = map (\<lambda>idx. a ! idx) [0..<i] @ map (\<lambda>idx. b ! idx) [0..<j]"

fun mapping_serialize :: "mapping \<Rightarrow> u8 list" where
  "mapping_serialize Dynamic = replicate 9 0"
| "mapping_serialize (FixedAddress addr) = concat_arrays 1 8 [1] (to_le_bytes 8 (unat addr))"

text \<open>The two inline matches on optional fields in \<open>serialize\<close>.\<close>

definition serialize_opt_mapping :: "mapping option \<Rightarrow> u8 list" where
  "serialize_opt_mapping v =
     (case v of None \<Rightarrow> replicate 10 0
      | Some m \<Rightarrow> concat_arrays 1 9 [1] (mapping_serialize m))"

definition serialize_opt_u64 :: "u64w option \<Rightarrow> u8 list" where
  "serialize_opt_u64 v =
     (case v of None \<Rightarrow> replicate 9 0
      | Some addr \<Rightarrow> concat_arrays 1 8 [1] (to_le_bytes 8 (unat addr)))"

definition serialize :: "bootloader_config \<Rightarrow> u8 list" where
  "serialize c =
     (let v = version c;
          m = mappings c;
          fb = frame_buffer c;
          ver = (let one = concat_arrays 2 2 (to_le_bytes 2 (unat (version_major v)))
                             (to_le_bytes 2 (unat (version_minor v)));
                     two = concat_arrays 2 1 (to_le_bytes 2 (unat (version_patch v)))
                             [if pre_release v then 1 else 0]
                 in concat_arrays 4 3 one two);
          buf = concat_arrays 16 7 UUID ver;
          buf = concat_arrays 23 8 buf (to_le_bytes 8 (unat (kernel_stack_size c)));
          buf = concat_arrays 31 9 buf (mapping_serialize (kernel_stack m));
          buf = concat_arrays 40 9 buf (mapping_serialize (boot_info m));
          buf = concat_arrays 49 9 buf (mapping_serialize (framebuffer m));
          buf = concat_arrays 58 10 buf (serialize_opt_mapping (physical_memory m));
          buf = concat_arrays 68 10 buf (serialize_opt_mapping (page_table_recursive m));
          buf = concat_arrays 78 1 buf [if aslr m then 1 else 0];
          buf = concat_arrays 79 9 buf (serialize_opt_u64 (dynamic_range_start m));
          buf = concat_arrays 88 9 buf (serialize_opt_u64 (dynamic_range_end m));
          buf = concat_arrays 97 9 buf (mapping_serialize (ramdisk_memory m));
          buf = concat_arrays 106 9 buf (serialize_opt_u64 (minimum_framebuffer_height fb))
      in concat_arrays 115 9 buf (serialize_opt_u64 (minimum_framebuffer_width fb)))"

subsection \<open>Deserialisation\<close>

text \<open>\<open>slice.split_at(N)\<close> panics when the slice is shorter than \<open>N\<close>.\<close>

definition split_array_ref :: "nat \<Rightarrow> 'a list \<Rightarrow> ('a list \<times> 'a list) res" where
  "split_array_ref n s =
     (if n \<le> length s then Ok (take n s, drop n s) else Panic (Explicit ''mid > len''))"

definition u16_from_le_bytes :: "u8 list \<Rightarrow> u16w" where
  "u16_from_le_bytes bs = word_of_nat (from_le_bytes bs)"

definition u64_from_le_bytes :: "u8 list \<Rightarrow> u64w" where
  "u64_from_le_bytes bs = word_of_nat (from_le_bytes bs)"

definition mapping_deserialize :: "u8 list \<Rightarrow> mapping res" where
  "mapping_deserialize serialized =
     bindR (split_array_ref 1 serialized) (\<lambda>(variant, s).
     bindR (split_array_ref 8 s) (\<lambda>(addr, s).
       if s \<noteq> [] then Err ''invalid mapping format''
       else if variant = [0] \<and> addr = replicate 8 0 then Ok Dynamic
       else if variant = [1] then Ok (FixedAddress (u64_from_le_bytes addr))
       else Err ''invalid mapping value''))"

text \<open>The inline matches on optional fields in \<open>deserialize\<close>, each with its own message.\<close>

definition deserialize_opt_mapping :: "string \<Rightarrow> u8 list \<Rightarrow> u8 list \<Rightarrow> mapping option res" where
  "deserialize_opt_mapping msg some payload =
     (if some = [0] \<and> payload = replicate 9 0 then Ok None
      else if some = [1] then bindR (mapping_deserialize payload) (\<lambda>m. Ok (Some m))
      else Err msg)"

definition deserialize_opt_u64 :: "string \<Rightarrow> u8 list \<Rightarrow> u8 list \<Rightarrow> u64w option res" where
  "deserialize_opt_u64 msg some payload =
     (if some = [0] \<and> payload = replicate 8 0 then Ok None
      else if some = [1] then Ok (Some (u64_from_le_bytes payload))
      else Err msg)"

definition deserialize_bool :: "string \<Rightarrow> u8 list \<Rightarrow> bool res" where
  "deserialize_bool msg b = (if b = [1] then Ok True else if b = [0] then Ok False else Err msg)"

text \<open>\<open>deserialize\<close> reads the version, the mappings and the frame buffer in this order.\<close>

definition deserialize_version :: "u8 list \<Rightarrow> (api_version \<times> u8 list) res" where
  "deserialize_version s =
     bindR (split_array_ref 2 s) (\<lambda>(major, s).
     bindR (split_array_ref 2 s) (\<lambda>(minor, s).
     bindR (split_array_ref 2 s) (\<lambda>(patch, s).
     bindR (split_array_ref 1 s) (\<lambda>(pre, s).
     bindR (deserialize_bool ''invalid pre version'' pre) (\<lambda>pre.
       Ok (\<lparr>version_major = u16_from_le_bytes major,
            version_minor = u16_from_le_bytes minor,
            version_patch = u16_from_le_bytes patch,
            pre_release = pre\<rparr>, s))))))"

definition deserialize_mappings :: "u8 list \<Rightarrow> (mappings \<times> u8 list) res" where
  "deserialize_mappings s =
     bindR (split_array_ref 9 s) (\<lambda>(b_kernel_stack, s).
     bindR (split_array_ref 9 s) (\<lambda>(b_boot_info, s).
     bindR (split_array_ref 9 s) (\<lambda>(b_framebuffer, s).
     bindR (split_array_ref 1 s) (\<lambda>(physical_memory_some, s).
     bindR (split_array_ref 9 s) (\<lambda>(b_physical_memory, s).
     bindR (split_array_ref 1 s) (\<lambda>(page_table_recursive_some, s).
     bindR (split_array_ref 9 s) (\<lambda>(b_page_table_recursive, s).
     bindR (split_array_ref 1 s) (\<lambda>(b_aslr, s).
     bindR (split_array_ref 1 s) (\<lambda>(dynamic_range_start_some, s).
     bindR (split_array_ref 8 s) (\<lambda>(b_dynamic_range_start, s).
     bindR (split_array_ref 1 s) (\<lambda>(dynamic_range_end_some, s).
     bindR (split_array_ref 8 s) (\<lambda>(b_dynamic_range_end, s).
     bindR (split_array_ref 9 s) (\<lambda>(b_ramdisk_memory, s).
     bindR (mapping_deserialize b_kernel_stack) (\<lambda>v_kernel_stack.
     bindR (mapping_deserialize b_boot_info) (\<lambda>v_boot_info.
     bindR (mapping_deserialize b_framebuffer) (\<lambda>v_framebuffer.
     bindR (deserialize_opt_mapping ''invalid phys memory value''
              physical_memory_some b_physical_memory) (\<lambda>v_physical_memory.
     bindR (deserialize_opt_mapping ''invalid page table recursive value''
              page_table_recursive_some b_page_table_recursive) (\<lambda>v_page_table_recursive.
     bindR (deserialize_bool ''invalid aslr value'' b_aslr) (\<lambda>v_aslr.
     bindR (deserialize_opt_u64 ''invalid dynamic range start value''
              dynamic_range_start_some b_dynamic_range_start) (\<lambda>v_dynamic_range_start.
     bindR (deserialize_opt_u64 ''invalid dynamic range end value''
              dynamic_range_end_some b_dynamic_range_end) (\<lambda>v_dynamic_range_end.
     bindR (mapping_deserialize b_ramdisk_memory) (\<lambda>v_ramdisk_memory.
       Ok (\<lparr>kernel_stack = v_kernel_stack,
            boot_info = v_boot_info,
            framebuffer = v_framebuffer,
            physical_memory = v_physical_memory,
            page_table_recursive = v_page_table_recursive,
            aslr = v_aslr,
            dynamic_range_start = v_dynamic_range_start,
            dynamic_range_end = v_dynamic_range_end,
            ramdisk_memory = v_ramdisk_memory\<rparr>, s)))))))))))))))))))))))"

definition deserialize_frame_buffer :: "u8 list \<Rightarrow> (frame_buffer_config \<times> u8 list) res" where
  "deserialize_frame_buffer s =
     bindR (split_array_ref 1 s) (\<lambda>(min_framebuffer_height_some, s).
     bindR (split_array_ref 8 s) (\<lambda>(min_framebuffer_height, s).
     bindR (split_array_ref 1 s) (\<lambda>(min_framebuffer_width_some, s).
     bindR (split_array_ref 8 s) (\<lambda>(min_framebuffer_width, s).
     bindR (deserialize_opt_u64 ''minimum_framebuffer_height invalid''
              min_framebuffer_height_some min_framebuffer_height) (\<lambda>height.
     bindR (deserialize_opt_u64 ''minimum_framebuffer_width invalid''
              min_framebuffer_width_some min_framebuffer_width) (\<lambda>width.
       Ok (\<lparr>minimum_framebuffer_height = height,
            minimum_framebuffer_width = width\<rparr>, s)))))))"

definition deserialize :: "u8 list \<Rightarrow> bootloader_config res" where
  "deserialize serialized =
     (if length serialized \<noteq> SERIALIZED_LEN then Err ''invalid len'' else
     bindR (split_array_ref 16 serialized) (\<lambda>(uuid, s).
     if uuid \<noteq> UUID then Err ''invalid UUID'' else
     bindR (deserialize_version s) (\<lambda>(ver, s).
     bindR (split_array_ref 8 s) (\<lambda>(b_kernel_stack_size, s).
     bindR (deserialize_mappings s) (\<lambda>(maps, s).
     bindR (deserialize_frame_buffer s) (\<lambda>(fb, s).
     if s \<noteq> [] then Err ''unexpected rest'' else
       Ok \<lparr>version = ver,
           mappings = maps,
           kernel_stack_size = u64_from_le_bytes b_kernel_stack_size,
           frame_buffer = fb\<rparr>))))))"

subsection \<open>The derived order on \<open>Mapping\<close>\<close>

instantiation mapping :: linorder
begin

fun less_eq_mapping :: "mapping \<Rightarrow> mapping \<Rightarrow> bool" where
  "less_eq_mapping Dynamic m = True"
| "less_eq_mapping (FixedAddress a) Dynamic = False"
| "less_eq_mapping (FixedAddress a) (FixedAddress b) = (a \<le> b)"

definition less_mapping :: "mapping \<Rightarrow> mapping \<Rightarrow> bool" where
  "less_mapping m n \<longleftrightarrow> m \<le> n \<and> \<not> n \<le> m"

instance
proof
  fix x y z :: mapping
  show "(x < y) = (x \<le> y \<and> \<not> y \<le> x)" by (simp add: less_mapping_def)
  show "x \<le> x" by (cases x) auto
  show "x \<le> y \<Longrightarrow> y \<le> z \<Longrightarrow> x \<le> z" by (cases x; cases y; cases z) auto
  show "x \<le> y \<Longrightarrow> y \<le> x \<Longrightarrow> x = y" by (cases x; cases y) auto
  show "x \<le> y \<or> y \<le> x" by (cases x; cases y) auto
qed

end

section \<open>Lemmas\<close>

subsection \<open>Building blocks\<close>

lemma concat_arrays_append [simp]:
  "length a = i \<Longrightarrow> length b = j \<Longrightarrow> concat_arrays i j a b = a @ b"
  by (auto simp: concat_arrays_def map_nth)

lemma length_concat_arrays [simp]: "length (concat_arrays i j a b) = i + j"
  by (simp add: concat_arrays_def)

lemma split_array_ref_append [simp]: "length a = n \<Longrightarrow> split_array_ref n (a @ s) = Ok (a, s)"
  by (simp add: split_array_ref_def)

lemma split_array_ref_all [simp]: "length a = n \<Longrightarrow> split_array_ref n a = Ok (a, [])"
  by (simp add: split_array_ref_def)

lemma split_array_ref_Cons [simp]: "split_array_ref (Suc 0) (x # s) = Ok ([x], s)"
  by (simp add: split_array_ref_def)

lemma split_array_ref_Cons_Suc:
  "split_array_ref (Suc n) (x # s) = bindR (split_array_ref n s) (\<lambda>(a, r). Ok (x # a, r))"
  by (simp add: split_array_ref_def)

lemma split_array_ref_Cons_numeral:
  "split_array_ref (numeral n) (x # s) =
     bindR (split_array_ref (pred_numeral n) s) (\<lambda>(a, r). Ok (x # a, r))"
  by (simp only: numeral_eq_Suc split_array_ref_Cons_Suc)

lemma split_array_ref_eq_Ok [res_simps]:
  "split_array_ref n s = Ok (a, r) \<longleftrightarrow> length a = n \<and> s = a @ r"
  by (auto simp: split_array_ref_def)

lemma split_array_ref_OkE:
  assumes "bindR (split_array_ref n s) (case_prod f) = Ok y"
  obtains a r where "length a = n" and "s = a @ r" and "f a r = Ok y"
  using assms by (auto simp: res_simps)

lemma split_array_ref_not_Err [simp]: "split_array_ref n s \<noteq> Err e"
  by (simp add: split_array_ref_def)

lemma length_UUID [simp]: "length UUID = 16"
  by (simp add: UUID_def)

lemma u16_from_to_le_bytes [simp]: "u16_from_le_bytes (to_le_bytes 2 (unat a)) = a"
  using unat_bounds(2)[of a] by (simp add: u16_from_le_bytes_def)

lemma u64_from_to_le_bytes [simp]: "u64_from_le_bytes (to_le_bytes 8 (unat a)) = a"
  using unat_bounds(4)[of a] by (simp add: u64_from_le_bytes_def)

lemma u16_to_from_le_bytes [simp]:
  "length bs = 2 \<Longrightarrow> to_le_bytes 2 (unat (u16_from_le_bytes bs)) = bs"
  using from_le_bytes_bound[of bs]
  by (simp add: u16_from_le_bytes_def unat_of_nat to_from_le_bytes_length)

lemma u64_to_from_le_bytes [simp]:
  "length bs = 8 \<Longrightarrow> to_le_bytes 8 (unat (u64_from_le_bytes bs)) = bs"
  using from_le_bytes_bound[of bs]
  by (simp add: u64_from_le_bytes_def unat_of_nat to_from_le_bytes_length)

lemma length_mapping_serialize [simp]: "length (mapping_serialize m) = 9"
  by (cases m) auto

lemma length_serialize_opt [simp]:
  "length (serialize_opt_mapping v) = 10" "length (serialize_opt_u64 w) = 9"
  by (auto simp: serialize_opt_mapping_def serialize_opt_u64_def split: option.splits)

text \<open>The tag and the payload of an optional field.\<close>

definition opt_tag :: "'a option \<Rightarrow> u8 list" where
  "opt_tag v = (case v of None \<Rightarrow> [0] | Some _ \<Rightarrow> [1])"

definition opt_mapping_payload :: "mapping option \<Rightarrow> u8 list" where
  "opt_mapping_payload v = (case v of None \<Rightarrow> replicate 9 0 | Some m \<Rightarrow> mapping_serialize m)"

definition opt_u64_payload :: "u64w option \<Rightarrow> u8 list" where
  "opt_u64_payload v = (case v of None \<Rightarrow> replicate 8 0 | Some a \<Rightarrow> to_le_bytes 8 (unat a))"

lemma length_opt_parts [simp]:
  "length (opt_tag v) = 1" "length (opt_mapping_payload m) = 9" "length (opt_u64_payload w) = 8"
  by (auto simp: opt_tag_def opt_mapping_payload_def opt_u64_payload_def split: option.splits)

lemma replicate_9_10: "replicate 9 x = x # replicate 8 x" "replicate 10 x = x # replicate 9 x"
  by (simp_all add: eval_nat_numeral)

lemma serialize_opt_mapping_parts: "serialize_opt_mapping v = opt_tag v @ opt_mapping_payload v"
  by (cases v) (simp_all add: serialize_opt_mapping_def opt_tag_def opt_mapping_payload_def
      replicate_9_10(2))

lemma serialize_opt_u64_parts: "serialize_opt_u64 v = opt_tag v @ opt_u64_payload v"
  by (cases v) (simp_all add: serialize_opt_u64_def opt_tag_def opt_u64_payload_def replicate_9_10(1))

text \<open>The layout of the serialised configuration.\<close>

definition version_bytes :: "api_version \<Rightarrow> u8 list" where
  "version_bytes v = to_le_bytes 2 (unat (version_major v)) @ to_le_bytes 2 (unat (version_minor v)) @
     to_le_bytes 2 (unat (version_patch v)) @ [if pre_release v then 1 else 0]"

definition mappings_bytes :: "mappings \<Rightarrow> u8 list" where
  "mappings_bytes m =
     mapping_serialize (kernel_stack m) @ mapping_serialize (boot_info m) @
     mapping_serialize (framebuffer m) @
     opt_tag (physical_memory m) @ opt_mapping_payload (physical_memory m) @
     opt_tag (page_table_recursive m) @ opt_mapping_payload (page_table_recursive m) @
     [if aslr m then 1 else 0] @
     opt_tag (dynamic_range_start m) @ opt_u64_payload (dynamic_range_start m) @
     opt_tag (dynamic_range_end m) @ opt_u64_payload (dynamic_range_end m) @
     mapping_serialize (ramdisk_memory m)"

definition frame_buffer_bytes :: "frame_buffer_config \<Rightarrow> u8 list" where
  "frame_buffer_bytes fb =
     opt_tag (minimum_framebuffer_height fb) @ opt_u64_payload (minimum_framebuffer_height fb) @
     opt_tag (minimum_framebuffer_width fb) @ opt_u64_payload (minimum_framebuffer_width fb)"

lemma length_layout_parts [simp]:
  "length (version_bytes v) = 7" "length (mappings_bytes m) = 75" "length (frame_buffer_bytes fb) = 18"
  by (simp_all add: version_bytes_def mappings_bytes_def frame_buffer_bytes_def)

lemma serialize_layout:
  "serialize c = UUID @ version_bytes (version c) @
     to_le_bytes 8 (unat (kernel_stack_size c)) @
     mappings_bytes (mappings c) @ frame_buffer_bytes (frame_buffer c)"
proof -
  have step: "concat_arrays i j a b = a @ b" if "length a = i" "length b = j" for i j a b
    using that by simp
  show ?thesis
    unfolding serialize_def Let_def
    by ((subst step, simp del: concat_arrays_append, simp del: concat_arrays_append)+,
        simp add: version_bytes_def mappings_bytes_def frame_buffer_bytes_def
          serialize_opt_mapping_parts serialize_opt_u64_parts)
qed

subsection \<open>Parsing what was printed\<close>

lemma mapping_deserialize_serialize [simp]: "mapping_deserialize (mapping_serialize m) = Ok m"
proof (cases m)
  case Dynamic
  have "split_array_ref 1 (replicate 9 (0 :: u8)) = Ok ([0], replicate 8 0)"
    by (simp add: replicate_9_10(1))
  with Dynamic show ?thesis
    by (simp add: mapping_deserialize_def)
next
  case (FixedAddress a)
  then show ?thesis by (simp add: mapping_deserialize_def)
qed

lemma deserialize_bool_serialize [simp]: "deserialize_bool msg [if b then 1 else 0] = Ok b"
  by (simp add: deserialize_bool_def)

lemma deserialize_opt_mapping_serialize [simp]:
  "deserialize_opt_mapping msg (opt_tag v) (opt_mapping_payload v) = Ok v"
  by (auto simp: deserialize_opt_mapping_def opt_tag_def opt_mapping_payload_def split: option.splits)

lemma deserialize_opt_u64_serialize [simp]:
  "deserialize_opt_u64 msg (opt_tag v) (opt_u64_payload v) = Ok v"
  by (auto simp: deserialize_opt_u64_def opt_tag_def opt_u64_payload_def split: option.splits)

lemma deserialize_version_bytes [simp]: "deserialize_version (version_bytes v @ s) = Ok (v, s)"
  by (simp add: deserialize_version_def version_bytes_def)

lemma deserialize_mappings_bytes [simp]: "deserialize_mappings (mappings_bytes m @ s) = Ok (m, s)"
  by (simp add: deserialize_mappings_def mappings_bytes_def)

lemma deserialize_frame_buffer_bytes [simp]:
  "deserialize_frame_buffer (frame_buffer_bytes fb) = Ok (fb, [])"
  by (simp add: deserialize_frame_buffer_def frame_buffer_bytes_def)

lemma length_serialize: "length (serialize c) = SERIALIZED_LEN"
  by (simp add: serialize_layout SERIALIZED_LEN_def)

subsection \<open>Printing what was parsed\<close>

lemma mapping_serialize_deserialize: "mapping_deserialize bs = Ok m \<Longrightarrow> mapping_serialize m = bs"
  by (auto simp: mapping_deserialize_def res_simps replicate_9_10(1) split: if_splits)

lemma serialize_bool_deserialize:
  "deserialize_bool msg b = Ok v \<Longrightarrow> [if v then 1 else 0] = b"
  by (auto simp: deserialize_bool_def split: if_splits)

lemma serialize_opt_mapping_deserialize:
  "deserialize_opt_mapping msg t p = Ok v \<Longrightarrow> opt_tag v = t \<and> opt_mapping_payload v = p"
  by (auto simp: deserialize_opt_mapping_def opt_tag_def opt_mapping_payload_def res_simps
      mapping_serialize_deserialize split: if_splits)

lemma serialize_opt_u64_deserialize:
  "deserialize_opt_u64 msg t p = Ok v \<Longrightarrow> length p = 8 \<Longrightarrow> opt_tag v = t \<and> opt_u64_payload v = p"
  by (auto simp: deserialize_opt_u64_def opt_tag_def opt_u64_payload_def split: if_splits)

lemmas serialize_parsed = mapping_serialize_deserialize serialize_bool_deserialize
  serialize_opt_mapping_deserialize

lemma version_bytes_deserialize:
  assumes "deserialize_version s = Ok (v, r)"
  shows "s = version_bytes v @ r"
  using assms by (auto simp: deserialize_version_def version_bytes_def res_simps
      dest!: serialize_bool_deserialize)

lemma mappings_bytes_deserialize:
  assumes "deserialize_mappings s = Ok (m, r)"
  shows "s = mappings_bytes m @ r"
  using assms unfolding deserialize_mappings_def
  by (elim split_array_ref_OkE bindR_OkE)
    ((drule serialize_parsed)+, (drule serialize_opt_u64_deserialize, assumption)+,
      auto simp: mappings_bytes_def)

lemma frame_buffer_bytes_deserialize:
  assumes "deserialize_frame_buffer s = Ok (fb, r)"
  shows "s = frame_buffer_bytes fb @ r"
  using assms by (auto simp: deserialize_frame_buffer_def frame_buffer_bytes_def res_simps
      dest!: serialize_opt_u64_deserialize)

subsection \<open>The parser never panics\<close>

lemma split_array_ref_panic [simp]: "is_panic (split_array_ref n s) \<longleftrightarrow> length s < n"
  by (auto simp: split_array_ref_def)

lemma mapping_deserialize_panic: "length bs = 9 \<Longrightarrow> \<not> is_panic (mapping_deserialize bs)"
  by (auto simp: mapping_deserialize_def res_simps)

lemma deserialize_opt_panic:
  "length p = 9 \<Longrightarrow> \<not> is_panic (deserialize_opt_mapping msg t p)"
  "\<not> is_panic (deserialize_opt_u64 msg t q)" "\<not> is_panic (deserialize_bool msg b)"
  by (auto simp: deserialize_opt_mapping_def deserialize_opt_u64_def deserialize_bool_def
      mapping_deserialize_panic)

lemma deserialize_version_panic: "7 \<le> length s \<Longrightarrow> \<not> is_panic (deserialize_version s)"
  by (auto simp: deserialize_version_def res_simps deserialize_opt_panic)

lemma deserialize_mappings_panic: "75 \<le> length s \<Longrightarrow> \<not> is_panic (deserialize_mappings s)"
  by (auto simp: deserialize_mappings_def res_simps deserialize_opt_panic mapping_deserialize_panic)

lemma deserialize_frame_buffer_panic:
  "18 \<le> length s \<Longrightarrow> \<not> is_panic (deserialize_frame_buffer s)"
  by (auto simp: deserialize_frame_buffer_def res_simps deserialize_opt_panic)

section \<open>Properties\<close>


text \<open>C17. The encoding is canonical: the parser accepts a byte string only if it is exactly what
  \<open>serialize\<close> prints for the configuration it returns (so no two byte strings parse to the
  same configuration, and the padding of absent fields is checked).
\<close>

theorem serialize_deserialize:
  assumes "deserialize s = Ok c"
  shows "serialize c = s"
proof -
  from assms obtain s1 v s2 b s3 m s4 fb where
    "s = UUID @ s1" "deserialize_version s1 = Ok (v, s2)" "length b = 8" "s2 = b @ s3"
    "deserialize_mappings s3 = Ok (m, s4)" "deserialize_frame_buffer s4 = Ok (fb, [])"
    and c: "c = \<lparr>version = v, mappings = m, kernel_stack_size = u64_from_le_bytes b,
      frame_buffer = fb\<rparr>"
    by (auto simp: deserialize_def res_simps split: if_splits)
  then have "s = UUID @ version_bytes v @ b @ mappings_bytes m @ frame_buffer_bytes fb"
    by (auto dest!: version_bytes_deserialize mappings_bytes_deserialize
        frame_buffer_bytes_deserialize)
  with c \<open>length b = 8\<close> show ?thesis by (simp add: serialize_layout)
qed

theorem serialize_deserialize_witness:
  "serialize (config_new_default \<lparr>version_major = 0, version_minor = 11, version_patch = 4,
       pre_release = False\<rparr>) =
   UUID @ [0, 0] @ [11, 0] @ [4, 0] @ [0] @ [0, 0x40, 1, 0, 0, 0, 0, 0] @
   replicate 9 0 @ replicate 9 0 @ replicate 9 0 @ [0] @ replicate 9 0 @ [0] @ replicate 9 0 @
   [0] @ [0] @ replicate 8 0 @ [0] @ replicate 8 0 @ replicate 9 0 @
   [0] @ replicate 8 0 @ [0] @ replicate 8 0"
  (is "serialize ?c = ?s")
proof -
  have "mapping_deserialize (replicate 9 0) = Ok Dynamic"
    using mapping_deserialize_serialize[of Dynamic] by simp
  then have "deserialize ?s = Ok ?c"
    by (simp add: deserialize_def deserialize_version_def deserialize_mappings_def
        deserialize_frame_buffer_def deserialize_bool_def deserialize_opt_mapping_def
        deserialize_opt_u64_def SERIALIZED_LEN_def u16_from_le_bytes_def u64_from_le_bytes_def
        config_new_default_def mappings_new_default_def mapping_new_default_def
        frame_buffer_new_default_def split_array_ref_Cons_numeral)
  then show ?thesis by (rule serialize_deserialize)
qed

text \<open>C18. The parser is total: on any input it returns a configuration or an error, and never
  panics on a slice that is too short.
\<close>

theorem deserialize_never_panics: "\<not> is_panic (deserialize s)"
proof (cases "length s = SERIALIZED_LEN")
  case False
  then show ?thesis by (simp add: deserialize_def)
next
  case True
  then show ?thesis
    by (auto simp: deserialize_def res_simps SERIALIZED_LEN_def deserialize_version_panic
        deserialize_mappings_panic deserialize_frame_buffer_panic
        dest!: version_bytes_deserialize mappings_bytes_deserialize frame_buffer_bytes_deserialize)
qed

end
