(* ===== verification/Boot_Info.thy ===== *)
theory Boot_Info
  imports Config
begin

text \<open>
  The information the bootloader hands to the kernel (\<^verbatim>\<open>src/api/src/info.rs\<close>): memory regions
  and their kinds, the frame buffer description, the TLS template, the FFI-safe option type
  and the \<open>BootInfo\<close> structure.  A \<open>MemoryRegions\<close> value (pointer and length) is the list of
  regions it denotes.  Fields are natural numbers, the values of the source's \<open>u64\<close> and
  \<open>usize\<close> fields.
\<close>

section \<open>Definitions\<close>

datatype memory_region_kind =
    Usable
  | Bootloader
  | UnknownUefi nat
  | UnknownBios nat

record memory_region =
  region_start :: nat
  region_end :: nat
  region_kind :: memory_region_kind

definition memory_region_empty :: memory_region where
  "memory_region_empty = \<lparr>region_start = 0, region_end = 0, region_kind = Bootloader\<rparr>"

datatype pixel_format =
    Rgb
  | Bgr
  | U8
  | Unknown (red_position: nat) (green_position: nat) (blue_position: nat)

record frame_buffer_info =
  byte_len :: nat
  width :: nat
  height :: nat
  pixel_format :: pixel_format
  bytes_per_pixel :: nat
  stride :: nat

record frame_buffer =
  buffer_start :: nat
  fb_info :: frame_buffer_info

definition frame_buffer_new :: "nat \<Rightarrow> frame_buffer_info \<Rightarrow> frame_buffer" where
  "frame_buffer_new start info = \<lparr>buffer_start = start, fb_info = info\<rparr>"

text \<open>The byte range that \<open>buffer\<close>, \<open>buffer_mut\<close> and \<open>into_buffer\<close> expose.\<close>

definition frame_buffer_buffer :: "frame_buffer \<Rightarrow> nat \<times> nat" where
  "frame_buffer_buffer fb = (buffer_start fb, byte_len (fb_info fb))"

record tls_template =
  start_addr :: nat
  file_size :: nat
  mem_size :: nat

datatype 'a optional = OptSome 'a | OptNone

fun optional_from :: "'a option \<Rightarrow> 'a optional" where
  "optional_from (Some v) = OptSome v"
| "optional_from None = OptNone"

fun into_option :: "'a optional \<Rightarrow> 'a option" where
  "into_option (OptSome v) = Some v"
| "into_option OptNone = None"

record boot_info =
  api_version :: api_version
  memory_regions :: "memory_region list"
  bi_framebuffer :: "frame_buffer optional"
  physical_memory_offset :: "nat optional"
  recursive_index :: "nat optional"
  rsdp_addr :: "nat optional"
  tls_template :: "tls_template optional"
  ramdisk_addr :: "nat optional"
  ramdisk_len :: nat
  kernel_addr :: nat
  kernel_len :: nat
  kernel_image_offset :: nat
  test_sentinel :: nat

definition boot_info_new :: "api_version \<Rightarrow> memory_region list \<Rightarrow> boot_info" where
  "boot_info_new v regions = \<lparr>
     api_version = v,
     memory_regions = regions,
     bi_framebuffer = OptNone,
     physical_memory_offset = OptNone,
     recursive_index = OptNone,
     rsdp_addr = OptNone,
     tls_template = OptNone,
     ramdisk_addr = OptNone,
     ramdisk_len = 0,
     kernel_addr = 0,
     kernel_len = 0,
     kernel_image_offset = 0,
     test_sentinel = 0\<rparr>"

text \<open>
  The order \<open>#[derive(PartialOrd, Ord)]\<close> gives \<open>Optional\<close>: the variants in the order they
  are declared, so \<open>Some\<close> comes before \<open>None\<close>.
\<close>

instantiation optional :: (linorder) linorder
begin

fun less_eq_optional :: "'a optional \<Rightarrow> 'a optional \<Rightarrow> bool" where
  "less_eq_optional x OptNone = True"
| "less_eq_optional OptNone (OptSome b) = False"
| "less_eq_optional (OptSome a) (OptSome b) = (a \<le> b)"

definition less_optional :: "'a optional \<Rightarrow> 'a optional \<Rightarrow> bool" where
  "less_optional x y \<longleftrightarrow> x \<le> y \<and> \<not> y \<le> x"

instance
proof
  fix x y z :: "'a optional"
  show "(x < y) = (x \<le> y \<and> \<not> y \<le> x)" by (simp add: less_optional_def)
  show "x \<le> x" by (cases x) auto
  show "x \<le> y \<Longrightarrow> y \<le> z \<Longrightarrow> x \<le> z" by (cases x; cases y; cases z) auto
  show "x \<le> y \<Longrightarrow> y \<le> x \<Longrightarrow> x = y" by (cases x; cases y) auto
  show "x \<le> y \<or> y \<le> x" by (cases x; cases y) auto
qed

end

section \<open>Lemmas\<close>

lemma into_option_from [simp]: "into_option (optional_from v) = v"
  by (cases v) auto

lemma optional_from_into [simp]: "optional_from (into_option v) = v"
  by (cases v) auto

end
