(* ===== verification/X86_Addresses.thy ===== *)
theory X86_Addresses
  imports Rust_Prelude
begin

text \<open>
  The part of the \<^verbatim>\<open>x86_64\<close> crate (version 0.14.10, not under \<^verbatim>\<open>src/\<close>) that the bootloader
  calls on addresses, frames and pages.  The crate is a parameter of the model: the record
  \<open>x86\<close> holds its operations, every definition that uses one takes the record as an
  argument, and the locale \<open>x86_64\<close> names what the crate documents about them.  A
  \<open>PhysAddr\<close> or \<open>VirtAddr\<close> is its \<open>u64\<close> value, a 4 KiB \<open>PhysFrame\<close> or \<open>Page\<close> its start
  address; a panic inside the crate is \<open>Panic External\<close>.  \<open>x86_ref\<close> computes the documented
  results; the locale is interpreted on it and the witnesses run on it.
\<close>

section \<open>Definitions\<close>

record x86 =
  phys_new :: "nat \<Rightarrow> nat res"                    \<comment> \<open>\<open>PhysAddr::new\<close>\<close>
  phys_add :: "nat \<Rightarrow> nat \<Rightarrow> nat res"             \<comment> \<open>\<open>PhysAddr + u64\<close>\<close>
  phys_sub :: "nat \<Rightarrow> nat \<Rightarrow> nat res"             \<comment> \<open>\<open>PhysAddr - u64\<close>\<close>
  phys_is_aligned :: "nat \<Rightarrow> nat \<Rightarrow> bool res"     \<comment> \<open>\<open>PhysAddr::is_aligned\<close>\<close>
  frame_containing :: "nat \<Rightarrow> nat"                \<comment> \<open>\<open>PhysFrame::containing_address\<close>\<close>
  frame_add :: "nat \<Rightarrow> nat \<Rightarrow> nat res"            \<comment> \<open>\<open>PhysFrame + u64\<close>\<close>
  frame_sub :: "nat \<Rightarrow> nat \<Rightarrow> nat res"            \<comment> \<open>\<open>PhysFrame - PhysFrame\<close>\<close>
  frame_range :: "nat \<Rightarrow> nat \<Rightarrow> nat list"         \<comment> \<open>\<open>PhysFrame::range_inclusive\<close>\<close>
  virt_new :: "nat \<Rightarrow> nat res"                    \<comment> \<open>\<open>VirtAddr::new\<close>\<close>
  virt_try_new :: "nat \<Rightarrow> nat option"             \<comment> \<open>\<open>VirtAddr::try_new(..).ok()\<close>\<close>
  virt_add :: "nat \<Rightarrow> nat \<Rightarrow> nat res"             \<comment> \<open>\<open>VirtAddr + u64\<close>, \<open>VirtAddr + usize\<close>\<close>
  virt_sub :: "nat \<Rightarrow> nat \<Rightarrow> nat res"             \<comment> \<open>\<open>VirtAddr - u64\<close>, \<open>VirtAddr - usize\<close>\<close>
  virt_is_aligned :: "nat \<Rightarrow> nat \<Rightarrow> bool res"     \<comment> \<open>\<open>VirtAddr::is_aligned\<close>\<close>
  virt_forward :: "nat \<Rightarrow> nat \<Rightarrow> nat option"      \<comment> \<open>\<open>Step::forward_checked\<close> on \<open>VirtAddr\<close>\<close>
  virt_steps :: "nat \<Rightarrow> nat \<Rightarrow> nat option"        \<comment> \<open>\<open>Step::steps_between\<close> on \<open>VirtAddr\<close>\<close>
  page_containing :: "nat \<Rightarrow> nat"                 \<comment> \<open>\<open>Page::containing_address\<close>\<close>
  page_add :: "nat \<Rightarrow> nat \<Rightarrow> nat res"             \<comment> \<open>\<open>Page + u64\<close>\<close>
  page_range :: "nat \<Rightarrow> nat \<Rightarrow> nat list"          \<comment> \<open>\<open>Page::range_inclusive\<close>, \<open>start..=end\<close>\<close>
  page_forward :: "nat \<Rightarrow> nat \<Rightarrow> nat option"      \<comment> \<open>\<open>Step::forward_checked\<close> on \<open>Page\<close>\<close>
  page_backward :: "nat \<Rightarrow> nat \<Rightarrow> nat option"     \<comment> \<open>\<open>Step::backward_checked\<close> on \<open>Page\<close>\<close>
  p4_index :: "nat \<Rightarrow> nat"                        \<comment> \<open>\<open>p4_index\<close> of a \<open>VirtAddr\<close> or a \<open>Page\<close>\<close>
  page_of_p4 :: "nat \<Rightarrow> nat"                      \<comment> \<open>\<open>Page::from_page_table_indices_1gib(i, 0).start_address()\<close>\<close>
  align_up :: "nat \<Rightarrow> nat \<Rightarrow> nat res"             \<comment> \<open>\<open>x86_64::align_up\<close>\<close>

text \<open>
  A virtual address is canonical when bits 48 to 63 repeat bit 47: the lower and the upper
  half of the address space, with the gap between them.
\<close>

definition canonical :: "nat \<Rightarrow> bool" where
  "canonical a \<longleftrightarrow> a < 2 ^ 47 \<or> (2 ^ 64 - 2 ^ 47 \<le> a \<and> a < 2 ^ 64)"

definition same_half :: "nat \<Rightarrow> nat \<Rightarrow> bool" where
  "same_half a b \<longleftrightarrow> (a < 2 ^ 47 \<and> b < 2 ^ 47) \<or>
     (2 ^ 64 - 2 ^ 47 \<le> a \<and> a < 2 ^ 64 \<and> 2 ^ 64 - 2 ^ 47 \<le> b \<and> b < 2 ^ 64)"

text \<open>\<open>VirtAddr::try_new\<close> sign-extends bit 47 when bits 48 to 63 are clear.\<close>

definition sign_extend :: "nat \<Rightarrow> nat option" where
  "sign_extend a =
     (if a < 2 ^ 47 then Some a
      else if a < 2 ^ 48 then Some (a + (2 ^ 64 - 2 ^ 48))
      else if 2 ^ 64 - 2 ^ 47 \<le> a \<and> a < 2 ^ 64 then Some a
      else None)"

definition steps_of :: "nat \<Rightarrow> nat \<Rightarrow> nat list" where
  "steps_of a b = (if b < a then [] else map (\<lambda>i. a + 4096 * i) [0..<(b - a) div 4096 + 1])"

definition is_pow2 :: "nat \<Rightarrow> bool" where
  "is_pow2 n \<longleftrightarrow> n \<in> set (map (\<lambda>k. 2 ^ k) [0..<64])"

definition x86_ref :: x86 where
  "x86_ref = \<lparr>
     phys_new = (\<lambda>a. if a < 2 ^ 52 then Ok a else Panic External),
     phys_add = (\<lambda>a b. if a + b < 2 ^ 52 then Ok (a + b) else Panic External),
     phys_sub = (\<lambda>a b. if b \<le> a then Ok (a - b) else Panic External),
     phys_is_aligned = (\<lambda>a n. if is_pow2 n then Ok (n dvd a) else Panic External),
     frame_containing = (\<lambda>a. a div 4096 * 4096),
     frame_add = (\<lambda>f n. if f + 4096 * n < 2 ^ 52 then Ok (f + 4096 * n) else Panic External),
     frame_sub = (\<lambda>f g. if g \<le> f then Ok ((f - g) div 4096) else Panic External),
     frame_range = steps_of,
     virt_new = (\<lambda>a. case sign_extend a of Some b \<Rightarrow> Ok b | None \<Rightarrow> Panic External),
     virt_try_new = sign_extend,
     virt_add = (\<lambda>a b. case sign_extend (a + b) of Some c \<Rightarrow> Ok c | None \<Rightarrow> Panic External),
     virt_sub = (\<lambda>a b. if a < b then Panic External
                      else case sign_extend (a - b) of Some c \<Rightarrow> Ok c | None \<Rightarrow> Panic External),
     virt_is_aligned = (\<lambda>a n. if is_pow2 n then Ok (n dvd a) else Panic External),
     virt_forward = (\<lambda>a n. if n > 2 ^ 48 \<or> a + n \<ge> 2 ^ 64 then None else sign_extend (a + n)),
     virt_steps = (\<lambda>a b. if a \<le> b then Some (b - a) else None),
     page_containing = (\<lambda>a. a div 4096 * 4096),
     page_add = (\<lambda>p n. case sign_extend (p + 4096 * n) of Some c \<Rightarrow> Ok c | None \<Rightarrow> Panic External),
     page_range = steps_of,
     page_forward = (\<lambda>p n. if 4096 * n > 2 ^ 48 \<or> p + 4096 * n \<ge> 2 ^ 64 then None
                          else sign_extend (p + 4096 * n)),
     page_backward = (\<lambda>p n. if p < 4096 * n then None
                           else if p = 2 ^ 64 - 2 ^ 47 \<and> n = 1 then Some (2 ^ 47 - 4096)
                           else Some (p - 4096 * n)),
     p4_index = (\<lambda>a. a div 2 ^ 39 mod 512),
     page_of_p4 = (\<lambda>i. if i < 256 then i * 2 ^ 39 else i * 2 ^ 39 + (2 ^ 64 - 2 ^ 48)),
     align_up = (\<lambda>a n. if is_pow2 n \<and> (a + (n - 1)) div n * n < 2 ^ 64
                     then Ok ((a + (n - 1)) div n * n) else Panic External)
   \<rparr>"

section \<open>The documented behaviour\<close>

locale x86_64 =
  fixes X :: x86
  assumes phys_new: "phys_new X a = (if a < 2 ^ 52 then Ok a else Panic External)"
    and phys_add: "phys_add X a b = (if a + b < 2 ^ 52 then Ok (a + b) else Panic External)"
    and phys_sub: "phys_sub X a b = (if b \<le> a then Ok (a - b) else Panic External)"
    and phys_is_aligned: "is_pow2 n \<Longrightarrow> phys_is_aligned X a n = Ok (n dvd a)"
    and frame_containing: "frame_containing X a = a div 4096 * 4096"
    and frame_add: "4096 dvd f \<Longrightarrow>
          frame_add X f n = (if f + 4096 * n < 2 ^ 52 then Ok (f + 4096 * n) else Panic External)"
    and frame_sub: "4096 dvd f \<Longrightarrow> 4096 dvd g \<Longrightarrow>
          frame_sub X f g = (if g \<le> f then Ok ((f - g) div 4096) else Panic External)"
    and frame_range: "4096 dvd f \<Longrightarrow> 4096 dvd g \<Longrightarrow> frame_range X f g = steps_of f g"
    and virt_new: "virt_new X a =
          (case sign_extend a of Some b \<Rightarrow> Ok b | None \<Rightarrow> Panic External)"
    and virt_try_new: "virt_try_new X a = sign_extend a"
    and virt_add: "canonical a \<Longrightarrow> virt_add X a b =
          (case sign_extend (a + b) of Some c \<Rightarrow> Ok c | None \<Rightarrow> Panic External)"
    and virt_sub: "canonical a \<Longrightarrow> virt_sub X a b = (if a < b then Panic External
          else case sign_extend (a - b) of Some c \<Rightarrow> Ok c | None \<Rightarrow> Panic External)"
    and virt_is_aligned: "virt_is_aligned X a n = (if is_pow2 n then Ok (n dvd a) else Panic External)"
    and virt_forward: "canonical a \<Longrightarrow> virt_forward X a n =
          (if n > 2 ^ 48 \<or> a + n \<ge> 2 ^ 64 then None else sign_extend (a + n))"
    and virt_steps: "same_half a b \<Longrightarrow> a \<le> b \<Longrightarrow> virt_steps X a b = Some (b - a)"
    and page_containing: "page_containing X a = a div 4096 * 4096"
    and page_add: "canonical p \<Longrightarrow> 4096 dvd p \<Longrightarrow> page_add X p n =
          (case sign_extend (p + 4096 * n) of Some c \<Rightarrow> Ok c | None \<Rightarrow> Panic External)"
    and page_range: "4096 dvd p \<Longrightarrow> 4096 dvd q \<Longrightarrow> same_half p q \<Longrightarrow> page_range X p q = steps_of p q"
    and page_range_empty: "q < p \<Longrightarrow> page_range X p q = []"
    and page_forward: "canonical p \<Longrightarrow> 4096 dvd p \<Longrightarrow> page_forward X p n =
          (if 4096 * n > 2 ^ 48 \<or> p + 4096 * n \<ge> 2 ^ 64 then None else sign_extend (p + 4096 * n))"
    and page_backward: "canonical p \<Longrightarrow> 4096 dvd p \<Longrightarrow> page_backward X p 1 =
          (if p < 4096 then None else if p = 2 ^ 64 - 2 ^ 47 then Some (2 ^ 47 - 4096)
           else Some (p - 4096))"
    and p4_index: "p4_index X a = a div 2 ^ 39 mod 512"
    and page_of_p4: "i < 512 \<Longrightarrow> page_of_p4 X i =
          (if i < 256 then i * 2 ^ 39 else i * 2 ^ 39 + (2 ^ 64 - 2 ^ 48))"
    and align_up: "is_pow2 n \<Longrightarrow> align_up X a n =
          (if (a + (n - 1)) div n * n < 2 ^ 64 then Ok ((a + (n - 1)) div n * n)
           else Panic External)"

section \<open>Lemmas\<close>

lemma is_pow2_4096 [simp]: "is_pow2 4096"
  by (simp add: is_pow2_def upt_rec)

lemma is_pow2_pos: "is_pow2 n \<Longrightarrow> 0 < n"
  by (auto simp: is_pow2_def)

lemma canonical_sign_extend [simp]: "canonical a \<Longrightarrow> sign_extend a = Some a"
  by (auto simp: canonical_def sign_extend_def)

lemma sign_extend_canonical: "sign_extend a = Some b \<Longrightarrow> canonical b"
  by (auto simp: canonical_def sign_extend_def split: if_splits)

lemma sign_extend_aligned:
  assumes "sign_extend a = Some b" and "n dvd a" and "n dvd 2 ^ 48"
  shows "n dvd b"
proof -
  have "(2 :: nat) ^ 64 - 2 ^ 48 = 2 ^ 48 * (2 ^ 16 - 1)" by simp
  with assms(3) have "n dvd (2 ^ 64 - 2 ^ 48 :: nat)"
    by (metis dvd_mult2)
  with assms show ?thesis
    by (auto simp: sign_extend_def split: if_splits)
qed

lemma same_half_canonical: "same_half a b \<Longrightarrow> canonical a \<and> canonical b"
  by (auto simp: same_half_def canonical_def)

lemma same_half_between: "same_half a b \<Longrightarrow> a \<le> c \<Longrightarrow> c \<le> b \<Longrightarrow> same_half a c \<and> same_half c b"
  by (auto simp: same_half_def)

lemma canonical_align_down: "canonical a \<Longrightarrow> canonical (a div 4096 * 4096)"
  by (auto simp: canonical_def)

lemma same_half_align_down: "same_half a b \<Longrightarrow> same_half (a div 4096 * 4096) b"
  by (auto simp: same_half_def)

lemma length_steps_of: "a \<le> b \<Longrightarrow> length (steps_of a b) = (b - a) div 4096 + 1"
  by (simp add: steps_of_def)

lemma nth_steps_of: "a \<le> b \<Longrightarrow> i \<le> (b - a) div 4096 \<Longrightarrow> steps_of a b ! i = a + 4096 * i"
  by (simp add: steps_of_def del: upt_Suc)

lemma set_steps_of:
  assumes "4096 dvd a" and "4096 dvd b"
  shows "set (steps_of a b) = {p. 4096 dvd p \<and> a \<le> p \<and> p \<le> b}"
proof -
  have "\<exists>i. p = a + 4096 * i \<and> i \<le> (b - a) div 4096" if "4096 dvd p" "a \<le> p" "p \<le> b" for p
  proof -
    from that(1,2) assms(1) obtain i where "p = a + 4096 * i"
      by (metis dvdE dvd_diff_nat le_add_diff_inverse)
    moreover from this that(3) have "i \<le> (b - a) div 4096" by linarith
    ultimately show ?thesis by blast
  qed
  moreover have "a + 4096 * i \<le> b" if "a \<le> b" "i \<le> (b - a) div 4096" for i
    using that by linarith
  ultimately show ?thesis
    using assms by (force simp: steps_of_def less_Suc_eq_le simp del: upt_Suc)
qed

lemma distinct_steps_of: "distinct (steps_of a b)"
  by (auto simp: steps_of_def distinct_map inj_on_def)

lemma x86_ref_x86_64: "x86_64 x86_ref"
  by unfold_locales
    (auto simp: x86_ref_def steps_of_def same_half_def canonical_def split: option.splits)

interpretation ref: x86_64 x86_ref
  by (rule x86_ref_x86_64)

end
