(* ===== verification/Memory_Regions.thy ===== *)
theory Memory_Regions
  imports Boot_Info X86_Addresses
begin

text \<open>
  The physical frame allocator and the memory map handed to the kernel
  (\<^verbatim>\<open>src/common/src/legacy_memory_region.rs\<close>), over the trait \<open>LegacyMemoryRegion\<close> and its two
  implementations, the BIOS e820 regions (\<^verbatim>\<open>src/bios/stage-4/src/memory_descriptor.rs\<close>) and the
  UEFI memory descriptors (\<^verbatim>\<open>src/uefi/src/memory_descriptor.rs\<close>).  A trait implementation is
  a record of its methods; an iterator over descriptors is the list of what it still yields.
  The locale \<open>memory_region_impl\<close> is the contract of the trait, \<open>frame_source\<close> the contract
  of a frame allocator (no frame twice), which the kernel loader relies on.
\<close>

section \<open>Definitions\<close>

subsection \<open>The trait and its implementations\<close>

record 'd region_trait =
  rt_start :: "'d \<Rightarrow> nat res"
  rt_len :: "'d \<Rightarrow> nat res"
  rt_kind :: "'d \<Rightarrow> memory_region_kind"
  rt_usable_after_bootloader_exit :: "'d \<Rightarrow> bool"

definition rt_is_empty :: "'d region_trait \<Rightarrow> 'd \<Rightarrow> bool res" where
  "rt_is_empty T d = bindR (rt_len T d) (\<lambda>l. Ok (l = 0))"

record e820_memory_region =
  e820_start_addr :: nat
  e820_len :: nat
  region_type :: nat
  acpi_extended_attributes :: nat

definition bios_kind :: "e820_memory_region \<Rightarrow> memory_region_kind" where
  "bios_kind d = (if region_type d = 1 then Usable else UnknownBios (region_type d))"

definition bios_region :: "x86 \<Rightarrow> e820_memory_region region_trait" where
  "bios_region X = \<lparr>
     rt_start = (\<lambda>d. phys_new X (e820_start_addr d)),
     rt_len = (\<lambda>d. Ok (e820_len d)),
     rt_kind = bios_kind,
     rt_usable_after_bootloader_exit = (\<lambda>d. bios_kind d = Usable)\<rparr>"

text \<open>
  The memory types of the \<^verbatim>\<open>uefi\<close> crate the source names; \<open>tag\<close> below is the number the
  crate stores for each (\<open>MemoryType.0\<close>).
\<close>

datatype uefi_memory_type =
    CONVENTIONAL
  | LOADER_CODE
  | LOADER_DATA
  | BOOT_SERVICES_CODE
  | BOOT_SERVICES_DATA
  | RUNTIME_SERVICES_CODE
  | RUNTIME_SERVICES_DATA
  | OTHER_TYPE nat

record uefi_memory_descriptor =
  ty :: uefi_memory_type
  phys_start :: nat
  page_count :: nat

definition uefi_kind :: "(uefi_memory_type \<Rightarrow> nat) \<Rightarrow> uefi_memory_descriptor \<Rightarrow> memory_region_kind" where
  "uefi_kind tag d = (case ty d of CONVENTIONAL \<Rightarrow> Usable | other \<Rightarrow> UnknownUefi (tag other))"

definition uefi_usable_after_bootloader_exit :: "uefi_memory_descriptor \<Rightarrow> bool" where
  "uefi_usable_after_bootloader_exit d = (case ty d of
       CONVENTIONAL \<Rightarrow> True
     | LOADER_CODE \<Rightarrow> True | LOADER_DATA \<Rightarrow> True
     | BOOT_SERVICES_CODE \<Rightarrow> True | BOOT_SERVICES_DATA \<Rightarrow> True
     | RUNTIME_SERVICES_CODE \<Rightarrow> False | RUNTIME_SERVICES_DATA \<Rightarrow> False
     | OTHER_TYPE _ \<Rightarrow> False)"

definition uefi_region :: "x86 \<Rightarrow> (uefi_memory_type \<Rightarrow> nat) \<Rightarrow> uefi_memory_descriptor region_trait" where
  "uefi_region X tag = \<lparr>
     rt_start = (\<lambda>d. phys_new X (phys_start d)),
     rt_len = (\<lambda>d. mul_u64 (page_count d) 4096),
     rt_kind = uefi_kind tag,
     rt_usable_after_bootloader_exit = uefi_usable_after_bootloader_exit\<rparr>"

subsection \<open>The frame allocator\<close>

record 'd legacy_frame_allocator =
  original :: "'d list"
  memory_map :: "'d list"
  current_descriptor :: "'d option"
  next_frame :: nat

definition new_starting_at :: "nat \<Rightarrow> 'd list \<Rightarrow> 'd legacy_frame_allocator" where
  "new_starting_at frame m = \<lparr>
     original = m,
     memory_map = m,
     current_descriptor = None,
     next_frame = frame\<rparr>"

definition frame_allocator_new :: "x86 \<Rightarrow> 'd list \<Rightarrow> 'd legacy_frame_allocator res" where
  "frame_allocator_new X m =
     bindR (phys_new X 0x1000) (\<lambda>addr.
       Ok (new_starting_at (frame_containing X addr) m))"

definition allocate_frame_from_descriptor ::
    "x86 \<Rightarrow> 'd region_trait \<Rightarrow> 'd legacy_frame_allocator \<Rightarrow> 'd \<Rightarrow>
     (nat option \<times> 'd legacy_frame_allocator) res" where
  "allocate_frame_from_descriptor X T fa descriptor =
     bindR (rt_start T descriptor) (\<lambda>start.
     let start_frame = frame_containing X start in
     bindR (rt_len T descriptor) (\<lambda>len.
     bindR (phys_add X start len) (\<lambda>end_addr.
     bindR (phys_sub X end_addr 1) (\<lambda>last.
     let end_frame = frame_containing X last;
         fa = (if next_frame fa < start_frame then fa\<lparr>next_frame := start_frame\<rparr> else fa)
     in if next_frame fa \<le> end_frame then
          bindR (frame_add X (next_frame fa) 1) (\<lambda>next.
            Ok (Some (next_frame fa), fa\<lparr>next_frame := next\<rparr>))
        else Ok (None, fa)))))"

definition frame_allocator_len :: "'d legacy_frame_allocator \<Rightarrow> nat" where
  "frame_allocator_len fa = length (original fa)"

definition frame_allocator_is_empty :: "'d legacy_frame_allocator \<Rightarrow> bool" where
  "frame_allocator_is_empty fa \<longleftrightarrow> frame_allocator_len fa = 0"

text \<open>\<open>Iterator::max\<close>.\<close>

fun iter_max :: "nat list \<Rightarrow> nat option" where
  "iter_max [] = None"
| "iter_max (x # xs) = Some (fold max xs x)"

definition max_phys_addr :: "x86 \<Rightarrow> 'd region_trait \<Rightarrow> 'd legacy_frame_allocator \<Rightarrow> nat res" where
  "max_phys_addr X T fa =
     bindR (mapR (\<lambda>r. bindR (rt_start T r) (\<lambda>start.
                      bindR (rt_len T r) (\<lambda>len. phys_add X start len))) (original fa))
       (\<lambda>ends. expect_some ''called `Option::unwrap()` on a `None` value'' (iter_max ends))"

text \<open>The \<open>while let\<close> loop of \<open>allocate_frame\<close>, over what the iterator still yields.\<close>

fun allocate_from_map ::
    "x86 \<Rightarrow> 'd region_trait \<Rightarrow> 'd legacy_frame_allocator \<Rightarrow> 'd list \<Rightarrow>
     (nat option \<times> 'd legacy_frame_allocator) res" where
  "allocate_from_map X T fa [] = Ok (None, fa\<lparr>memory_map := []\<rparr>)"
| "allocate_from_map X T fa (descriptor # rest) =
     (if rt_kind T descriptor \<noteq> Usable then allocate_from_map X T fa rest
      else bindR (allocate_frame_from_descriptor X T fa descriptor) (\<lambda>(frame, fa).
        case frame of
          Some f \<Rightarrow> Ok (Some f, fa\<lparr>memory_map := rest, current_descriptor := Some descriptor\<rparr>)
        | None \<Rightarrow> allocate_from_map X T fa rest))"

definition allocate_frame ::
    "x86 \<Rightarrow> 'd region_trait \<Rightarrow> 'd legacy_frame_allocator \<Rightarrow>
     (nat option \<times> 'd legacy_frame_allocator) res" where
  "allocate_frame X T fa =
     (case current_descriptor fa of
        Some current \<Rightarrow>
          bindR (allocate_frame_from_descriptor X T fa current) (\<lambda>(frame, fa).
            case frame of
              Some f \<Rightarrow> Ok (Some f, fa)
            | None \<Rightarrow> allocate_from_map X T (fa\<lparr>current_descriptor := None\<rparr>) (memory_map fa))
      | None \<Rightarrow> allocate_from_map X T fa (memory_map fa))"

subsection \<open>The memory map for the kernel\<close>

text \<open>
  The slice \<open>regions\<close> of capacity \<open>cap\<close> together with \<open>next_index\<close> is the list of the
  entries written so far.
\<close>

definition add_region :: "nat \<Rightarrow> memory_region \<Rightarrow> memory_region list \<Rightarrow> memory_region list res" where
  "add_region cap region regions =
     (if region_start region = region_end region then Ok regions
      else if length regions < cap then Ok (regions @ [region])
      else Panic (Explicit ''cannot add region: no more free entries in memory map''))"

text \<open>
  The body of the loop over the descriptors, in its two halves: the region's kind (with the
  used part of a partly used region added at once), and the region itself, split around the
  kernel's file.
\<close>

definition classify_descriptor ::
    "'d region_trait \<Rightarrow> nat \<Rightarrow> nat \<Rightarrow> 'd \<Rightarrow> nat \<Rightarrow> nat \<Rightarrow> memory_region list \<Rightarrow>
     (memory_region_kind \<times> nat \<times> memory_region list) res" where
  "classify_descriptor T next_free cap descriptor start end_addr regions =
     (if rt_kind T descriptor = Usable then
        if end_addr \<le> next_free then Ok (Bootloader, start, regions)
        else if start \<ge> next_free then Ok (Usable, start, regions)
        else bindR (add_region cap \<lparr>region_start = start, region_end = next_free,
                                    region_kind = Bootloader\<rparr> regions)
               (\<lambda>regions. Ok (Usable, next_free, regions))
      else if rt_usable_after_bootloader_exit T descriptor then Ok (Usable, start, regions)
      else Ok (rt_kind T descriptor, start, regions))"

definition add_around_kernel ::
    "nat \<Rightarrow> nat \<Rightarrow> nat \<Rightarrow> memory_region \<Rightarrow> memory_region list \<Rightarrow> memory_region list res" where
  "add_around_kernel cap kernel_slice_start kernel_slice_len region regions =
     bindR (add_u64 kernel_slice_start kernel_slice_len) (\<lambda>kernel_slice_end.
     if region_kind region = Usable \<and> kernel_slice_start < region_end region
        \<and> kernel_slice_end > region_start region then
       bindR (assertR ''region overlaps with kernel, but kernel begins before region''
                (kernel_slice_start \<ge> region_start region)) (\<lambda>_.
       bindR (assertR ''region overlaps with kernel, but region ends before kernel''
                (kernel_slice_end \<le> region_end region)) (\<lambda>_.
       bindR (add_region cap (region\<lparr>region_end := kernel_slice_start\<rparr>) regions) (\<lambda>regions.
       bindR (add_region cap \<lparr>region_start = kernel_slice_start, region_end = kernel_slice_end,
                              region_kind = Bootloader\<rparr> regions) (\<lambda>regions.
       add_region cap (region\<lparr>region_start := kernel_slice_end\<rparr>) regions))))
     else add_region cap region regions)"

definition construct_region ::
    "x86 \<Rightarrow> 'd region_trait \<Rightarrow> nat \<Rightarrow> nat \<Rightarrow> nat \<Rightarrow> nat \<Rightarrow> 'd \<Rightarrow> memory_region list \<Rightarrow>
     memory_region list res" where
  "construct_region X T next_free cap kernel_slice_start kernel_slice_len descriptor regions =
     bindR (rt_start T descriptor) (\<lambda>start.
     bindR (rt_len T descriptor) (\<lambda>len.
     bindR (phys_add X start len) (\<lambda>end_addr.
     bindR (classify_descriptor T next_free cap descriptor start end_addr regions)
       (\<lambda>(kind, start, regions).
     add_around_kernel cap kernel_slice_start kernel_slice_len
       \<lparr>region_start = start, region_end = end_addr, region_kind = kind\<rparr> regions))))"

definition construct_memory_map ::
    "x86 \<Rightarrow> 'd region_trait \<Rightarrow> 'd legacy_frame_allocator \<Rightarrow> nat \<Rightarrow> nat \<Rightarrow> nat \<Rightarrow>
     memory_region list res" where
  "construct_memory_map X T fa cap kernel_slice_start kernel_slice_len =
     foldR (construct_region X T (next_frame fa) cap kernel_slice_start kernel_slice_len)
       (original fa) []"

subsection \<open>Specification vocabulary\<close>

text \<open>
  The span of a descriptor, the bytes of a descriptor and of a region, and the frames an
  allocator may take from a descriptor.
\<close>

definition d_ok :: "'d region_trait \<Rightarrow> 'd \<Rightarrow> bool" where
  "d_ok T d \<longleftrightarrow> is_ok (rt_start T d) \<and> is_ok (rt_len T d)"

definition d_start :: "'d region_trait \<Rightarrow> 'd \<Rightarrow> nat" where
  "d_start T d = (case rt_start T d of Ok s \<Rightarrow> s | _ \<Rightarrow> 0)"

definition d_end :: "'d region_trait \<Rightarrow> 'd \<Rightarrow> nat" where
  "d_end T d = d_start T d + (case rt_len T d of Ok l \<Rightarrow> l | _ \<Rightarrow> 0)"

definition d_bytes :: "'d region_trait \<Rightarrow> 'd \<Rightarrow> nat set" where
  "d_bytes T d = {a. d_start T d \<le> a \<and> a < d_end T d}"

definition r_bytes :: "memory_region \<Rightarrow> nat set" where
  "r_bytes r = {a. region_start r \<le> a \<and> a < region_end r}"

definition d_frames :: "'d region_trait \<Rightarrow> 'd \<Rightarrow> nat set" where
  "d_frames T d = {f. d_ok T d \<and> 4096 dvd f \<and> d_start T d div 4096 * 4096 \<le> f \<and>
     f \<le> (d_end T d - 1) div 4096 * 4096}"

definition usable_frames :: "'d region_trait \<Rightarrow> 'd list \<Rightarrow> nat set" where
  "usable_frames T ds = {f. \<exists>d \<in> set ds. rt_kind T d = Usable \<and> f \<in> d_frames T d}"

definition free_frames :: "'d region_trait \<Rightarrow> 'd legacy_frame_allocator \<Rightarrow> nat set" where
  "free_frames T fa = {f \<in> usable_frames T (original fa). next_frame fa \<le> f}"

definition exhausted :: "'d region_trait \<Rightarrow> nat \<Rightarrow> 'd \<Rightarrow> bool" where
  "exhausted T n d \<longleftrightarrow> rt_kind T d = Usable \<longrightarrow> (\<forall>f \<in> d_frames T d. f < n)"

definition sorted_map :: "'d region_trait \<Rightarrow> 'd list \<Rightarrow> bool" where
  "sorted_map T ds \<longleftrightarrow> sorted (map (d_start T) ds)"

text \<open>
  The allocator's invariant: the descriptors already taken from the iterator have no frame
  left, but for the current one.
\<close>

definition allocator_inv :: "'d region_trait \<Rightarrow> 'd legacy_frame_allocator \<Rightarrow> bool" where
  "allocator_inv T fa \<longleftrightarrow> 4096 dvd next_frame fa \<and>
     (\<exists>taken. original fa = taken @ memory_map fa \<and>
        (\<forall>d. current_descriptor fa = Some d \<longrightarrow> rt_kind T d = Usable \<and> d \<in> set taken) \<and>
        (\<forall>d \<in> set taken. current_descriptor fa = Some d \<or> exhausted T (next_frame fa) d))"

text \<open>
  What one allocation promises: the least free frame when the descriptors \<open>ds\<close> still to be
  visited are sorted, some free frame otherwise, and nothing when none is left.
\<close>

definition outcome :: "'d region_trait \<Rightarrow> 'd list \<Rightarrow> 'd legacy_frame_allocator \<Rightarrow> nat option \<Rightarrow>
    'd legacy_frame_allocator \<Rightarrow> bool" where
  "outcome T ds fa r fa' \<longleftrightarrow> allocator_inv T fa' \<and> original fa' = original fa \<and>
    (r = None \<longrightarrow> free_frames T fa' = {} \<and> next_frame fa \<le> next_frame fa') \<and>
    (\<forall>f. r = Some f \<longrightarrow> f \<in> free_frames T fa \<and> next_frame fa' = f + 4096) \<and>
    (sorted_map T ds \<longrightarrow> (\<forall>g \<in> free_frames T fa. \<exists>f. r = Some f \<and> f \<le> g))"

text \<open>Repeated allocation, until \<open>n\<close> frames are taken or none is left.\<close>

primrec allocate_many :: "('s \<Rightarrow> (nat option \<times> 's) res) \<Rightarrow> nat \<Rightarrow> 's \<Rightarrow> (nat list \<times> 's) res" where
  "allocate_many alloc 0 s = Ok ([], s)"
| "allocate_many alloc (Suc n) s = bindR (alloc s) (\<lambda>(r, s). case r of
       None \<Rightarrow> Ok ([], s)
     | Some f \<Rightarrow> bindR (allocate_many alloc n s) (\<lambda>(fs, s). Ok (f # fs, s)))"

text \<open>
  What the memory map should say of an address \<open>a\<close> of the descriptor \<open>d\<close>: memory below the
  next free frame and the kernel's own file are in use, everything else keeps its kind or
  becomes usable.
\<close>

definition kind_at :: "'d region_trait \<Rightarrow> nat \<Rightarrow> nat \<Rightarrow> nat \<Rightarrow> 'd \<Rightarrow> nat \<Rightarrow> memory_region_kind" where
  "kind_at T next_free kernel_start kernel_end d a =
     (if \<not> rt_usable_after_bootloader_exit T d then rt_kind T d
      else if rt_kind T d = Usable \<and> a < next_free \<or> kernel_start \<le> a \<and> a < kernel_end
      then Bootloader else Usable)"

text \<open>Non-empty regions that follow each other without a gap from \<open>s\<close> to \<open>e\<close>.\<close>

fun chain :: "nat \<Rightarrow> memory_region list \<Rightarrow> nat \<Rightarrow> bool" where
  "chain s [] e \<longleftrightarrow> s = e"
| "chain s (r # rs) e \<longleftrightarrow> region_start r = s \<and> s < region_end r \<and> chain (region_end r) rs e"

definition split_by_next :: "'d region_trait \<Rightarrow> nat \<Rightarrow> 'd \<Rightarrow> bool" where
  "split_by_next T next_free d \<longleftrightarrow> d_start T d < next_free \<and> next_free < d_end T d"

definition holds_kernel :: "'d region_trait \<Rightarrow> nat \<Rightarrow> nat \<Rightarrow> 'd \<Rightarrow> bool" where
  "holds_kernel T kernel_start kernel_end d \<longleftrightarrow>
     d_start T d \<le> kernel_start \<and> kernel_end \<le> d_end T d \<and> kernel_start < d_end T d"

text \<open>The most regions a descriptor can become.\<close>

definition region_bound :: "'d region_trait \<Rightarrow> nat \<Rightarrow> nat \<Rightarrow> nat \<Rightarrow> 'd \<Rightarrow> nat" where
  "region_bound T next_free kernel_start kernel_end d =
     1 + (if split_by_next T next_free d then 1 else 0)
       + (if holds_kernel T kernel_start kernel_end d then 2 else 0)"

definition map_bound :: "'d region_trait \<Rightarrow> nat \<Rightarrow> nat \<Rightarrow> nat \<Rightarrow> 'd list \<Rightarrow> nat" where
  "map_bound T next_free kernel_start kernel_end ds = length ds
     + (if \<exists>d \<in> set ds. split_by_next T next_free d then 1 else 0)
     + (if \<exists>d \<in> set ds. holds_kernel T kernel_start kernel_end d then 2 else 0)"

text \<open>The regions \<open>new\<close> describe the descriptor \<open>d\<close>: its bytes in order, each with its kind.\<close>

definition describes :: "'d region_trait \<Rightarrow> nat \<Rightarrow> nat \<Rightarrow> nat \<Rightarrow> 'd \<Rightarrow> memory_region list \<Rightarrow> bool" where
  "describes T next_free kernel_start kernel_end d new \<longleftrightarrow> chain (d_start T d) new (d_end T d) \<and>
     (\<forall>r \<in> set new. \<forall>a \<in> r_bytes r.
        region_kind r = kind_at T next_free kernel_start kernel_end d a)"

text \<open>
  The kernel's file lies outside the memory that becomes usable, below the next free frame,
  or entirely inside one descriptor's unused part.
\<close>

definition kernel_placed :: "'d region_trait \<Rightarrow> nat \<Rightarrow> nat \<Rightarrow> nat \<Rightarrow> 'd \<Rightarrow> bool" where
  "kernel_placed T next_free kernel_start kernel_end d \<longleftrightarrow>
     \<not> rt_usable_after_bootloader_exit T d \<or>
     d_end T d \<le> kernel_start \<or> kernel_end \<le> d_start T d \<or>
     rt_kind T d = Usable \<and> (kernel_end \<le> next_free \<or> d_end T d \<le> next_free) \<or>
     d_start T d \<le> kernel_start \<and> kernel_end \<le> d_end T d \<and>
       (rt_kind T d = Usable \<longrightarrow> next_free \<le> kernel_start)"

definition disjoint_map :: "'d region_trait \<Rightarrow> 'd list \<Rightarrow> bool" where
  "disjoint_map T ds \<longleftrightarrow> sorted_wrt (\<lambda>d d'. d_end T d \<le> d_start T d') ds"

definition d_valid :: "'d region_trait \<Rightarrow> 'd \<Rightarrow> bool" where
  "d_valid T d \<longleftrightarrow> d_ok T d \<and> d_start T d < d_end T d \<and> d_end T d \<le> 2 ^ 52 - 4096"

text \<open>A small memory map and the regions made of it, for the examples.\<close>

definition example_map :: "e820_memory_region list" where
  "example_map =
     [\<lparr>e820_start_addr = 0x100000, e820_len = 0x4000, region_type = 1, acpi_extended_attributes = 1\<rparr>,
      \<lparr>e820_start_addr = 0x104000, e820_len = 0x1000, region_type = 2, acpi_extended_attributes = 1\<rparr>,
      \<lparr>e820_start_addr = 0x105000, e820_len = 0x3000, region_type = 1, acpi_extended_attributes = 1\<rparr>]"

definition example_regions :: "memory_region list" where
  "example_regions =
     [\<lparr>region_start = 0x100000, region_end = 0x102000, region_kind = Bootloader\<rparr>,
      \<lparr>region_start = 0x102000, region_end = 0x104000, region_kind = Usable\<rparr>,
      \<lparr>region_start = 0x104000, region_end = 0x105000, region_kind = UnknownBios 2\<rparr>,
      \<lparr>region_start = 0x105000, region_end = 0x106000, region_kind = Usable\<rparr>,
      \<lparr>region_start = 0x106000, region_end = 0x107000, region_kind = Bootloader\<rparr>,
      \<lparr>region_start = 0x107000, region_end = 0x108000, region_kind = Usable\<rparr>]"

section \<open>The contract of a memory region\<close>

locale memory_region_impl = x86_64 X for X :: x86 +
  fixes T :: "'d region_trait"
  assumes usable_stays: "rt_kind T d = Usable \<Longrightarrow> rt_usable_after_bootloader_exit T d"
    and no_bootloader_region: "rt_kind T d \<noteq> Bootloader"
    and start_physical: "rt_start T d = Ok a \<Longrightarrow> a < 2 ^ 52"
begin

lemma from_descriptor:
  assumes "allocate_frame_from_descriptor X T fa d = Ok (r, fa')" and "4096 dvd next_frame fa"
  defines "n \<equiv> max (next_frame fa) (d_start T d div 4096 * 4096)"
    and "e \<equiv> (d_end T d - 1) div 4096 * 4096"
  shows "d_ok T d" and "r = (if n \<le> e then Some n else None)"
    and "fa' = fa\<lparr>next_frame := (if n \<le> e then n + 4096 else n)\<rparr>" and "4096 dvd n"
proof -
  show dvd: "4096 dvd n" using assms(2) by (simp add: n_def max_def)
  show "d_ok T d" and "r = (if n \<le> e then Some n else None)"
    and "fa' = fa\<lparr>next_frame := (if n \<le> e then n + 4096 else n)\<rparr>"
    using assms(1) dvd unfolding n_def e_def
    by (auto simp: allocate_frame_from_descriptor_def res_simps d_ok_def d_start_def d_end_def
        phys_add phys_sub frame_containing frame_add max_def Let_def split: if_splits)
qed

lemma exhausted_mono: "exhausted T n d \<Longrightarrow> n \<le> m \<Longrightarrow> exhausted T m d"
  by (force simp: exhausted_def)

lemma in_d_frames_ge: "f \<in> d_frames T d \<Longrightarrow> d_start T d div 4096 * 4096 \<le> f"
  by (simp add: d_frames_def)

lemma aligned_less_next: "4096 dvd (f :: nat) \<Longrightarrow> 4096 dvd n \<Longrightarrow> f \<le> n \<longleftrightarrow> f < n + 4096"
  by (auto elim!: dvdE)

lemma free_ge:
  assumes "original fa = taken @ ds" and "\<forall>d' \<in> set ds. d_start T d \<le> d_start T d'"
    and "\<forall>d' \<in> set taken. d' = d \<or> exhausted T (next_frame fa) d'" and "g \<in> free_frames T fa"
  shows "max (next_frame fa) (d_start T d div 4096 * 4096) \<le> g"
proof -
  from assms(4) obtain d' where d': "d' \<in> set (taken @ ds)" "rt_kind T d' = Usable"
    "g \<in> d_frames T d'" and ge: "next_frame fa \<le> g"
    by (auto simp: free_frames_def usable_frames_def assms(1))
  with assms(3) have "d' = d \<or> d' \<in> set ds"
    by (fastforce simp: exhausted_def)
  with assms(2) have "d_start T d div 4096 * 4096 \<le> d_start T d' div 4096 * 4096"
    by (auto intro: div_le_mono)
  with in_d_frames_ge[OF d'(3)] ge show ?thesis by simp
qed

lemma from_descriptor_in_free:
  assumes "rt_kind T d = Usable" and "d \<in> set (original fa)" and "d_ok T d" and "4096 dvd n"
    and "n = max (next_frame fa) (d_start T d div 4096 * 4096)"
    and "n \<le> (d_end T d - 1) div 4096 * 4096"
  shows "n \<in> free_frames T fa"
  using assms by (auto simp: free_frames_def usable_frames_def d_frames_def)

lemma from_descriptor_exhausts:
  assumes "\<not> max (next_frame fa) (d_start T d div 4096 * 4096) \<le> (d_end T d - 1) div 4096 * 4096"
  shows "exhausted T (max (next_frame fa) (d_start T d div 4096 * 4096)) d"
  using assms by (auto simp: exhausted_def d_frames_def)

lemma exhausted_later:
  "\<forall>d' \<in> set taken. d' = d \<or> exhausted T n d' \<Longrightarrow> n \<le> m \<Longrightarrow>
   \<forall>d' \<in> set taken. d' = d \<or> exhausted T m d'"
  using exhausted_mono by blast

text \<open>The two ways a visited usable descriptor ends: it yields a frame, or it has none left.\<close>

lemma outcome_some:
  assumes "rt_kind T d = Usable" and "original fa = taken @ ds" and "d \<in> set taken" and "d_ok T d"
    and "4096 dvd n" and n: "n = max (next_frame fa) (d_start T d div 4096 * 4096)"
    and "n \<le> (d_end T d - 1) div 4096 * 4096"
    and "\<forall>d' \<in> set taken. d' = d \<or> exhausted T (next_frame fa) d'"
    and "sorted_map T ds' \<Longrightarrow> \<forall>d' \<in> set ds. d_start T d \<le> d_start T d'"
  shows "outcome T ds' fa (Some n)
    (fa\<lparr>next_frame := n + 4096, memory_map := ds, current_descriptor := Some d\<rparr>)"
proof -
  have "n \<in> free_frames T fa"
    using from_descriptor_in_free[OF assms(1) _ assms(4,5) n assms(7)] assms(2,3) by simp
  moreover have "\<forall>d' \<in> set taken. d' = d \<or> exhausted T (n + 4096) d'"
    using exhausted_later[OF assms(8), of "n + 4096"] n by simp
  moreover have "\<forall>g \<in> free_frames T fa. n \<le> g" if "sorted_map T ds'"
    using free_ge[OF assms(2) assms(9)[OF that] assms(8)] n by blast
  ultimately show ?thesis
    using assms(1,2,3,5) by (auto simp: outcome_def allocator_inv_def)
qed

lemma outcome_skip:
  assumes "outcome T ds (fa\<lparr>next_frame := n\<rparr>) r fa'"
    and n: "n = max (next_frame fa) (d_start T d div 4096 * 4096)"
    and "original fa = taken @ ds" and "\<forall>d' \<in> set taken. d' = d \<or> exhausted T (next_frame fa) d'"
    and sorted: "sorted_map T ds' \<Longrightarrow> sorted_map T ds \<and> (\<forall>d' \<in> set ds. d_start T d \<le> d_start T d')"
  shows "outcome T ds' fa r fa'"
proof -
  have "free_frames T (fa\<lparr>next_frame := n\<rparr>) \<subseteq> free_frames T fa" "next_frame fa \<le> n"
    using n by (auto simp: free_frames_def)
  moreover have "free_frames T fa \<subseteq> free_frames T (fa\<lparr>next_frame := n\<rparr>)" if "sorted_map T ds'"
    using free_ge[OF assms(3) _ assms(4)] sorted[OF that] n by (auto simp: free_frames_def)
  ultimately show ?thesis
    using assms(1) sorted unfolding outcome_def by (auto; meson subsetD order_trans)
qed

lemma outcome_current [simp]:
  "outcome T ds (fa\<lparr>current_descriptor := c\<rparr>) r fa' = outcome T ds fa r fa'"
  by (simp add: outcome_def free_frames_def)

lemma outcome_shorter: "outcome T ds fa r fa' \<Longrightarrow> outcome T (d # ds) fa r fa'"
  by (auto simp: outcome_def sorted_map_def)

lemma sorted_map_Cons:
  "sorted_map T (d # ds) \<Longrightarrow> sorted_map T ds \<and> (\<forall>d' \<in> set ds. d_start T d \<le> d_start T d')"
  by (simp add: sorted_map_def)

lemma sorted_map_append:
  "sorted_map T (taken @ ds) \<Longrightarrow> d \<in> set taken \<Longrightarrow>
   sorted_map T ds \<and> (\<forall>d' \<in> set ds. d_start T d \<le> d_start T d')"
  by (auto simp: sorted_map_def sorted_append)

text \<open>What the loop over the remaining descriptors returns.\<close>

lemma allocate_from_map_outcome:
  assumes "allocate_from_map X T fa ds = Ok (r, fa')" and "4096 dvd next_frame fa"
    and "current_descriptor fa = None" and "original fa = taken @ ds"
    and "\<forall>d \<in> set taken. exhausted T (next_frame fa) d"
  shows "outcome T ds fa r fa'"
  using assms
proof (induction ds arbitrary: fa taken)
  case Nil
  then show ?case
    by (fastforce simp: outcome_def allocator_inv_def free_frames_def usable_frames_def exhausted_def)
next
  case (Cons d ds)
  let ?n = "max (next_frame fa) (d_start T d div 4096 * 4096)"
  show ?case
  proof (cases "rt_kind T d = Usable")
    case False
    then have "exhausted T (next_frame fa) d" by (simp add: exhausted_def)
    with Cons.IH[of fa "taken @ [d]"] Cons.prems False show ?thesis
      by (auto intro: outcome_shorter)
  next
    case True
    with Cons.prems(1) obtain r1 fa1 where one:
      "allocate_frame_from_descriptor X T fa d = Ok (r1, fa1)" and
      rest: "(case r1 of Some f \<Rightarrow> Ok (Some f, fa1\<lparr>memory_map := ds, current_descriptor := Some d\<rparr>)
         | None \<Rightarrow> allocate_from_map X T fa1 ds) = Ok (r, fa')"
      by (auto simp: res_simps)
    note spec = from_descriptor[OF one Cons.prems(2)]
    have taken: "original fa = (taken @ [d]) @ ds" "d \<in> set (taken @ [d])"
      "\<forall>d' \<in> set (taken @ [d]). d' = d \<or> exhausted T (next_frame fa) d'"
      using Cons.prems(4,5) by auto
    show ?thesis
    proof (cases "?n \<le> (d_end T d - 1) div 4096 * 4096")
      case More: True
      with spec(2,3) rest outcome_some[OF True taken(1,2) spec(1,4) refl More taken(3)]
        sorted_map_Cons[of d ds]
      show ?thesis by auto
    next
      case Done: False
      have "\<forall>d \<in> set (taken @ [d]). exhausted T ?n d"
        using exhausted_later[OF taken(3), of ?n] from_descriptor_exhausts[OF Done] by auto
      with Cons.IH[of fa1 "taken @ [d]"] spec(2-4) rest Done Cons.prems(3,4)
      have "outcome T ds (fa\<lparr>next_frame := ?n\<rparr>) r fa'" by auto
      from outcome_skip[OF this refl taken(1,3) sorted_map_Cons] show ?thesis .
    qed
  qed
qed

lemma allocate_frame_outcome:
  assumes "allocate_frame X T fa = Ok (r, fa')" and inv: "allocator_inv T fa"
  shows "outcome T (original fa) fa r fa'"
proof -
  from inv obtain taken where dvd: "4096 dvd next_frame fa" and
    taken: "original fa = taken @ memory_map fa"
    "\<forall>d. current_descriptor fa = Some d \<longrightarrow> rt_kind T d = Usable \<and> d \<in> set taken"
    "\<forall>d \<in> set taken. current_descriptor fa = Some d \<or> exhausted T (next_frame fa) d"
    by (auto simp: allocator_inv_def)
  show ?thesis
  proof (cases "current_descriptor fa")
    case None
    with assms(1) taken allocate_from_map_outcome[OF _ dvd None taken(1)]
    have "outcome T (memory_map fa) fa r fa'" by (auto simp: allocate_frame_def)
    then show ?thesis
      by (auto simp: outcome_def taken(1) sorted_map_def sorted_append)
  next
    case (Some d)
    let ?n = "max (next_frame fa) (d_start T d div 4096 * 4096)"
    from assms(1) Some obtain r1 fa1 where one:
      "allocate_frame_from_descriptor X T fa d = Ok (r1, fa1)" and
      rest: "(case r1 of Some f \<Rightarrow> Ok (Some f, fa1)
         | None \<Rightarrow> allocate_from_map X T (fa1\<lparr>current_descriptor := None\<rparr>) (memory_map fa1)) = Ok (r, fa')"
      by (auto simp: allocate_frame_def res_simps)
    note spec = from_descriptor[OF one dvd]
    from taken(2,3) Some have d: "rt_kind T d = Usable" "d \<in> set taken"
      "\<forall>d' \<in> set taken. d' = d \<or> exhausted T (next_frame fa) d'" by auto
    have sorted: "sorted_map T (original fa) \<Longrightarrow>
        sorted_map T (memory_map fa) \<and> (\<forall>d' \<in> set (memory_map fa). d_start T d \<le> d_start T d')"
      using sorted_map_append[OF _ d(2)] taken(1) by simp
    show ?thesis
    proof (cases "?n \<le> (d_end T d - 1) div 4096 * 4096")
      case True
      with spec(2,3) rest Some have fa': "r = Some ?n" "fa' = fa\<lparr>next_frame := ?n + 4096,
          memory_map := memory_map fa, current_descriptor := Some d\<rparr>"
        by (auto intro: legacy_frame_allocator.equality)
      show ?thesis
        unfolding fa' by (rule outcome_some[OF d(1) taken(1) d(2) spec(1,4) refl True d(3)])
          (use sorted in blast)
    next
      case False
      have "\<forall>d \<in> set taken. exhausted T ?n d"
        using exhausted_later[OF d(3), of ?n] from_descriptor_exhausts[OF False] by auto
      with allocate_from_map_outcome[of "fa\<lparr>next_frame := ?n, current_descriptor := None\<rparr>"
          "memory_map fa" r fa' taken] spec(2-4) rest False taken(1)
      have "outcome T (memory_map fa) (fa\<lparr>next_frame := ?n\<rparr>) r fa'" by auto
      from outcome_skip[OF this refl taken(1) d(3) sorted] show ?thesis .
    qed
  qed
qed

lemma add_region_eq_Ok [res_simps]:
  "add_region cap r regions = Ok regions' \<longleftrightarrow>
   (if region_start r = region_end r then regions' = regions
    else length regions < cap \<and> regions' = regions @ [r])"
  by (auto simp: add_region_def)

lemma construct_region_appends:
  assumes "construct_region X T next_free cap ks kl d regions = Ok regions'"
  shows "\<exists>new. regions' = regions @ new \<and> describes T next_free ks (ks + kl) d new \<and>
    length new \<le> region_bound T next_free ks (ks + kl) d"
proof -
  from assms obtain s l where s: "rt_start T d = Ok s" and l: "rt_len T d = Ok l"
    by (auto simp: construct_region_def res_simps)
  then have "d_start T d = s" "d_end T d = s + l" by (auto simp: d_start_def d_end_def)
  with assms s l usable_stays[of d] show ?thesis
    by (auto simp: construct_region_def classify_descriptor_def add_around_kernel_def res_simps
        phys_add describes_def kind_at_def r_bytes_def region_bound_def split_by_next_def
        holds_kernel_def split: if_splits)
qed

lemma classify_descriptor_total:
  assumes "kernel_placed T next_free ks ke d" and "length regions < cap"
    and "d_start T d < d_end T d"
  obtains kind start regions' where
    "classify_descriptor T next_free cap d (d_start T d) (d_end T d) regions
       = Ok (kind, start, regions')"
    "length regions' \<le> length regions + (if split_by_next T next_free d then 1 else 0)"
    "d_start T d \<le> start"
    "kind = Usable \<Longrightarrow> ks < d_end T d \<Longrightarrow> start < ke \<Longrightarrow> start \<le> ks \<and> ke \<le> d_end T d"
proof (cases "rt_kind T d = Usable")
  case True
  with assms that show thesis
    by (cases "d_end T d \<le> next_free"; cases "d_start T d \<ge> next_free")
      (auto simp: classify_descriptor_def kernel_placed_def add_region_def split_by_next_def
        usable_stays)
next
  case False
  with assms that show thesis
    by (cases "rt_usable_after_bootloader_exit T d")
      (auto simp: classify_descriptor_def kernel_placed_def)
qed

lemma add_around_kernel_total:
  assumes "ks + kl < 2 ^ 64"
    and "kind = Usable \<Longrightarrow> ks < e \<Longrightarrow> s < ks + kl \<Longrightarrow> s \<le> ks \<and> ks + kl \<le> e"
    and "length regions + 1 + (if s \<le> ks \<and> ks + kl \<le> e \<and> ks < e then 2 else 0) \<le> cap"
  shows "\<exists>regions'. add_around_kernel cap ks kl
    \<lparr>region_start = s, region_end = e, region_kind = kind\<rparr> regions = Ok regions'"
  using assms by (auto simp: add_around_kernel_def add_w_def add_region_def assertR_def)

lemma construct_region_total:
  assumes "d_valid T d" and "ks + kl < 2 ^ 64" and "kernel_placed T next_free ks (ks + kl) d"
    and "length regions + region_bound T next_free ks (ks + kl) d \<le> cap"
  shows "\<exists>regions'. construct_region X T next_free cap ks kl d regions = Ok regions'"
proof -
  from assms(1) obtain l where s: "rt_start T d = Ok (d_start T d)" and l: "rt_len T d = Ok l"
    and e: "d_start T d + l = d_end T d" and lt: "d_start T d < d_end T d" "d_end T d < 2 ^ 52"
    by (auto simp: d_valid_def d_ok_def is_ok_iff d_start_def d_end_def)
  have "length regions < cap" using assms(4) by (simp add: region_bound_def)
  from classify_descriptor_total[OF assms(3) this lt(1)] obtain kind start regions' where c:
    "classify_descriptor T next_free cap d (d_start T d) (d_end T d) regions
       = Ok (kind, start, regions')"
    "length regions' \<le> length regions + (if split_by_next T next_free d then 1 else 0)"
    "d_start T d \<le> start"
    "kind = Usable \<Longrightarrow> ks < d_end T d \<Longrightarrow> start < ks + kl \<Longrightarrow> start \<le> ks \<and> ks + kl \<le> d_end T d"
    by blast
  have "length regions' + 1 + (if start \<le> ks \<and> ks + kl \<le> d_end T d \<and> ks < d_end T d then 2 else 0)
      \<le> cap"
    using assms(4) c(2,3) by (auto simp: region_bound_def holds_kernel_def split: if_splits)
  from add_around_kernel_total[OF assms(2) c(4) this] show ?thesis
    using s l e lt c(1) by (auto simp: construct_region_def phys_add)
qed

text \<open>The whole map: each descriptor becomes a chain of regions with the right kinds.\<close>

lemma construct_memory_map_chains:
  assumes "construct_memory_map X T fa cap ks kl = Ok rs"
  obtains news where "rs = concat news"
    and "list_all2 (describes T (next_frame fa) ks (ks + kl)) (original fa) news"
proof -
  let ?P = "describes T (next_frame fa) ks (ks + kl)"
  let ?I = "\<lambda>ys acc. \<exists>news. acc = concat news \<and> list_all2 ?P ys news"
  have "?I (original fa) rs"
  proof (rule foldR_invariant[OF assms[unfolded construct_memory_map_def]])
    fix ys z zs acc acc'
    assume "?I ys acc" and step: "construct_region X T (next_frame fa) cap ks kl z acc = Ok acc'"
    then obtain news where news: "acc = concat news" "list_all2 ?P ys news" by blast
    from construct_region_appends[OF step] obtain new where "acc' = acc @ new" "?P z new" by blast
    with news show "?I (ys @ [z]) acc'"
      by (intro exI[of _ "news @ [new]"]) (auto intro: list_all2_appendI)
  qed simp
  then show thesis using that by blast
qed

lemma chain_bytes: "chain s rs e \<Longrightarrow> s \<le> e \<and> (\<Union>r \<in> set rs. r_bytes r) = {a. s \<le> a \<and> a < e}"
proof (induction rs arbitrary: s)
  case (Cons r rs)
  then have r: "region_start r = s" "s < region_end r" and
    rs: "region_end r \<le> e" "(\<Union>r \<in> set rs. r_bytes r) = {a. region_end r \<le> a \<and> a < e}"
    using Cons.IH[of "region_end r"] by simp_all
  have "(\<Union>r \<in> set (r # rs). r_bytes r) = r_bytes r \<union> {a. region_end r \<le> a \<and> a < e}"
    by (simp add: rs(2))
  also have "\<dots> = {a. s \<le> a \<and> a < e}"
    using r rs(1) by (auto simp: r_bytes_def)
  finally show ?case using r(2) rs(1) by linarith
qed simp

lemma chain_disjoint:
  "chain s rs e \<Longrightarrow> sorted_wrt (\<lambda>r q. region_end r \<le> region_start q) rs \<and>
   (\<forall>r \<in> set rs. s \<le> region_start r \<and> region_start r < region_end r \<and> region_end r \<le> e)"
proof (induction rs arbitrary: s)
  case (Cons r rs)
  then have r: "region_start r = s" "s < region_end r" "chain (region_end r) rs e" by simp_all
  with Cons.IH[OF r(3)] chain_bytes[OF r(3)] show ?case by (fastforce intro: order_trans)
qed simp

lemma describes_exact:
  assumes "describes T n ks ke d new"
  shows "(\<exists>r \<in> set new. a \<in> r_bytes r \<and> region_kind r = k) \<longleftrightarrow>
    a \<in> d_bytes T d \<and> kind_at T n ks ke d a = k"
proof -
  have "chain (d_start T d) new (d_end T d)" using assms by (simp add: describes_def)
  from chain_bytes[OF this] have "(\<Union>r \<in> set new. r_bytes r) = d_bytes T d"
    by (simp add: d_bytes_def)
  then have "a \<in> d_bytes T d \<longleftrightarrow> (\<exists>r \<in> set new. a \<in> r_bytes r)" by (metis UN_iff)
  with assms show ?thesis unfolding describes_def by metis
qed

lemma describes_all_exact:
  assumes "list_all2 (describes T n ks ke) ds news"
  shows "(\<exists>r \<in> set (concat news). a \<in> r_bytes r \<and> region_kind r = k) \<longleftrightarrow>
    (\<exists>d \<in> set ds. a \<in> d_bytes T d \<and> kind_at T n ks ke d a = k)"
  using assms
proof (induction rule: list_all2_induct)
  case (Cons d ds new news)
  from Cons.IH describes_exact[OF Cons.hyps(1), of a k] show ?case by (simp add: bex_Un)
qed simp

lemma construct_memory_map_exact:
  assumes "construct_memory_map X T fa cap ks kl = Ok rs"
  shows "(\<exists>r \<in> set rs. a \<in> r_bytes r \<and> region_kind r = k) \<longleftrightarrow>
    (\<exists>d \<in> set (original fa). a \<in> d_bytes T d \<and> kind_at T (next_frame fa) ks (ks + kl) d a = k)"
  using construct_memory_map_chains[OF assms] describes_all_exact by metis

lemma describes_disjoint:
  assumes "list_all2 (describes T n ks ke) ds news" and "disjoint_map T ds"
  shows "sorted_wrt (\<lambda>r q. region_end r \<le> region_start q) (concat news) \<and>
    (\<forall>r \<in> set (concat news). region_start r < region_end r \<and>
       (\<exists>d \<in> set ds. d_start T d \<le> region_start r))"
  using assms
proof (induction rule: list_all2_induct)
  case (Cons d ds new news)
  then have new: "sorted_wrt (\<lambda>r q. region_end r \<le> region_start q) new"
    "\<forall>r \<in> set new. d_start T d \<le> region_start r \<and> region_start r < region_end r \<and>
       region_end r \<le> d_end T d"
    using chain_disjoint[of "d_start T d" new "d_end T d"] by (auto simp: describes_def)
  from Cons.prems have ds: "disjoint_map T ds" "\<forall>d' \<in> set ds. d_end T d \<le> d_start T d'"
    by (auto simp: disjoint_map_def)
  have "region_end r \<le> region_start q" if "r \<in> set new" "q \<in> set (concat news)" for r q
    using new(2) that Cons.IH[OF ds(1)] ds(2) by (meson order_trans)
  with new Cons.IH[OF ds(1)] show ?case by (auto simp: sorted_wrt_append)
qed simp

lemma construct_memory_map_disjoint:
  assumes "construct_memory_map X T fa cap ks kl = Ok rs" and "disjoint_map T (original fa)"
  shows "sorted_wrt (\<lambda>r q. region_end r \<le> region_start q) rs \<and>
    (\<forall>r \<in> set rs. region_start r < region_end r)"
  using construct_memory_map_chains[OF assms(1)] describes_disjoint[OF _ assms(2)] by metis

lemma map_bound_snoc:
  assumes "\<forall>y \<in> set ys. d_end T y \<le> d_start T z"
  shows "map_bound T n ks ke ys + region_bound T n ks ke z \<le> map_bound T n ks ke (ys @ [z])"
proof -
  have "split_by_next T n z \<Longrightarrow> \<forall>y \<in> set ys. \<not> split_by_next T n y"
    and "holds_kernel T ks ke z \<Longrightarrow> \<forall>y \<in> set ys. \<not> holds_kernel T ks ke y"
    using assms by (fastforce simp: split_by_next_def holds_kernel_def)+
  then show ?thesis by (auto simp: map_bound_def region_bound_def)
qed

lemma construct_memory_map_total:
  assumes "disjoint_map T (original fa)" and "\<forall>d \<in> set (original fa). d_valid T d"
    and "\<forall>d \<in> set (original fa). kernel_placed T (next_frame fa) ks (ks + kl) d"
    and "ks + kl < 2 ^ 64" and "length (original fa) + 3 \<le> cap"
  shows "\<exists>rs. construct_memory_map X T fa cap ks kl = Ok rs \<and> length rs \<le> length (original fa) + 3"
proof -
  let ?B = "map_bound T (next_frame fa) ks (ks + kl)"
  let ?f = "construct_region X T (next_frame fa) cap ks kl"
  have "\<exists>rs. foldR ?f (original fa) [] = Ok rs \<and> length rs \<le> ?B (original fa)"
  proof (rule foldR_total)
    fix ys z zs and acc :: "memory_region list"
    assume split: "original fa = ys @ z # zs" and I: "length acc \<le> ?B ys"
    have "\<forall>y \<in> set ys. d_end T y \<le> d_start T z"
      using assms(1) by (auto simp: split disjoint_map_def sorted_wrt_append)
    from map_bound_snoc[OF this, of "next_frame fa" ks "ks + kl"] I
    have bound: "length acc + region_bound T (next_frame fa) ks (ks + kl) z \<le> ?B (ys @ [z])"
      by linarith
    also have "?B (ys @ [z]) \<le> cap" using assms(5) by (simp add: split map_bound_def)
    finally obtain acc' where step: "?f z acc = Ok acc'"
      using construct_region_total[of z ks kl "next_frame fa" acc cap] assms(2-4)
      by (auto simp: split)
    from construct_region_appends[OF step] obtain new where "acc' = acc @ new"
      "length new \<le> region_bound T (next_frame fa) ks (ks + kl) z" by blast
    with bound have "length acc' \<le> ?B (ys @ [z])" by simp
    with step show "\<exists>acc'. ?f z acc = Ok acc' \<and> length acc' \<le> ?B (ys @ [z])" by blast
  qed (simp add: map_bound_def)
  then show ?thesis
    unfolding construct_memory_map_def by (auto simp: map_bound_def split: if_splits)
qed

text \<open>Allocation returns when every descriptor is non-empty and ends in physical memory.\<close>

lemma from_descriptor_total:
  assumes "d_valid T d" and "4096 dvd next_frame fa"
  shows "\<exists>r fa'. allocate_frame_from_descriptor X T fa d = Ok (r, fa')"
proof -
  from assms(1) obtain l where s: "rt_start T d = Ok (d_start T d)" and l: "rt_len T d = Ok l"
    and e: "d_start T d + l = d_end T d" and lt: "d_start T d < d_end T d" "d_end T d \<le> 2 ^ 52 - 4096"
    by (auto simp: d_valid_def d_ok_def is_ok_iff d_start_def d_end_def)
  let ?n = "max (next_frame fa) (d_start T d div 4096 * 4096)"
  have "?n + 4096 < 2 ^ 52" if "?n \<le> (d_end T d - 1) div 4096 * 4096"
    using that lt by (auto; linarith)
  moreover have "4096 dvd ?n" using assms(2) by (auto simp: max_def)
  ultimately show ?thesis
    using lt by (auto simp: allocate_frame_from_descriptor_def s l e phys_add phys_sub
        frame_containing frame_add Let_def max_def split: if_splits)
qed

lemma allocate_from_map_total:
  assumes "\<forall>d \<in> set ds. d_valid T d" and "4096 dvd next_frame fa"
  shows "\<exists>r fa'. allocate_from_map X T fa ds = Ok (r, fa')"
  using assms
proof (induction ds arbitrary: fa)
  case (Cons d ds)
  from from_descriptor_total[of d fa] Cons.prems obtain r fa' where
    one: "allocate_frame_from_descriptor X T fa d = Ok (r, fa')" by auto
  with from_descriptor[OF one Cons.prems(2)] have "r = None \<Longrightarrow> 4096 dvd next_frame fa'" by auto
  with one Cons show ?case by (cases r) auto
qed simp

lemma allocate_frame_total:
  assumes "allocator_inv T fa" and "\<forall>d \<in> set (original fa). d_valid T d"
  shows "\<exists>r fa'. allocate_frame X T fa = Ok (r, fa')"
proof (cases "current_descriptor fa")
  case None
  with assms allocate_from_map_total[of "memory_map fa" fa] show ?thesis
    by (auto simp: allocate_frame_def allocator_inv_def)
next
  case (Some d)
  with assms have d: "d_valid T d" "4096 dvd next_frame fa" "\<forall>d \<in> set (memory_map fa). d_valid T d"
    by (auto simp: allocator_inv_def)
  from from_descriptor_total[OF d(1,2)] obtain r fa' where
    one: "allocate_frame_from_descriptor X T fa d = Ok (r, fa')" by auto
  from from_descriptor[OF one d(2)] have "memory_map fa' = memory_map fa"
    and "r = None \<Longrightarrow> 4096 dvd next_frame fa'" by auto
  with one Some d(3) allocate_from_map_total[of "memory_map fa" "fa'\<lparr>current_descriptor := None\<rparr>"]
  show ?thesis by (cases r) (auto simp: allocate_frame_def)
qed

lemma free_frames_aligned: "f \<in> free_frames T fa \<Longrightarrow> 4096 dvd f"
  by (auto simp: free_frames_def usable_frames_def d_frames_def)

lemma finite_free_frames: "finite (free_frames T fa)"
proof (rule finite_subset)
  show "free_frames T fa \<subseteq> (\<Union>d \<in> set (original fa). {0..(d_end T d - 1) div 4096 * 4096})"
    by (auto simp: free_frames_def usable_frames_def d_frames_def)
qed simp

lemma outcome_free:
  assumes "outcome T ds fa (Some f) fa'"
  shows "free_frames T fa' = {g \<in> free_frames T fa. f < g}"
proof -
  have f: "f \<in> free_frames T fa" "next_frame fa' = f + 4096" "original fa' = original fa"
    using assms by (auto simp: outcome_def)
  have "f + 4096 \<le> g \<longleftrightarrow> f < g" if "4096 dvd g" for g
    using that free_frames_aligned[OF f(1)] by (auto elim!: dvdE)
  with f show ?thesis
    by (fastforce simp: free_frames_def usable_frames_def d_frames_def)
qed

lemma allocate_frame_some:
  assumes "allocator_inv T fa" and "allocate_frame X T fa = Ok (Some f, fa')"
  shows "f \<in> free_frames T fa \<and> free_frames T fa' \<subseteq> free_frames T fa - {f}"
  using outcome_free[OF allocate_frame_outcome[OF assms(2,1)]]
    allocate_frame_outcome[OF assms(2,1)] by (auto simp: outcome_def)

lemma allocate_frame_none:
  assumes "allocator_inv T fa" and "allocate_frame X T fa = Ok (None, fa')"
  shows "free_frames T fa' \<subseteq> free_frames T fa"
  using allocate_frame_outcome[OF assms(2,1)] by (auto simp: outcome_def)

lemma allocate_frame_inv:
  assumes "allocator_inv T fa" and "allocate_frame X T fa = Ok (r, fa')"
  shows "allocator_inv T fa' \<and> original fa' = original fa"
  using allocate_frame_outcome[OF assms(2,1)] by (auto simp: outcome_def)

lemma new_starting_at_inv: "4096 dvd frame \<Longrightarrow> allocator_inv T (new_starting_at frame m)"
  by (simp add: allocator_inv_def new_starting_at_def)

end

section \<open>The contract of a frame allocator\<close>

locale frame_source =
  fixes alloc :: "'s \<Rightarrow> (nat option \<times> 's) res"
    and inv :: "'s \<Rightarrow> bool"
    and free :: "'s \<Rightarrow> nat set"
  assumes alloc_some: "inv s \<Longrightarrow> alloc s = Ok (Some f, s') \<Longrightarrow> f \<in> free s \<and> free s' \<subseteq> free s - {f}"
    and alloc_none: "inv s \<Longrightarrow> alloc s = Ok (None, s') \<Longrightarrow> free s' \<subseteq> free s"
    and alloc_inv: "inv s \<Longrightarrow> alloc s = Ok (r, s') \<Longrightarrow> inv s'"
    and free_aligned: "f \<in> free s \<Longrightarrow> 4096 dvd f"
begin

lemma allocate_many_spec:
  assumes "inv s" and "allocate_many alloc n s = Ok (fs, s')"
  shows "inv s' \<and> distinct fs \<and> set fs \<subseteq> free s \<and> free s' \<subseteq> free s - set fs"
  using assms
proof (induction n arbitrary: s fs)
  case (Suc n)
  from Suc.prems(2) obtain r s1 where one: "alloc s = Ok (r, s1)" and
    rest: "(case r of None \<Rightarrow> Ok ([], s1)
       | Some f \<Rightarrow> bindR (allocate_many alloc n s1) (\<lambda>(fs, s). Ok (f # fs, s))) = Ok (fs, s')"
    by (auto simp: res_simps)
  have inv: "inv s1" using alloc_inv[OF Suc.prems(1) one] .
  show ?case
  proof (cases r)
    case None
    with rest inv alloc_none[OF Suc.prems(1)] one show ?thesis by auto
  next
    case (Some f)
    with rest obtain gs where "allocate_many alloc n s1 = Ok (gs, s')" "fs = f # gs"
      by (auto simp: res_simps)
    with Suc.IH[OF inv] alloc_some[OF Suc.prems(1)] one Some show ?thesis by fastforce
  qed
qed auto

end

sublocale memory_region_impl \<subseteq> legacy: frame_source "allocate_frame X T" "allocator_inv T" "free_frames T"
  by unfold_locales
    (use allocate_frame_some allocate_frame_none allocate_frame_inv free_frames_aligned in blast)+

text \<open>What the allocator promises over a whole boot, and what the map says of it afterwards.\<close>

context memory_region_impl
begin

lemma allocate_many_original:
  "allocator_inv T fa \<Longrightarrow> allocate_many (allocate_frame X T) n fa = Ok (fs, fa') \<Longrightarrow>
   original fa' = original fa"
proof (induction n arbitrary: fa fs)
  case (Suc n)
  from Suc.prems(2) obtain r fa1 where one: "allocate_frame X T fa = Ok (r, fa1)" and
    rest: "fa' = fa1 \<or> (\<exists>gs. allocate_many (allocate_frame X T) n fa1 = Ok (gs, fa'))"
    by (auto simp: res_simps split: option.splits)
  from allocate_frame_inv[OF Suc.prems(1) one] rest Suc.IH show ?case by auto
qed simp

lemma allocated_frames:
  assumes "4096 dvd start"
    and "allocate_many (allocate_frame X T) n (new_starting_at start m) = Ok (fs, fa)"
  shows "distinct fs" and "original fa = m"
    and "f \<in> set fs \<Longrightarrow> f \<in> usable_frames T m \<and> start \<le> f \<and> f + 4096 \<le> next_frame fa"
proof -
  note inv = new_starting_at_inv[OF assms(1), of m]
  note many = legacy.allocate_many_spec[OF inv assms(2)]
  then show "distinct fs" by simp
  show orig: "original fa = m"
    using allocate_many_original[OF inv assms(2)] by (simp add: new_starting_at_def)
  assume f: "f \<in> set fs"
  with many have free: "f \<in> free_frames T (new_starting_at start m)" "f \<notin> free_frames T fa" by auto
  then have "f \<in> usable_frames T m" "start \<le> f" "f < next_frame fa"
    by (auto simp: free_frames_def new_starting_at_def orig)
  moreover from this(3) free_frames_aligned[OF free(1)] many have "f + 4096 \<le> next_frame fa"
    by (auto simp: allocator_inv_def elim!: dvdE)
  ultimately show "f \<in> usable_frames T m \<and> start \<le> f \<and> f + 4096 \<le> next_frame fa" by simp
qed

lemma disjoint_map_eq:
  assumes "disjoint_map T ds" and "d \<in> set ds" and "d' \<in> set ds"
    and "a \<in> d_bytes T d" and "a \<in> d_bytes T d'"
  shows "d = d'"
  using assms by (induction ds) (auto simp: disjoint_map_def d_bytes_def)

lemma frame_in_descriptor:
  assumes "f \<in> d_frames T d" and "4096 dvd d_start T d" and "4096 dvd d_end T d"
    and "d_start T d < d_end T d" and "f \<le> a" and "a < f + 4096"
  shows "a \<in> d_bytes T d"
proof -
  obtain i j k where ijk: "d_start T d = 4096 * i" "d_end T d = 4096 * j" "f = 4096 * k"
    using assms(1-3) by (auto simp: d_frames_def elim!: dvdE)
  then have "i \<le> k" "k \<le> (4096 * j - 1) div 4096" "i < j"
    using assms(1,4) by (auto simp: d_frames_def)
  then have "k < j" by linarith
  with ijk \<open>i \<le> k\<close> assms(5,6) show ?thesis by (auto simp: d_bytes_def)
qed

lemma taken_not_usable:
  assumes "construct_memory_map X T fa cap ks kl = Ok rs"
    and "4096 dvd next_frame fa" and "disjoint_map T (original fa)"
    and "\<forall>d \<in> set (original fa). rt_kind T d = Usable \<longrightarrow>
      4096 dvd d_start T d \<and> 4096 dvd d_end T d \<and> d_start T d < d_end T d"
    and "r \<in> set rs" and "region_kind r = Usable" and "a \<in> r_bytes r"
  shows "\<not> (ks \<le> a \<and> a < ks + kl)"
    and "f \<in> usable_frames T (original fa) \<Longrightarrow> f \<notin> free_frames T fa \<Longrightarrow> \<not> (f \<le> a \<and> a < f + 4096)"
proof -
  from construct_memory_map_exact[OF assms(1), of a Usable] assms(5-7)
  obtain d where d: "d \<in> set (original fa)" "a \<in> d_bytes T d"
    "kind_at T (next_frame fa) ks (ks + kl) d a = Usable" by auto
  have after: "rt_usable_after_bootloader_exit T d"
    using d(3) usable_stays[of d] by (auto simp: kind_at_def split: if_splits)
  with d(3) show "\<not> (ks \<le> a \<and> a < ks + kl)" by (auto simp: kind_at_def)
  assume f: "f \<in> usable_frames T (original fa)" "f \<notin> free_frames T fa"
  then obtain d' where d': "d' \<in> set (original fa)" "rt_kind T d' = Usable" "f \<in> d_frames T d'"
    and lt: "f < next_frame fa"
    by (auto simp: usable_frames_def free_frames_def)
  have "4096 dvd f" using d'(3) by (simp add: d_frames_def)
  with lt assms(2) have below: "f + 4096 \<le> next_frame fa" by (auto elim!: dvdE)
  show "\<not> (f \<le> a \<and> a < f + 4096)"
  proof
    assume a: "f \<le> a \<and> a < f + 4096"
    with frame_in_descriptor[OF d'(3)] assms(4) d'(1,2) have "a \<in> d_bytes T d'" by auto
    from disjoint_map_eq[OF assms(3) d(1) d'(1) d(2) this] d(3) d'(2) after a below
    show False by (auto simp: kind_at_def)
  qed
qed

lemma allocated_not_usable:
  assumes "4096 dvd start"
    and "allocate_many (allocate_frame X T) n (new_starting_at start m) = Ok (fs, fa)"
    and "construct_memory_map X T fa cap ks kl = Ok rs"
    and "disjoint_map T m"
    and "\<forall>d \<in> set m. rt_kind T d = Usable \<longrightarrow>
      4096 dvd d_start T d \<and> 4096 dvd d_end T d \<and> d_start T d < d_end T d"
    and "r \<in> set rs" and "region_kind r = Usable" and "a \<in> r_bytes r"
  shows "\<not> (ks \<le> a \<and> a < ks + kl)" and "f \<in> set fs \<Longrightarrow> \<not> (f \<le> a \<and> a < f + 4096)"
proof -
  note frames = allocated_frames[OF assms(1,2)]
  have al: "4096 dvd next_frame fa"
    using legacy.allocate_many_spec[OF new_starting_at_inv[OF assms(1)] assms(2)] by (simp add: allocator_inv_def)
  note t = taken_not_usable[OF assms(3) al, unfolded frames(2), OF assms(4-8)]
  show "\<not> (ks \<le> a \<and> a < ks + kl)" by (rule t(1))
  show "\<not> (f \<le> a \<and> a < f + 4096)" if "f \<in> set fs"
    using t(2)[of f] frames(3)[OF that] by (auto simp: free_frames_def)
qed

lemma allocate_frame_least:
  assumes "allocator_inv T fa" and "sorted_map T (original fa)"
    and "allocate_frame X T fa = Ok (r, fa')"
  shows "r = (if free_frames T fa = {} then None else Some (Min (free_frames T fa)))"
    and "free_frames T fa' = free_frames T fa - {Min (free_frames T fa)}"
proof -
  note out = allocate_frame_outcome[OF assms(3,1)]
  have "r = (if free_frames T fa = {} then None else Some (Min (free_frames T fa))) \<and>
    free_frames T fa' = free_frames T fa - {Min (free_frames T fa)}"
  proof (cases r)
    case None
    with out assms(2) show ?thesis by (auto simp: outcome_def)
  next
    case (Some f)
    with out assms(2) have "f \<in> free_frames T fa" "\<forall>g \<in> free_frames T fa. f \<le> g"
      by (auto simp: outcome_def)
    then have "Min (free_frames T fa) = f" by (auto intro: Min_eqI finite_free_frames)
    with Some outcome_free[OF out[unfolded Some]] \<open>f \<in> free_frames T fa\<close>
      \<open>\<forall>g \<in> free_frames T fa. f \<le> g\<close> show ?thesis
      by (auto simp: le_less)
  qed
  then show "r = (if free_frames T fa = {} then None else Some (Min (free_frames T fa)))"
    and "free_frames T fa' = free_frames T fa - {Min (free_frames T fa)}" by auto
qed

end

context x86_64
begin

lemma bios_impl: "memory_region_impl X (bios_region X)"
  by unfold_locales (auto simp: bios_region_def bios_kind_def phys_new split: if_splits)

lemma uefi_impl: "memory_region_impl X (uefi_region X tag)"
  by unfold_locales
    (auto simp: uefi_region_def uefi_kind_def uefi_usable_after_bootloader_exit_def phys_new
      split: uefi_memory_type.splits if_splits)

end

sublocale x86_64 \<subseteq> bios: memory_region_impl X "bios_region X"
  by (rule bios_impl)

sublocale x86_64 \<subseteq> uefi: memory_region_impl X "uefi_region X tag" for tag
  by (rule uefi_impl)

interpretation bios_ref: memory_region_impl x86_ref "bios_region x86_ref"
  by (rule ref.bios_impl)

interpretation uefi_ref: memory_region_impl x86_ref "uefi_region x86_ref tag" for tag
  by (rule ref.uefi_impl)

section \<open>Properties\<close>

text \<open>C33. The allocator never hands out a frame twice, and only frames of usable regions at or
  above the frame it was started with.\<close>

theorem allocated_frames_distinct:
  assumes "memory_region_impl X T" and "4096 dvd start"
    and "allocate_many (allocate_frame X T) n (new_starting_at start m) = Ok (fs, fa)"
  shows "distinct fs \<and> (\<forall>f \<in> set fs. f \<in> usable_frames T m \<and> start \<le> f)"
  using memory_region_impl.allocated_frames[OF assms] by blast

lemmas example_simps = example_map_def bios_region_def bios_kind_def x86_ref_def new_starting_at_def
  allocate_frame_def allocate_frame_from_descriptor_def d_start_def d_end_def d_ok_def

lemma example_allocate:
  "allocate_frame x86_ref (bios_region x86_ref) (new_starting_at 0x103000 example_map) =
     Ok (Some 0x103000, \<lparr>original = example_map, memory_map = tl example_map,
           current_descriptor = Some (hd example_map), next_frame = 0x104000\<rparr>)"
  "allocate_frame x86_ref (bios_region x86_ref) \<lparr>original = example_map, memory_map = tl example_map,
           current_descriptor = Some (hd example_map), next_frame = 0x104000\<rparr> =
     Ok (Some 0x105000, \<lparr>original = example_map, memory_map = [],
           current_descriptor = Some (last example_map), next_frame = 0x106000\<rparr>)"
  by (simp_all add: example_simps)

theorem allocated_frames_distinct_witness:
  "distinct [0x103000, 0x105000 :: nat] \<and>
   set [0x103000, 0x105000] \<subseteq> usable_frames (bios_region x86_ref) example_map"
proof -
  have "allocate_many (allocate_frame x86_ref (bios_region x86_ref)) (Suc (Suc 0))
      (new_starting_at 0x103000 example_map) =
    Ok ([0x103000, 0x105000], \<lparr>original = example_map, memory_map = [],
           current_descriptor = Some (last example_map), next_frame = 0x106000\<rparr>)"
    by (simp add: example_allocate)
  from allocated_frames_distinct[OF ref.bios_impl _ this] show ?thesis by simp
qed

text \<open>C15. On a sorted memory map the allocator refines the set of free frames: it returns the least
  free frame and removes exactly that one, and it reports exhaustion only when no free frame
  is left.\<close>

theorem allocate_frame_refines_least:
  assumes "memory_region_impl X T" and "allocator_inv T fa" and "sorted_map T (original fa)"
    and "allocate_frame X T fa = Ok (r, fa')"
  shows "r = (if free_frames T fa = {} then None else Some (Min (free_frames T fa))) \<and>
    free_frames T fa' = free_frames T fa - {Min (free_frames T fa)} \<and>
    allocator_inv T fa' \<and> original fa' = original fa"
  using memory_region_impl.allocate_frame_least[OF assms]
    memory_region_impl.allocate_frame_inv[OF assms(1,2,4)] by blast

theorem allocate_frame_refines_least_witness:
  "Min (free_frames (bios_region x86_ref) (new_starting_at 0x103000 example_map)) = 0x103000"
proof -
  have "sorted_map (bios_region x86_ref) (original (new_starting_at 0x103000 example_map))"
    by (simp add: sorted_map_def example_simps)
  moreover have "allocator_inv (bios_region x86_ref) (new_starting_at 0x103000 example_map)"
    by (rule ref.bios.new_starting_at_inv) simp
  ultimately show ?thesis
    using allocate_frame_refines_least[OF ref.bios_impl _ _ example_allocate(1)]
    by (auto split: if_splits)
qed

text \<open>C34. Allocating never panics when every descriptor is non-empty and ends at least one frame
  below the end of physical memory.\<close>

theorem allocate_frame_returns:
  assumes "memory_region_impl X T" and "4096 dvd start" and "\<forall>d \<in> set m. d_valid T d"
  shows "\<exists>fs fa. allocate_many (allocate_frame X T) n (new_starting_at start m) = Ok (fs, fa)"
proof -
  have "allocator_inv T fa \<Longrightarrow> \<forall>d \<in> set (original fa). d_valid T d \<Longrightarrow>
      \<exists>fs fa'. allocate_many (allocate_frame X T) n fa = Ok (fs, fa')" for fa
  proof (induction n arbitrary: fa)
    case (Suc n)
    from memory_region_impl.allocate_frame_total[OF assms(1) Suc.prems] obtain r fa1
      where one: "allocate_frame X T fa = Ok (r, fa1)" by blast
    from memory_region_impl.allocate_frame_inv[OF assms(1) Suc.prems(1) one] Suc.prems(2)
      Suc.IH[of fa1] one show ?case by (cases r) auto
  qed simp
  from this[OF memory_region_impl.new_starting_at_inv[OF assms(1,2)]] assms(3)
  show ?thesis by (simp add: new_starting_at_def)
qed

theorem allocate_frame_returns_witness:
  "\<exists>fs fa. allocate_many (allocate_frame x86_ref (bios_region x86_ref)) 100
     (new_starting_at 0x1000 example_map) = Ok (fs, fa)"
  by (rule allocate_frame_returns[OF ref.bios_impl])
    (simp_all add: d_valid_def example_simps)

text \<open>C9. The memory map handed to the kernel says of every address exactly what it should: an
  address is in a region of kind \<open>k\<close> if and only if it is an address of a firmware descriptor and
  \<open>k\<close> is the kind of that address, \<open>Bootloader\<close> for allocated memory and the kernel's file, \<open>Usable\<close>
  for the rest of the memory that is usable after the bootloader exits, and the firmware's kind
  otherwise.\<close>

theorem memory_map_exact:
  assumes "memory_region_impl X T" and "construct_memory_map X T fa cap ks kl = Ok rs"
  shows "(\<exists>r \<in> set rs. a \<in> r_bytes r \<and> region_kind r = k) \<longleftrightarrow>
    (\<exists>d \<in> set (original fa). a \<in> d_bytes T d \<and> kind_at T (next_frame fa) ks (ks + kl) d a = k)"
  by (rule memory_region_impl.construct_memory_map_exact[OF assms])

lemma example_construct:
  "construct_memory_map x86_ref (bios_region x86_ref) (new_starting_at 0x102000 example_map)
     7 0x106000 0x1000 = Ok example_regions"
  by (simp add: construct_memory_map_def construct_region_def classify_descriptor_def
      add_around_kernel_def add_region_def add_w_def assertR_def example_simps example_regions_def)

theorem memory_map_exact_witness:
  "\<exists>d \<in> set example_map. 0x106800 \<in> d_bytes (bios_region x86_ref) d \<and>
     kind_at (bios_region x86_ref) 0x102000 0x106000 0x107000 d 0x106800 = Bootloader"
  using memory_map_exact[OF ref.bios_impl example_construct,
      where a = "0x106800" and k = Bootloader]
  by (simp add: r_bytes_def new_starting_at_def example_regions_def)

text \<open>The regions of the kernel's memory map are non-empty, in ascending order and do not
  overlap when the firmware's descriptors are in order and do not overlap.\<close>

theorem memory_map_disjoint:
  assumes "memory_region_impl X T" and "construct_memory_map X T fa cap ks kl = Ok rs"
    and "disjoint_map T (original fa)"
  shows "sorted_wrt (\<lambda>r q. region_end r \<le> region_start q) rs \<and>
    (\<forall>r \<in> set rs. region_start r < region_end r)"
  by (rule memory_region_impl.construct_memory_map_disjoint[OF assms])

theorem memory_map_disjoint_witness:
  "sorted_wrt (\<lambda>r q. region_end r \<le> region_start q) example_regions \<and>
   list_all (\<lambda>r. region_start r < region_end r) example_regions"
  unfolding list_all_iff
  by (rule memory_map_disjoint[OF ref.bios_impl example_construct])
    (simp add: disjoint_map_def example_simps)

text \<open>C32. A slice of three more entries than there are descriptors is enough for the memory map:
  on ordered, non-overlapping descriptors and a kernel file that lies in one region,
  constructing the map never panics and writes at most that many regions.\<close>

theorem memory_map_capacity:
  assumes "memory_region_impl X T"
    and "disjoint_map T (original fa)" and "\<forall>d \<in> set (original fa). d_valid T d"
    and "\<forall>d \<in> set (original fa). kernel_placed T (next_frame fa) ks (ks + kl) d"
    and "ks + kl < 2 ^ 64" and "length (original fa) + 3 \<le> cap"
  shows "\<exists>rs. construct_memory_map X T fa cap ks kl = Ok rs \<and> length rs \<le> length (original fa) + 3"
  by (rule memory_region_impl.construct_memory_map_total[OF assms])

theorem memory_map_capacity_witness:
  "\<exists>rs. construct_memory_map x86_ref (bios_region x86_ref) (new_starting_at 0x102000 example_map)
     6 0x106000 0x1000 = Ok rs \<and> length rs \<le> 6"
  using memory_map_capacity[OF ref.bios_impl,
      where fa = "new_starting_at 0x102000 example_map" and ks = "0x106000"
        and kl = "0x1000" and cap = 6]
  by (simp add: disjoint_map_def d_valid_def kernel_placed_def example_simps)

text \<open>C8. No byte of a frame the bootloader allocated (page tables, kernel, stack, boot information)
  and no byte of the kernel's file is in a region the memory map calls usable.\<close>

theorem allocated_memory_not_usable:
  assumes "memory_region_impl X T" and "4096 dvd start"
    and "allocate_many (allocate_frame X T) n (new_starting_at start m) = Ok (fs, fa)"
    and "construct_memory_map X T fa cap ks kl = Ok rs"
    and "disjoint_map T m"
    and "\<forall>d \<in> set m. rt_kind T d = Usable \<longrightarrow>
      4096 dvd d_start T d \<and> 4096 dvd d_end T d \<and> d_start T d < d_end T d"
    and "r \<in> set rs" and "region_kind r = Usable"
  shows "r_bytes r \<inter> ({a. ks \<le> a \<and> a < ks + kl} \<union> {a. \<exists>f \<in> set fs. f \<le> a \<and> a < f + 4096}) = {}"
  using memory_region_impl.allocated_not_usable[OF assms] by blast

theorem allocated_memory_not_usable_witness:
  "r_bytes \<lparr>region_start = 0x107000, region_end = 0x108000, region_kind = Usable\<rparr> \<inter>
     ({a. 0x106000 \<le> a \<and> a < 0x106000 + 0x1000} \<union> {a. \<exists>f \<in> set [0x101000]. f \<le> a \<and> a < f + 4096}) = {}"
proof -
  have many: "allocate_many (allocate_frame x86_ref (bios_region x86_ref)) (Suc 0)
      (new_starting_at 0x101000 example_map) =
    Ok ([0x101000], \<lparr>original = example_map, memory_map = tl example_map,
           current_descriptor = Some (hd example_map), next_frame = 0x102000\<rparr>)"
    by (simp add: example_simps)
  have "construct_memory_map x86_ref (bios_region x86_ref) \<lparr>original = example_map,
      memory_map = tl example_map, current_descriptor = Some (hd example_map), next_frame = 0x102000\<rparr>
      7 0x106000 0x1000 =
    construct_memory_map x86_ref (bios_region x86_ref) (new_starting_at 0x102000 example_map)
      7 0x106000 0x1000"
    by (simp add: construct_memory_map_def new_starting_at_def)
  note map = this[unfolded example_construct]
  show ?thesis
    by (rule allocated_memory_not_usable[OF ref.bios_impl _ many map])
      (simp_all add: disjoint_map_def example_simps example_regions_def)
qed

lemma fold_max_ge: "x \<in> insert a (set xs) \<Longrightarrow> x \<le> fold max xs (a :: nat)"
proof (induction xs arbitrary: a x)
  case (Cons y ys)
  from Cons.IH[of "max y a" "max y a"] Cons.IH[of x "max y a"] Cons.prems show ?case by auto
qed simp

lemma fold_max_in: "fold max xs (a :: nat) \<in> insert a (set xs)"
proof (induction xs arbitrary: a)
  case (Cons y ys)
  from Cons.IH[of "max y a"] show ?case by (auto simp: max_def split: if_splits)
qed simp

lemma iter_max_Some:
  assumes "iter_max xs = Some m"
  shows "m \<in> set xs \<and> (\<forall>x \<in> set xs. x \<le> m)"
proof (cases xs)
  case (Cons a ys)
  with assms fold_max_in[of ys a] fold_max_ge[of _ a ys] show ?thesis by simp
qed (use assms in simp)

text \<open>The largest physical address the allocator reports is the end of some descriptor, and
  no descriptor ends above it.\<close>

theorem max_phys_addr_is_max:
  assumes "x86_64 X" and "max_phys_addr X T fa = Ok m"
  shows "(\<exists>d \<in> set (original fa). d_end T d = m) \<and> (\<forall>d \<in> set (original fa). d_end T d \<le> m)"
proof -
  have "list_all2 (\<lambda>d e. d_end T d = e) (original fa) es"
    if "list_all2 (\<lambda>r e. \<exists>start. rt_start T r = Ok start \<and>
        (\<exists>l. rt_len T r = Ok l \<and> phys_add X start l = Ok e)) (original fa) es" for es
    using that
    by (rule list_all2_mono) (auto simp: d_end_def d_start_def x86_64.phys_add[OF assms(1)] split: if_splits)
  with assms(2) obtain es where es: "list_all2 (\<lambda>d e. d_end T d = e) (original fa) es"
    "iter_max es = Some m"
    by (auto simp: max_phys_addr_def res_simps)
  then have "es = map (d_end T) (original fa)"
    by (simp add: list_all2_conv_all_nth list_eq_iff_nth_eq)
  with iter_max_Some[OF es(2)] show ?thesis by auto
qed

theorem max_phys_addr_is_max_witness:
  "list_all (\<lambda>d. d_end (bios_region x86_ref) d \<le> 0x108000) example_map"
proof -
  have "max_phys_addr x86_ref (bios_region x86_ref) (new_starting_at 0 example_map) = Ok 0x108000"
    by (simp add: max_phys_addr_def example_simps)
  from max_phys_addr_is_max[OF x86_ref_x86_64 this] show ?thesis
    by (simp add: new_starting_at_def list_all_iff)
qed

section \<open>Observations\<close>

text \<open>
  The documentation of \<open>construct_memory_map\<close> asks for one entry more than there are
  descriptors; that many do not suffice.
\<close>

lemma memory_map_len_plus_one_too_small:
  "construct_memory_map x86_ref (bios_region x86_ref) (new_starting_at 0x102000 example_map)
     (length example_map + 1) 0x106000 0x1000 =
   Panic (Explicit ''cannot add region: no more free entries in memory map'')"
  by (simp add: construct_memory_map_def construct_region_def classify_descriptor_def
      add_around_kernel_def add_region_def add_w_def assertR_def example_simps)

text \<open>
  On UEFI the ramdisk is loaded into pages of type \<open>LOADER_DATA\<close>, which the memory map
  calls usable: only the kernel's file is carved out.
\<close>

lemma uefi_loader_data_reported_usable:
  assumes "x86_64 X" and "construct_memory_map X (uefi_region X tag) fa cap ks kl = Ok rs"
    and "d \<in> set (original fa)" and "ty d = LOADER_DATA" and "a \<in> d_bytes (uefi_region X tag) d"
    and "\<not> (ks \<le> a \<and> a < ks + kl)"
  shows "\<exists>r \<in> set rs. a \<in> r_bytes r \<and> region_kind r = Usable"
proof -
  have "kind_at (uefi_region X tag) (next_frame fa) ks (ks + kl) d a = Usable"
    using assms(4,6)
    by (simp add: kind_at_def uefi_region_def uefi_kind_def uefi_usable_after_bootloader_exit_def)
  with assms(3,5) memory_region_impl.construct_memory_map_exact[OF x86_64.uefi_impl[OF assms(1)] assms(2)]
  show ?thesis by blast
qed

end
