(* ===== verification/Memory_Query.thy ===== *)
theory Memory_Query
  imports Memory_Regions
begin

text \<open>
  The memory map query of stage 2 (\<^verbatim>\<open>src/bios/stage-2/src/memory_map.rs\<close>).  The firmware call
  (\<^verbatim>\<open>int 0x15\<close>, function \<^verbatim>\<open>0xe820\<close>) is a parameter: from the continuation value and the buffer
  it gives the returned registers and the buffer's new contents.  It decides when the loop ends, so
  the loop has fuel, and \<open>None\<close> means that it did not end; a map of \<open>n\<close> entries is read with any
  fuel of at least \<open>n\<close>.
\<close>

section \<open>Definitions\<close>

record e820_return =
  ret_eax :: nat
  ret_offset :: nat    \<comment> \<open>\<open>ebx\<close>, moved to \<open>edx\<close>\<close>
  ret_written :: nat   \<comment> \<open>\<open>ecx\<close>\<close>
  ret_buf :: "u8 list"

type_synonym e820_call = "nat \<Rightarrow> u8 list \<Rightarrow> e820_return"

definition SMAP :: nat where "SMAP = 0x534D4150"
definition MEMORY_MAP_CAPACITY :: nat where "MEMORY_MAP_CAPACITY = 100"

text \<open>\<open>split_array_ref\<close> of stage 2 ends in \<open>fail\<close> where the array is too short.\<close>

definition split_array_or_fail :: "nat \<Rightarrow> u8 list \<Rightarrow> (u8 list \<times> u8 list) res" where
  "split_array_or_fail n xs = (if n > length xs then Panic (Explicit ''fail: S'') else Ok (take n xs, drop n xs))"

text \<open>One answer: the region it describes, if any.\<close>

definition parse_e820 :: "u8 list \<Rightarrow> nat \<Rightarrow> e820_memory_region option res" where
  "parse_e820 buf buf_written_len =
     (if buf_written_len = 0 then Ok None
      else
        bindR (slice_range buf 0 buf_written_len) (\<lambda>buf.
        bindR (split_array_or_fail 8 buf) (\<lambda>(base_raw, rest).
        bindR (split_array_or_fail 8 rest) (\<lambda>(len_raw, rest).
        bindR (split_array_or_fail 4 rest) (\<lambda>(kind_raw, rest).
        let acpi_extended_raw = (if length rest = 4 then rest else [0, 0, 0, 0]);
            len = from_le_bytes len_raw
        in
        Ok (if len \<noteq> 0
            then Some \<lparr>e820_start_addr = from_le_bytes base_raw, e820_len = len,
                   region_type = from_le_bytes kind_raw, acpi_extended_attributes = from_le_bytes acpi_extended_raw\<rparr>
            else None))))))"

text \<open>The static array is \<open>memory_map[..i]\<close>, the entries written so far.\<close>

definition store_region :: "e820_memory_region option \<Rightarrow> e820_memory_region list \<Rightarrow> e820_memory_region list res" where
  "store_region r regions =
     (case r of
        None \<Rightarrow> Ok regions
      | Some r \<Rightarrow>
          if length regions < MEMORY_MAP_CAPACITY then Ok (regions @ [r])
          else Panic (Explicit ''index out of bounds''))"

fun query_loop :: "nat \<Rightarrow> e820_call \<Rightarrow> nat \<Rightarrow> u8 list \<Rightarrow> e820_memory_region list \<Rightarrow> e820_memory_region list res option" where
  "query_loop 0 E offset buf regions = None"
| "query_loop (Suc fuel) E offset buf regions =
     (let r = E offset buf in
      if ret_eax r \<noteq> SMAP then Some (Err ''()'')
      else
        case bindR (parse_e820 (ret_buf r) (ret_written r)) (\<lambda>region. store_region region regions) of
          Ok regions \<Rightarrow>
            if ret_offset r = 0 then Some (Ok regions) else query_loop fuel E (ret_offset r) (ret_buf r) regions
        | Err e \<Rightarrow> Some (Err e)
        | Panic p \<Rightarrow> Some (Panic p))"

definition query_memory_map :: "nat \<Rightarrow> e820_call \<Rightarrow> e820_memory_region list res option" where
  "query_memory_map fuel E = query_loop fuel E 0 (replicate 24 0) []"

section \<open>The contract of the firmware\<close>

text \<open>
  How an entry lies in the buffer: 20 bytes, or 24 with the extended attributes, which are then
  not ignored.
\<close>

definition e820_encode :: "e820_memory_region \<Rightarrow> u8 list" where
  "e820_encode d = to_le_bytes 8 (e820_start_addr d) @ to_le_bytes 8 (e820_len d) @ to_le_bytes 4 (region_type d) @
     to_le_bytes 4 (acpi_extended_attributes d)"

definition e820_fits :: "e820_memory_region \<Rightarrow> bool" where
  "e820_fits d \<longleftrightarrow> e820_start_addr d < 2 ^ 64 \<and> e820_len d < 2 ^ 64 \<and> region_type d < 2 ^ 32 \<and>
     acpi_extended_attributes d < 2 ^ 32"

text \<open>
  An answer describes the region \<open>d\<close>, in 24 bytes or, without attributes, in 20.  The firmware
  reports a map from a continuation value on, when it answers with one region after the other and
  the continuation is zero after the last one and not before.
\<close>

definition e820_answers :: "e820_call \<Rightarrow> nat \<Rightarrow> e820_memory_region \<Rightarrow> nat \<Rightarrow> bool" where
  "e820_answers E off d nxt \<longleftrightarrow> e820_fits d \<and>
     (\<forall>buf. length buf = 24 \<longrightarrow>
        (let r = E off buf in
         ret_eax r = SMAP \<and> ret_offset r = nxt \<and> length (ret_buf r) = 24 \<and>
         (ret_written r = 24 \<or> ret_written r = 20 \<and> acpi_extended_attributes d = 0) \<and>
         take (ret_written r) (ret_buf r) = take (ret_written r) (e820_encode d)))"

inductive e820_reports :: "e820_call \<Rightarrow> nat \<Rightarrow> e820_memory_region list \<Rightarrow> bool" for E where
  report_last: "e820_answers E off d 0 \<Longrightarrow> e820_reports E off [d]"
| report_more: "e820_answers E off d nxt \<Longrightarrow> nxt \<noteq> 0 \<Longrightarrow> e820_reports E nxt ds \<Longrightarrow> e820_reports E off (d # ds)"

section \<open>Lemmas\<close>

lemma length_e820_encode [simp]: "length (e820_encode d) = 24"
  by (simp add: e820_encode_def)

lemma parse_e820_encode:
  assumes "length buf = 24" and "n = 24 \<or> n = 20 \<and> acpi_extended_attributes d = 0"
    and "take n buf = take n (e820_encode d)" and "e820_fits d"
  shows "parse_e820 buf n = Ok (if e820_len d \<noteq> 0 then Some d else None)"
proof -
  have s: "slice_range buf 0 n = Ok (take n (e820_encode d))"
    using assms(1,2,3) by (auto simp: slice_range_def)
  have fit: "e820_start_addr d < 256 ^ 8" "e820_len d < 256 ^ 8" "region_type d < 256 ^ 4" "acpi_extended_attributes d < 256 ^ 4"
    using assms(4) by (simp_all add: e820_fits_def)
  from assms(2) show ?thesis
    by (elim disjE conjE)
      (use s fit in \<open>simp_all add: parse_e820_def split_array_or_fail_def e820_encode_def Let_def\<close>)
qed

lemma query_loop_spec:
  assumes "e820_reports E off ds" and "length buf = 24" and "length acc + length (filter (\<lambda>d. e820_len d \<noteq> 0) ds) \<le> MEMORY_MAP_CAPACITY"
    and "length ds \<le> fuel"
  shows "query_loop fuel E off buf acc = Some (Ok (acc @ filter (\<lambda>d. e820_len d \<noteq> 0) ds))"
  using assms
proof (induction arbitrary: buf acc fuel)
  case (report_last off d)
  let ?r = "E off buf"
  have a: "ret_eax ?r = SMAP" "ret_offset ?r = 0" "length (ret_buf ?r) = 24" "e820_fits d"
    "ret_written ?r = 24 \<or> ret_written ?r = 20 \<and> acpi_extended_attributes d = 0"
    "take (ret_written ?r) (ret_buf ?r) = take (ret_written ?r) (e820_encode d)"
    using report_last.hyps report_last.prems(1) by (simp_all add: e820_answers_def Let_def)
  obtain f where "fuel = Suc f" using report_last.prems(3) by (cases fuel) auto
  then show ?case
    using a parse_e820_encode[OF a(3,5,6,4)] report_last.prems(2) by (simp add: Let_def store_region_def split: if_splits)
next
  case (report_more off d nxt ds)
  let ?r = "E off buf" and ?acc = "acc @ (if e820_len d \<noteq> 0 then [d] else [])"
  have a: "ret_eax ?r = SMAP" "ret_offset ?r = nxt" "length (ret_buf ?r) = 24" "e820_fits d"
    "ret_written ?r = 24 \<or> ret_written ?r = 20 \<and> acpi_extended_attributes d = 0"
    "take (ret_written ?r) (ret_buf ?r) = take (ret_written ?r) (e820_encode d)"
    using report_more.hyps(1) report_more.prems(1) by (simp_all add: e820_answers_def Let_def)
  obtain f where f: "fuel = Suc f" using report_more.prems(3) by (cases fuel) auto
  have "query_loop f E nxt (ret_buf ?r) ?acc = Some (Ok (?acc @ filter (\<lambda>d. e820_len d \<noteq> 0) ds))"
    by (rule report_more.IH) (use a(3) report_more.prems f in auto)
  then show ?case
    using a parse_e820_encode[OF a(3,5,6,4)] report_more.prems(2) report_more.hyps(2) f
    by (simp add: Let_def store_region_def split: if_splits)
qed

section \<open>Properties\<close>

text \<open>C21. The query returns the memory map the firmware reports: exactly its entries of non-zero length,
  in the order of the firmware, when they fit the static array of 100 entries.  The loop ends after as
  many calls as there are entries.\<close>

theorem memory_map_queried:
  assumes "e820_reports E 0 ds" and "length (filter (\<lambda>d. e820_len d \<noteq> 0) ds) \<le> MEMORY_MAP_CAPACITY" and "length ds \<le> fuel"
  shows "query_memory_map fuel E = Some (Ok (filter (\<lambda>d. e820_len d \<noteq> 0) ds))"
  using query_loop_spec[OF assms(1), of "replicate 24 0" "[]"] assms(2,3) by (simp add: query_memory_map_def)

text \<open>A firmware with three entries, the second of them empty.\<close>

definition example_e820 :: e820_call where
  "example_e820 off buf =
     (let d = (if off = 0 then \<lparr>e820_start_addr = 0, e820_len = 0x9fc00, region_type = 1, acpi_extended_attributes = 1\<rparr>
               else if off = 1 then \<lparr>e820_start_addr = 0x9fc00, e820_len = 0, region_type = 2, acpi_extended_attributes = 0\<rparr>
               else \<lparr>e820_start_addr = 0x100000, e820_len = 0x7ee0000, region_type = 1, acpi_extended_attributes = 0\<rparr>)
      in \<lparr>ret_eax = SMAP, ret_offset = (if off = 2 then 0 else off + 1), ret_written = (if off = 0 then 24 else 20),
          ret_buf = e820_encode d\<rparr>)"

theorem memory_map_queried_witness:
  "query_memory_map 3 example_e820 = Some (Ok
     [\<lparr>e820_start_addr = 0, e820_len = 0x9fc00, region_type = 1, acpi_extended_attributes = 1\<rparr>,
      \<lparr>e820_start_addr = 0x100000, e820_len = 0x7ee0000, region_type = 1, acpi_extended_attributes = 0\<rparr>])"
proof -
  let ?a = "\<lparr>e820_start_addr = 0, e820_len = 0x9fc00, region_type = 1, acpi_extended_attributes = 1\<rparr>"
  let ?b = "\<lparr>e820_start_addr = 0x9fc00, e820_len = 0, region_type = 2, acpi_extended_attributes = 0\<rparr>"
  let ?c = "\<lparr>e820_start_addr = 0x100000, e820_len = 0x7ee0000, region_type = 1, acpi_extended_attributes = 0\<rparr>"
  have "e820_answers example_e820 0 ?a 1" "e820_answers example_e820 1 ?b 2" "e820_answers example_e820 2 ?c 0"
    by (simp_all add: e820_answers_def example_e820_def e820_fits_def)
  then have "e820_reports example_e820 0 [?a, ?b, ?c]"
    by (intro report_more[of _ _ _ 1] report_more[of _ _ _ 2] report_last) simp_all
  from memory_map_queried[OF this, of 3] show ?thesis by (simp add: MEMORY_MAP_CAPACITY_def)
qed

end
