(* ===== verification/Stage_2.thy ===== *)
theory Stage_2
  imports Load_File Vesa Memory_Query
begin

text \<open>
  The main function of stage 2 (\<^verbatim>\<open>src/bios/stage-2/src/main.rs\<close>) and the information it hands on
  (\<^verbatim>\<open>src/bios/common/src/lib.rs\<close>): it finds the FAT partition, loads stage 3, stage 4, the kernel,
  the ramdisk and the configuration file, queries the memory map and selects a graphics mode.  The
  types of partitions are those of the crate \<^verbatim>\<open>mbr-nostd\<close>, whose decoder is a parameter, as are the
  addresses of the static buffers.  Output to the screen and the switches of the processor mode are not
  modelled.
\<close>

section \<open>Definitions\<close>

subsection \<open>What stage 2 hands on\<close>

record bios_region_range =
  range_start :: nat
  range_len :: nat

record bios_framebuffer_info =
  bf_region :: bios_region_range
  bf_width :: nat
  bf_height :: nat
  bf_bytes_per_pixel :: nat
  bf_stride :: nat
  bf_pixel_format :: bios_pixel_format

record bios_info =
  info_stage_4 :: bios_region_range
  info_kernel :: bios_region_range
  info_ramdisk :: bios_region_range
  info_config_file :: bios_region_range
  last_used_addr :: nat
  info_framebuffer :: bios_framebuffer_info
  memory_map_addr :: nat
  memory_map_len :: nat

subsection \<open>The partition table\<close>

datatype partition_kind = Unknown nat | PFat12 nat | PFat16 nat | PFat32 nat | OtherPartition nat

record mbr_entry =
  me_partition_type :: partition_kind
  me_logical_block_address :: nat
  me_sector_count :: nat

definition BOOTLOADER_SECOND_STAGE_PARTITION_TYPE :: nat where "BOOTLOADER_SECOND_STAGE_PARTITION_TYPE = 0x20"

text \<open>\<open>K\<close> is \<open>PartitionType::from_mbr_tag_byte\<close>; \<open>raw\<close> are the 64 bytes of the table.\<close>

definition parse_partition :: "(u8 \<Rightarrow> partition_kind) \<Rightarrow> u8 list \<Rightarrow> nat \<Rightarrow> mbr_entry" where
  "parse_partition K raw idx =
     (let offset = idx * 16 in
      \<lparr>me_partition_type = K (raw ! (offset + 4)),
       me_logical_block_address = from_le_bytes (take 4 (drop (offset + 8) raw)),
       me_sector_count = from_le_bytes (take 4 (drop (offset + 12) raw))\<rparr>)"

definition find_fat_partition :: "(u8 \<Rightarrow> partition_kind) \<Rightarrow> u8 list \<Rightarrow> mbr_entry res" where
  "find_fat_partition K raw =
     (let partitions = map (parse_partition K raw) [0..<4] in
      bindR (expect_some ''called `Option::unwrap()` on a `None` value''
        (position (\<lambda>e. me_partition_type e = Unknown BOOTLOADER_SECOND_STAGE_PARTITION_TYPE) partitions)) (\<lambda>idx.
      bindR (expect_some ''called `Option::unwrap()` on a `None` value''
        (if idx + 1 < length partitions then Some (partitions ! (idx + 1)) else None)) (\<lambda>fat_partition.
      bindR (assertR ''assertion failed: matches!(fat_partition.partition_type, ...)''
        (case me_partition_type fat_partition of PFat12 _ \<Rightarrow> True | PFat16 _ \<Rightarrow> True | PFat32 _ \<Rightarrow> True | _ \<Rightarrow> False)) (\<lambda>_.
        Ok fat_partition))))"

subsection \<open>Loading everything\<close>

definition STAGE_3_DST :: nat where "STAGE_3_DST = 0x00100000"
definition STAGE_4_DST :: nat where "STAGE_4_DST = 0x00130000"
definition KERNEL_DST :: nat where "KERNEL_DST = 0x01000000"

text \<open>The static buffers: \<open>TMP_BUF\<close> of \<open>read_exact\<close>, \<open>DISK_BUFFER\<close> and \<open>MEMORY_MAP\<close>.\<close>

record stage_2_statics =
  tmp_buf_addr :: nat
  disk_buffer_addr :: nat
  memory_map_static :: nat

text \<open>
  \<open>load_files\<close> is the part of \<open>start\<close> that reads files; the state is the file system, the disk
  and memory.  The result are the ranges of stage 4, the kernel, the ramdisk and the configuration file.
\<close>

type_synonym load_state = "file_system \<times> disk_access \<times> memory"

definition load_stages ::
    "nat \<Rightarrow> bios_read \<Rightarrow> stage_2_statics \<Rightarrow> load_state \<Rightarrow> (bios_region_range \<times> load_state) res option" where
  "load_stages fuel B st = (\<lambda>(fs, disk, mem).
     bindF (load_file fuel B (tmp_buf_addr st) (disk_buffer_addr st) (map of_char ''boot-stage-3'') STAGE_3_DST fs disk mem)
       (\<lambda>(stage_3_len, fs, disk, mem).
     bindF (Some (assertR ''assertion failed: STAGE_4_DST > stage_3_end''
                    (STAGE_4_DST > (STAGE_3_DST + stage_3_len) mod 2 ^ 32))) (\<lambda>_.
     bindF (load_file fuel B (tmp_buf_addr st) (disk_buffer_addr st) (map of_char ''boot-stage-4'') STAGE_4_DST fs disk mem)
       (\<lambda>(stage_4_len, fs, disk, mem).
       Some (Ok (\<lparr>range_start = STAGE_4_DST, range_len = stage_4_len\<rparr>, fs, disk, mem))))))"

definition load_kernel_files ::
    "nat \<Rightarrow> bios_read \<Rightarrow> stage_2_statics \<Rightarrow> load_state \<Rightarrow>
     (bios_region_range \<times> bios_region_range \<times> bios_region_range \<times> load_state) res option" where
  "load_kernel_files fuel B st = (\<lambda>(fs, disk, mem).
     bindF (load_file fuel B (tmp_buf_addr st) (disk_buffer_addr st) (map of_char ''kernel-x86_64'') KERNEL_DST fs disk mem)
       (\<lambda>(kernel_len, fs, disk, mem).
     bindF (Some (bindR (sub_w kernel_len 1) (\<lambda>l. mul_u32 (l div 4096 + 1) 4096))) (\<lambda>kernel_bytes.
     let ramdisk_start = (KERNEL_DST + kernel_bytes) mod 2 ^ 32 in
     bindF (try_load_file fuel B (tmp_buf_addr st) (disk_buffer_addr st) (map of_char ''ramdisk'') ramdisk_start fs disk mem)
       (\<lambda>(ramdisk_len, fs, disk, mem).
     let ramdisk_len = (case ramdisk_len of Some l \<Rightarrow> l | None \<Rightarrow> 0);
         config_file_start = (ramdisk_start + ramdisk_len) mod 2 ^ 32
     in
     bindF (try_load_file fuel B (tmp_buf_addr st) (disk_buffer_addr st) (map of_char ''boot.json'') config_file_start fs disk mem)
       (\<lambda>(config_file_len, fs, disk, mem).
     let config_file_len = (case config_file_len of Some l \<Rightarrow> l | None \<Rightarrow> 0) in
       Some (Ok (\<lparr>range_start = KERNEL_DST, range_len = kernel_len\<rparr>, \<lparr>range_start = ramdisk_start, range_len = ramdisk_len\<rparr>,
         \<lparr>range_start = config_file_start, range_len = config_file_len\<rparr>, fs, disk, mem)))))))"

subsection \<open>The main function\<close>

definition select_mode ::
    "nat \<Rightarrow> vbe \<Rightarrow> nat \<Rightarrow> memory \<Rightarrow> (vesa_mode_info \<times> memory) res option" where
  "select_mode fuel V buf mem =
     bindF (Some (expect_ok ''called `Result::unwrap()` on an `Err` value'' (vesa_info_query V (disk_buffer buf) mem))) (\<lambda>(vi, mem).
     bindF (get_best_mode fuel V vi 1280 720 mem) (\<lambda>(mode, mem).
     bindF (Some (expect_some ''no suitable VESA mode found'' mode)) (\<lambda>mode.
     bindF (Some (expect_ok ''called `Result::unwrap()` on an `Err` value'' (enable V mode))) (\<lambda>_.
       Some (Ok (mode, mem))))))"

definition framebuffer_of_mode :: "vesa_mode_info \<Rightarrow> bios_framebuffer_info res" where
  "framebuffer_of_mode m =
     bindR (div_w (bytes_per_scanline m) (vm_bytes_per_pixel m)) (\<lambda>stride.
       Ok \<lparr>bf_region = \<lparr>range_start = framebuffer_start m, range_len = vm_height m * bytes_per_scanline m\<rparr>,
           bf_width = vm_width m, bf_height = vm_height m, bf_bytes_per_pixel = vm_bytes_per_pixel m,
           bf_stride = stride, bf_pixel_format = vm_pixel_format m\<rparr>)"

text \<open>The result: what stage 3 gets, the contents of \<open>MEMORY_MAP\<close> and memory.\<close>

definition start ::
    "nat \<Rightarrow> bios_read \<Rightarrow> e820_call \<Rightarrow> vbe \<Rightarrow> (u8 \<Rightarrow> partition_kind) \<Rightarrow> stage_2_statics \<Rightarrow> nat \<Rightarrow> nat \<Rightarrow> memory \<Rightarrow>
     (bios_info \<times> e820_memory_region list \<times> memory) res option" where
  "start fuel B E V K st dn partition_table_start mem =
     bindF (Some (find_fat_partition K (read_bytes mem partition_table_start 64))) (\<lambda>fat_partition.
     let disk = \<lparr>disk_number = dn, base_offset = me_logical_block_address fat_partition * 512, current_offset = 0\<rparr> in
     bindF (Some (file_system_parse B (tmp_buf_addr st) disk mem)) (\<lambda>(fs, mem).
     bindF (load_stages fuel B st (fs, disk, mem)) (\<lambda>(stage_4, fs, disk, mem).
     bindF (load_kernel_files fuel B st (fs, disk, mem)) (\<lambda>(kernel, ramdisk, config_file, fs, disk, mem).
     bindF (map_option (expect_ok ''called `Result::unwrap()` on an `Err` value'') (query_memory_map fuel E)) (\<lambda>regions.
     bindF (select_mode fuel V (disk_buffer_addr st) mem) (\<lambda>(vesa_mode, mem).
     bindF (Some (bindR (add_u64 (range_start config_file) (range_len config_file)) (\<lambda>e. sub_w e 1))) (\<lambda>last_used.
     bindF (Some (try_into_w 16 (length regions))) (\<lambda>len.
     bindF (Some (framebuffer_of_mode vesa_mode)) (\<lambda>framebuffer.
       Some (Ok (\<lparr>info_stage_4 = stage_4, info_kernel = kernel, info_ramdisk = ramdisk, info_config_file = config_file,
           last_used_addr = last_used, info_framebuffer = framebuffer, memory_map_addr = memory_map_static st,
           memory_map_len = len\<rparr>, regions, mem)))))))))))"

subsection \<open>Specification vocabulary\<close>

text \<open>
  A FAT12 or FAT16 volume at byte \<open>base\<close> of the disk \<open>img\<close> of \<open>nsec\<close> sectors, with a root
  directory of 512 entries, and the static buffers below 1 MiB.
\<close>

definition volume :: "memory \<Rightarrow> nat \<Rightarrow> stage_2_statics \<Rightarrow> nat \<Rightarrow> bpb \<Rightarrow> bool" where
  "volume img nsec st base b \<longleftrightarrow>
     bpb_of_sector (read_bytes img base 512) = Ok b \<and>
     (bpb_fat_type b = Ok Fat12 \<or> bpb_fat_type b = Ok Fat16) \<and> root_directory_size b = Ok DISK_BUFFER_LEN \<and>
     512 dvd base \<and> 512 dvd root_directory_offset b \<and> base + 1024 \<le> nsec * 512 \<and>
     base + root_directory_offset b + DISK_BUFFER_LEN \<le> nsec * 512 \<and> nsec < 2 ^ 55 \<and>
     tmp_buf_addr st + 1536 \<le> 2 ^ 20 \<and> disk_buffer_addr st + DISK_BUFFER_LEN + 512 \<le> 2 ^ 20"

definition root_entries :: "memory \<Rightarrow> nat \<Rightarrow> bpb \<Rightarrow> u8 list list" where
  "root_entries img base b = dir_entries (read_bytes img (base + root_directory_offset b) DISK_BUFFER_LEN)"

text \<open>
  A file of the root directory with its clusters, and its bytes.  Without a file there are no bytes.
\<close>

definition stored_file :: "memory \<Rightarrow> nat \<Rightarrow> stage_2_statics \<Rightarrow> nat \<Rightarrow> bpb \<Rightarrow> nat list \<Rightarrow> fat_file \<Rightarrow> nat list \<Rightarrow> bool" where
  "stored_file img nsec st base b name f cs \<longleftrightarrow>
     find_file_in_entries name (root_entries img base b) = Ok (Some f) \<and> fat_file.file_size f \<le> length cs * bytes_per_cluster b \<and>
     (\<exists>ft mx data. bpb_fat_type b = Ok ft \<and> maximum_valid_cluster b = Ok mx \<and> data_offset b = Ok data \<and>
        cluster_chain ft mx (disk_entry img ft (base + fat_offset b)) (first_cluster f) cs \<and>
        chain_room nsec (tmp_buf_addr st) (disk_buffer_addr st) base b data cs)"

definition file_bytes :: "memory \<Rightarrow> nat \<Rightarrow> bpb \<Rightarrow> fat_file \<Rightarrow> nat list \<Rightarrow> u8 list" where
  "file_bytes img base b f cs =
     (case data_offset b of
        Ok data \<Rightarrow> take (fat_file.file_size f) (cluster_bytes img (base + data) (bytes_per_cluster b) cs)
      | _ \<Rightarrow> [])"

fun stored :: "memory \<Rightarrow> nat \<Rightarrow> stage_2_statics \<Rightarrow> nat \<Rightarrow> bpb \<Rightarrow> nat list \<Rightarrow> (fat_file \<times> nat list) option \<Rightarrow> bool" where
  "stored img nsec st base b name None \<longleftrightarrow> find_file_in_entries name (root_entries img base b) = Ok None"
| "stored img nsec st base b name (Some (f, cs)) \<longleftrightarrow> stored_file img nsec st base b name f cs"

fun stored_bytes :: "memory \<Rightarrow> nat \<Rightarrow> bpb \<Rightarrow> (fat_file \<times> nat list) option \<Rightarrow> u8 list" where
  "stored_bytes img base b None = []"
| "stored_bytes img base b (Some (f, cs)) = file_bytes img base b f cs"

fun clusters_of :: "(fat_file \<times> nat list) option \<Rightarrow> nat list" where
  "clusters_of None = []"
| "clusters_of (Some (f, cs)) = cs"

text \<open>The bytes are in memory at \<open>dst\<close>, and what lies between 1 MiB and \<open>dst\<close> is unchanged.\<close>

definition placed :: "memory \<Rightarrow> nat \<Rightarrow> u8 list \<Rightarrow> memory \<Rightarrow> bool" where
  "placed mem dst bs mem' \<longleftrightarrow>
     read_bytes mem' dst (length bs) = bs \<and> (\<forall>x. 2 ^ 20 \<le> x \<and> x < dst \<longrightarrow> mem' x = mem x)"

text \<open>
  The files of a boot and where they go: each range ends before 4 GiB, also when it is rounded up to
  whole clusters, and stage 4 ends before the kernel.
\<close>

definition ramdisk_at :: "nat \<Rightarrow> nat" where
  "ramdisk_at klen = KERNEL_DST + ((klen - 1) div 4096 + 1) * 4096"

definition boot_files ::
    "memory \<Rightarrow> nat \<Rightarrow> stage_2_statics \<Rightarrow> nat \<Rightarrow> bpb \<Rightarrow> nat \<Rightarrow> fat_file \<times> nat list \<Rightarrow> fat_file \<times> nat list \<Rightarrow> fat_file \<times> nat list \<Rightarrow>
     (fat_file \<times> nat list) option \<Rightarrow> (fat_file \<times> nat list) option \<Rightarrow> bool" where
  "boot_files img nsec st base b fuel s3 s4 k r c \<longleftrightarrow>
     volume img nsec st base b \<and>
     stored img nsec st base b (map of_char ''boot-stage-3'') (Some s3) \<and>
     stored img nsec st base b (map of_char ''boot-stage-4'') (Some s4) \<and>
     stored img nsec st base b (map of_char ''kernel-x86_64'') (Some k) \<and>
     stored img nsec st base b (map of_char ''ramdisk'') r \<and> stored img nsec st base b (map of_char ''boot.json'') c \<and>
     (let size_of = (\<lambda>cs. length cs * bytes_per_cluster b); klen = fat_file.file_size (fst k);
          rstart = ramdisk_at klen; cstart = rstart + length (stored_bytes img base b r)
      in STAGE_3_DST + fat_file.file_size (fst s3) < STAGE_4_DST \<and> STAGE_3_DST + size_of (snd s3) \<le> 2 ^ 32 \<and>
         STAGE_4_DST + fat_file.file_size (fst s4) \<le> KERNEL_DST \<and> STAGE_4_DST + size_of (snd s4) \<le> 2 ^ 32 \<and>
         0 < klen \<and> KERNEL_DST + size_of (snd k) \<le> 2 ^ 32 \<and> rstart < 2 ^ 32 \<and> rstart + size_of (clusters_of r) \<le> 2 ^ 32 \<and>
         cstart < 2 ^ 32 \<and> cstart + size_of (clusters_of c) \<le> 2 ^ 32) \<and>
     length (snd s3) < fuel \<and> length (snd s4) < fuel \<and> length (snd k) < fuel \<and>
     length (clusters_of r) < fuel \<and> length (clusters_of c) < fuel"

text \<open>The firmware offers the mode \<open>m\<close> and leaves memory above 1 MiB alone.\<close>

definition graphics_offered :: "nat \<Rightarrow> vbe \<Rightarrow> nat \<Rightarrow> vesa_mode_info \<Rightarrow> bool" where
  "graphics_offered fuel V buf m \<longleftrightarrow> vm_bytes_per_pixel m \<noteq> 0 \<and>
     (\<forall>mem. \<exists>mem'. select_mode fuel V buf mem = Some (Ok (m, mem')) \<and> (\<forall>x \<ge> 2 ^ 20. mem' x = mem x))"

section \<open>Lemmas\<close>

lemma length_file_bytes:
  "stored_file img nsec st base b name f cs \<Longrightarrow> length (file_bytes img base b f cs) = fat_file.file_size f"
  by (auto simp: stored_file_def file_bytes_def)

lemma loaded_at_placed:
  assumes "loaded_at mem dst bs mem'" and "2 ^ 20 \<le> dst" and "n \<le> length bs"
  shows "placed mem dst (take n bs) mem'"
proof -
  have "read_bytes mem' dst n = take n bs"
    by (rule nth_equalityI) (use assms in \<open>auto simp: loaded_at_def write_slice_apply\<close>)
  then show ?thesis using assms by (simp add: placed_def loaded_at_def write_slice_apply min_absorb2)
qed

lemma placed_before:
  assumes "placed mem dst bs mem'" and "2 ^ 20 \<le> a" and "a + n \<le> dst"
  shows "read_bytes mem' a n = read_bytes mem a n"
  by (rule nth_equalityI) (use assms in \<open>auto simp: placed_def\<close>)

text \<open>Loading a file that may be missing.\<close>

lemma try_load_stored:
  assumes bios: "disk_bios B disk img nsec" and v: "volume img nsec st base b" and r: "stored img nsec st base b name r"
    and fs: "fs_at disk base b fs d" and dst: "2 ^ 20 \<le> dst" "dst + length (clusters_of r) * bytes_per_cluster b \<le> 2 ^ 32"
    and fuel: "length (clusters_of r) < fuel"
  obtains fs' d' mem' where
    "try_load_file fuel B (tmp_buf_addr st) (disk_buffer_addr st) name dst fs d mem =
       Some (Ok (map_option (\<lambda>(f, cs). fat_file.file_size f) r, fs', d', mem'))"
    and "fs_at disk base b fs' d'" and "placed mem dst (stored_bytes img base b r) mem'"
proof (cases r)
  case None
  from v obtain ft where ft: "bpb_fat_type b = Ok ft" "ft \<noteq> Fat32" by (auto simp: volume_def)
  note vs = v[unfolded volume_def]
  have "\<exists>fs' mem'. try_load_file fuel B (tmp_buf_addr st) (disk_buffer_addr st) name dst fs d mem = Some (Ok (None, fs', d, mem')) \<and>
      fs_at disk base b fs' d \<and> loaded_at mem dst [] mem'"
    by (rule try_load_file_absent[OF bios ft _ _ _ fs]) (use vs r None in \<open>simp_all add: root_entries_def\<close>)
  then show ?thesis using None loaded_at_placed[of mem dst "[]" _ 0] dst(1) by (auto intro: that)
next
  case (Some p)
  then obtain f cs where p: "r = Some (f, cs)" by (cases p) auto
  from r p obtain ft mx data where b: "bpb_fat_type b = Ok ft" "maximum_valid_cluster b = Ok mx" "data_offset b = Ok data"
    and chain: "cluster_chain ft mx (disk_entry img ft (base + fat_offset b)) (first_cluster f) cs"
    and room: "chain_room nsec (tmp_buf_addr st) (disk_buffer_addr st) base b data cs"
    and found: "find_file_in_entries name (dir_entries (read_bytes img (base + root_directory_offset b) DISK_BUFFER_LEN)) = Ok (Some f)"
    and sz: "fat_file.file_size f \<le> length cs * bytes_per_cluster b"
    by (auto simp: stored_file_def root_entries_def)
  have ft: "ft \<noteq> Fat32" using v b(1) by (auto simp: volume_def)
  from try_load_file_spec[OF bios b(1) ft b(2,3) _ _ found chain fs room _ dst(1), of fuel mem] v p dst(2) fuel obtain fs' d' mem' where
    "try_load_file fuel B (tmp_buf_addr st) (disk_buffer_addr st) name dst fs d mem = Some (Ok (Some (fat_file.file_size f), fs', d', mem'))"
    "fs_at disk base b fs' d'" "loaded_at mem dst (cluster_bytes img (base + data) (bytes_per_cluster b) cs) mem'"
    by (auto simp: volume_def)
  then show ?thesis using loaded_at_placed[OF _ dst(1), of mem _ mem' "fat_file.file_size f"] sz p b(3) by (intro that) (auto simp: file_bytes_def)
qed

lemma load_stored:
  assumes bios: "disk_bios B disk img nsec" and v: "volume img nsec st base b" and r: "stored_file img nsec st base b name f cs"
    and fs: "fs_at disk base b fs d" and dst: "2 ^ 20 \<le> dst" "dst + length cs * bytes_per_cluster b \<le> 2 ^ 32"
    and fuel: "length cs < fuel"
  obtains fs' d' mem' where
    "load_file fuel B (tmp_buf_addr st) (disk_buffer_addr st) name dst fs d mem = Some (Ok (fat_file.file_size f, fs', d', mem'))"
    and "fs_at disk base b fs' d'" and "placed mem dst (file_bytes img base b f cs) mem'"
  by (rule try_load_stored[OF bios v, of name "Some (f, cs)" fs d dst fuel mem]) (use assms that in \<open>auto simp: load_file_def\<close>)

lemma length_stored_bytes:
  "stored img nsec st base b name r \<Longrightarrow>
     length (stored_bytes img base b r) = (case r of None \<Rightarrow> 0 | Some (f, cs) \<Rightarrow> fat_file.file_size f)"
  by (cases r) (auto simp: length_file_bytes)

lemma stored_bytes_le:
  "stored img nsec st base b name r \<Longrightarrow> length (stored_bytes img base b r) \<le> length (clusters_of r) * bytes_per_cluster b"
  by (cases r) (auto simp: length_file_bytes, auto simp: stored_file_def)

lemma file_system_parsed:
  assumes bios: "disk_bios B disk img nsec" and v: "volume img nsec st base b"
    and d: "d = \<lparr>disk_number = disk, base_offset = base, current_offset = 0\<rparr>"
  obtains fs mem' where "file_system_parse B (tmp_buf_addr st) d mem = Ok (fs, mem')" and "fs_at disk base b fs d"
    and "\<And>x. 2 ^ 20 \<le> x \<Longrightarrow> mem' x = mem x"
proof -
  obtain bs d' mem' where r: "read_exact B (tmp_buf_addr st) 512 (d, mem) = Ok (bs, d', mem')"
    using disk_bios.read_exact_total[OF bios, of d 512 "tmp_buf_addr st" mem] v by (auto simp: d volume_def split_paired_Ex)
  have al: "disk_number d = disk" "512 dvd base_offset d" using v by (simp_all add: d volume_def)
  note sp = disk_bios.read_exact_spec[OF bios r al]
  show thesis
  proof (rule that[of "\<lparr>fs_disk = d', fs_bpb = b\<rparr>" mem'])
    show "file_system_parse B (tmp_buf_addr st) d mem = Ok (\<lparr>fs_disk = d', fs_bpb = b\<rparr>, mem')"
      using r sp(1) v by (simp add: file_system_parse_def bpb_parse_def d volume_def)
    show "fs_at disk base b \<lparr>fs_disk = d', fs_bpb = b\<rparr> d" using sp(3,4) by (simp add: fs_at_def d)
    show "mem' x = mem x" if "2 ^ 20 \<le> x" for x using sp(2) that v by (auto simp: volume_def write_slice_apply)
  qed
qed

lemma load_stages_spec:
  assumes bios: "disk_bios B disk img nsec" and f: "boot_files img nsec st base b fuel (f3, cs3) (f4, cs4) k r c"
    and fs: "fs_at disk base b fs d"
  obtains fs' d' mem' where
    "load_stages fuel B st (fs, d, mem) =
       Some (Ok (\<lparr>range_start = STAGE_4_DST, range_len = fat_file.file_size f4\<rparr>, fs', d', mem'))"
    and "fs_at disk base b fs' d'"
    and "read_bytes mem' STAGE_3_DST (fat_file.file_size f3) = file_bytes img base b f3 cs3"
    and "read_bytes mem' STAGE_4_DST (fat_file.file_size f4) = file_bytes img base b f4 cs4"
proof -
  note f = f[unfolded boot_files_def Let_def]
  have v: "volume img nsec st base b" and s3: "stored_file img nsec st base b (map of_char ''boot-stage-3'') f3 cs3"
    and s4: "stored_file img nsec st base b (map of_char ''boot-stage-4'') f4 cs4" using f by simp_all
  have dst: "2 ^ 20 \<le> STAGE_3_DST" "2 ^ 20 \<le> STAGE_4_DST" by (simp_all add: STAGE_3_DST_def STAGE_4_DST_def)
  obtain fs1 d1 mem1 where l3: "load_file fuel B (tmp_buf_addr st) (disk_buffer_addr st) (map of_char ''boot-stage-3'') STAGE_3_DST fs d mem =
      Some (Ok (fat_file.file_size f3, fs1, d1, mem1))" "fs_at disk base b fs1 d1"
    and p3: "placed mem STAGE_3_DST (file_bytes img base b f3 cs3) mem1"
    by (rule load_stored[OF bios v s3 fs dst(1), where mem = mem and fuel = fuel]) (use f that in simp_all)
  obtain fs2 d2 mem2 where l4: "load_file fuel B (tmp_buf_addr st) (disk_buffer_addr st) (map of_char ''boot-stage-4'') STAGE_4_DST fs1 d1 mem1 =
      Some (Ok (fat_file.file_size f4, fs2, d2, mem2))" "fs_at disk base b fs2 d2"
    and p4: "placed mem1 STAGE_4_DST (file_bytes img base b f4 cs4) mem2"
    by (rule load_stored[OF bios v s4 l3(2) dst(2), where mem = mem1 and fuel = fuel]) (use f that in simp_all)
  have fit: "STAGE_3_DST + fat_file.file_size f3 < STAGE_4_DST" using f by simp
  then have "(STAGE_3_DST + fat_file.file_size f3) mod 2 ^ 32 < STAGE_4_DST" by (simp add: STAGE_4_DST_def)
  then have "load_stages fuel B st (fs, d, mem) =
      Some (Ok (\<lparr>range_start = STAGE_4_DST, range_len = fat_file.file_size f4\<rparr>, fs2, d2, mem2))"
    using l3 l4 by (simp add: load_stages_def)
  moreover have "read_bytes mem2 STAGE_3_DST (fat_file.file_size f3) = file_bytes img base b f3 cs3"
    using placed_before[OF p4 dst(1), of "fat_file.file_size f3"] fit p3 length_file_bytes[OF s3] by (simp add: placed_def)
  ultimately show thesis using that l4(2) p4 length_file_bytes[OF s4] by (simp add: placed_def)
qed

lemma load_kernel_files_spec:
  assumes bios: "disk_bios B disk img nsec" and f: "boot_files img nsec st base b fuel s3 s4 (fk, csk) r c"
    and fs: "fs_at disk base b fs d"
  defines "rstart \<equiv> ramdisk_at (fat_file.file_size fk)"
  defines "cstart \<equiv> rstart + length (stored_bytes img base b r)"
  obtains fs' d' mem' where
    "load_kernel_files fuel B st (fs, d, mem) =
       Some (Ok (\<lparr>range_start = KERNEL_DST, range_len = fat_file.file_size fk\<rparr>,
         \<lparr>range_start = rstart, range_len = length (stored_bytes img base b r)\<rparr>,
         \<lparr>range_start = cstart, range_len = length (stored_bytes img base b c)\<rparr>, fs', d', mem'))"
    and "read_bytes mem' KERNEL_DST (fat_file.file_size fk) = file_bytes img base b fk csk"
    and "read_bytes mem' rstart (length (stored_bytes img base b r)) = stored_bytes img base b r"
    and "read_bytes mem' cstart (length (stored_bytes img base b c)) = stored_bytes img base b c"
    and "\<forall>x. 2 ^ 20 \<le> x \<and> x < KERNEL_DST \<longrightarrow> mem' x = mem x"
proof -
  note f = f[unfolded boot_files_def Let_def, simplified, folded rstart_def cstart_def]
  have v: "volume img nsec st base b" and sk: "stored_file img nsec st base b (map of_char ''kernel-x86_64'') fk csk"
    and sr: "stored img nsec st base b (map of_char ''ramdisk'') r" and sc: "stored img nsec st base b (map of_char ''boot.json'') c"
    using f by simp_all
  have kd: "2 ^ 20 \<le> KERNEL_DST" by (simp add: KERNEL_DST_def)
  have le: "KERNEL_DST + fat_file.file_size fk \<le> rstart"
  proof -
    have "fat_file.file_size fk - 1 < ((fat_file.file_size fk - 1) div 4096 + 1) * 4096" by (simp add: dividend_less_times_div)
    then show ?thesis by (simp add: rstart_def ramdisk_at_def)
  qed
  have rd: "2 ^ 20 \<le> rstart" "2 ^ 20 \<le> cstart" using kd le by (simp_all add: cstart_def)
  obtain fs1 d1 mem1 where lk: "load_file fuel B (tmp_buf_addr st) (disk_buffer_addr st) (map of_char ''kernel-x86_64'') KERNEL_DST fs d mem =
      Some (Ok (fat_file.file_size fk, fs1, d1, mem1))" "fs_at disk base b fs1 d1"
    and pk: "placed mem KERNEL_DST (file_bytes img base b fk csk) mem1"
    by (rule load_stored[OF bios v sk fs kd, where mem = mem and fuel = fuel]) (use f that in simp_all)
  obtain fs2 d2 mem2 where lr: "try_load_file fuel B (tmp_buf_addr st) (disk_buffer_addr st) (map of_char ''ramdisk'') rstart fs1 d1 mem1 =
      Some (Ok (map_option (\<lambda>(f, cs). fat_file.file_size f) r, fs2, d2, mem2))" "fs_at disk base b fs2 d2"
    and pr: "placed mem1 rstart (stored_bytes img base b r) mem2"
    by (rule try_load_stored[OF bios v sr lk(2) rd(1), where mem = mem1 and fuel = fuel]) (use f that in simp_all)
  obtain fs3 d3 mem3 where lc: "try_load_file fuel B (tmp_buf_addr st) (disk_buffer_addr st) (map of_char ''boot.json'') cstart fs2 d2 mem2 =
      Some (Ok (map_option (\<lambda>(f, cs). fat_file.file_size f) c, fs3, d3, mem3))"
    and pc: "placed mem2 cstart (stored_bytes img base b c) mem3"
    by (rule try_load_stored[OF bios v sc lr(2) rd(2), where mem = mem2 and fuel = fuel]) (use f that in \<open>simp_all add: cstart_def\<close>)
  have len: "(case map_option (\<lambda>(f, cs). fat_file.file_size f) r of Some l \<Rightarrow> l | None \<Rightarrow> 0) = length (stored_bytes img base b r)"
    "(case map_option (\<lambda>(f, cs). fat_file.file_size f) c of Some l \<Rightarrow> l | None \<Rightarrow> 0) = length (stored_bytes img base b c)"
    using length_stored_bytes[OF sr] length_stored_bytes[OF sc] by (auto split: option.splits)
  have ops: "bindR (sub_w (fat_file.file_size fk) 1) (\<lambda>l. mul_u32 (l div 4096 + 1) 4096) = Ok (rstart - KERNEL_DST)"
    "(KERNEL_DST + (rstart - KERNEL_DST)) mod 2 ^ 32 = rstart" "(rstart + length (stored_bytes img base b r)) mod 2 ^ 32 = cstart"
    using f by (auto simp: sub_w_def mul_w_def rstart_def ramdisk_at_def cstart_def)
  have run: "load_kernel_files fuel B st (fs, d, mem) =
      Some (Ok (\<lparr>range_start = KERNEL_DST, range_len = fat_file.file_size fk\<rparr>,
        \<lparr>range_start = rstart, range_len = length (stored_bytes img base b r)\<rparr>,
        \<lparr>range_start = cstart, range_len = length (stored_bytes img base b c)\<rparr>, fs3, d3, mem3))"
    unfolding load_kernel_files_def prod.case lk(1) bindF.simps ops(1) Let_def ops(2) lr(1) len ops(3) lc ..
  have rle: "rstart + length (stored_bytes img base b r) \<le> cstart" by (simp add: cstart_def)
  show thesis
  proof (rule that[OF run])
    have "read_bytes mem3 KERNEL_DST (fat_file.file_size fk) = read_bytes mem1 KERNEL_DST (fat_file.file_size fk)"
      using placed_before[OF pc kd, of "fat_file.file_size fk"] placed_before[OF pr kd le] le rle by simp
    then show "read_bytes mem3 KERNEL_DST (fat_file.file_size fk) = file_bytes img base b fk csk"
      using pk length_file_bytes[OF sk] by (simp add: placed_def)
    show "read_bytes mem3 rstart (length (stored_bytes img base b r)) = stored_bytes img base b r"
      using placed_before[OF pc rd(1) rle] pr by (simp add: placed_def)
    show "read_bytes mem3 cstart (length (stored_bytes img base b c)) = stored_bytes img base b c"
      using pc by (simp add: placed_def)
    show "\<forall>x. 2 ^ 20 \<le> x \<and> x < KERNEL_DST \<longrightarrow> mem3 x = mem x"
      using pk pr pc le rle by (auto simp: placed_def)
  qed
qed

section \<open>Properties\<close>

text \<open>C3. Stage 2 hands on what it announces: when the partition table leads to a volume with the boot
  files, the firmware reports a memory map and offers a graphics mode, the main function returns; stage 3
  and stage 4 are at their fixed addresses, the kernel, the ramdisk and the configuration file are at
  the announced ranges, byte by byte and undisturbed by what was loaded later, the memory map is that of
  the firmware, and the last used address is the last byte of the last range.\<close>

theorem boot_files_in_place:
  assumes bios: "disk_bios B disk img nsec"
    and p: "find_fat_partition K (read_bytes mem pt 64) = Ok p" "base = me_logical_block_address p * 512"
    and f: "boot_files img nsec st base b fuel (f3, cs3) (f4, cs4) (fk, csk) r c"
    and e: "e820_reports E 0 ds" "length (filter (\<lambda>d. e820_len d \<noteq> 0) ds) \<le> MEMORY_MAP_CAPACITY" "length ds \<le> fuel"
    and g: "graphics_offered fuel V (disk_buffer_addr st) m"
  shows "\<exists>info mem'. start fuel B E V K st disk pt mem = Some (Ok (info, filter (\<lambda>d. e820_len d \<noteq> 0) ds, mem')) \<and>
    read_bytes mem' STAGE_3_DST (fat_file.file_size f3) = file_bytes img base b f3 cs3 \<and>
    info_stage_4 info = \<lparr>range_start = STAGE_4_DST, range_len = fat_file.file_size f4\<rparr> \<and>
    read_bytes mem' STAGE_4_DST (fat_file.file_size f4) = file_bytes img base b f4 cs4 \<and>
    info_kernel info = \<lparr>range_start = KERNEL_DST, range_len = fat_file.file_size fk\<rparr> \<and>
    read_bytes mem' KERNEL_DST (fat_file.file_size fk) = file_bytes img base b fk csk \<and>
    read_bytes mem' (range_start (info_ramdisk info)) (range_len (info_ramdisk info)) = stored_bytes img base b r \<and>
    read_bytes mem' (range_start (info_config_file info)) (range_len (info_config_file info)) = stored_bytes img base b c \<and>
    KERNEL_DST + fat_file.file_size fk \<le> range_start (info_ramdisk info) \<and>
    range_start (info_ramdisk info) + range_len (info_ramdisk info) = range_start (info_config_file info) \<and>
    last_used_addr info + 1 = range_start (info_config_file info) + range_len (info_config_file info)"
proof -
  note fs = f[unfolded boot_files_def Let_def]
  let ?d = "\<lparr>disk_number = disk, base_offset = base, current_offset = 0\<rparr>" and ?ds = "filter (\<lambda>d. e820_len d \<noteq> 0) ds"
  have v: "volume img nsec st base b" using fs by simp
  obtain fs1 mem1 where i: "file_system_parse B (tmp_buf_addr st) ?d mem = Ok (fs1, mem1)" "fs_at disk base b fs1 ?d"
    by (rule file_system_parsed[OF bios v refl, of mem])
  obtain fs2 d2 mem2 where s: "load_stages fuel B st (fs1, ?d, mem1) =
      Some (Ok (\<lparr>range_start = STAGE_4_DST, range_len = fat_file.file_size f4\<rparr>, fs2, d2, mem2))" "fs_at disk base b fs2 d2"
    and b3: "read_bytes mem2 STAGE_3_DST (fat_file.file_size f3) = file_bytes img base b f3 cs3"
    and b4: "read_bytes mem2 STAGE_4_DST (fat_file.file_size f4) = file_bytes img base b f4 cs4"
    by (rule load_stages_spec[OF bios f i(2), of mem1])
  let ?rs = "ramdisk_at (fat_file.file_size fk)" and ?rl = "length (stored_bytes img base b r)" and ?cl = "length (stored_bytes img base b c)"
  obtain fs3 d3 mem3 where k: "load_kernel_files fuel B st (fs2, d2, mem2) =
      Some (Ok (\<lparr>range_start = KERNEL_DST, range_len = fat_file.file_size fk\<rparr>, \<lparr>range_start = ?rs, range_len = ?rl\<rparr>,
        \<lparr>range_start = ?rs + ?rl, range_len = ?cl\<rparr>, fs3, d3, mem3))"
    and bk: "read_bytes mem3 KERNEL_DST (fat_file.file_size fk) = file_bytes img base b fk csk"
    and br: "read_bytes mem3 ?rs ?rl = stored_bytes img base b r" and bc: "read_bytes mem3 (?rs + ?rl) ?cl = stored_bytes img base b c"
    and low: "\<forall>x. 2 ^ 20 \<le> x \<and> x < KERNEL_DST \<longrightarrow> mem3 x = mem2 x"
    by (rule load_kernel_files_spec[OF bios f s(2), of mem2])
  have q: "query_memory_map fuel E = Some (Ok ?ds)"
    using query_loop_spec[OF e(1), of "replicate 24 0" "[]" fuel] e(2,3) by (simp add: query_memory_map_def)
  from g obtain mem4 where m: "select_mode fuel V (disk_buffer_addr st) mem3 = Some (Ok (m, mem4))"
    and same: "\<forall>x \<ge> 2 ^ 20. mem4 x = mem3 x" and bpp: "vm_bytes_per_pixel m \<noteq> 0" by (auto simp: graphics_offered_def)
  have same: "read_bytes mem4 a n = read_bytes mem3 a n" if "2 ^ 20 \<le> a" for a n
    using same that by (intro nth_equalityI) auto
  have low: "read_bytes mem3 a n = read_bytes mem2 a n" if "2 ^ 20 \<le> a" "a + n \<le> KERNEL_DST" for a n
    using low that by (intro nth_equalityI) auto
  have dst: "2 ^ 20 \<le> STAGE_3_DST" "2 ^ 20 \<le> STAGE_4_DST" "2 ^ 20 \<le> KERNEL_DST" "2 ^ 20 \<le> ?rs" "KERNEL_DST + fat_file.file_size fk \<le> ?rs"
    by (simp_all add: STAGE_3_DST_def STAGE_4_DST_def KERNEL_DST_def ramdisk_at_def dividend_less_times_div)
  have "?rs + ?rl + ?cl \<le> 2 ^ 32" using fs stored_bytes_le[of img nsec st base b _ c] by fastforce
  moreover have pos: "1 \<le> ?rs + ?rl + ?cl" using dst(4) by simp
  ultimately have last: "bindR (add_u64 (?rs + ?rl) ?cl) (\<lambda>e. sub_w e 1) = Ok (?rs + ?rl + ?cl - 1)" by (simp add: add_w_def sub_w_def)
  have len: "try_into_w 16 (length ?ds) = Ok (length ?ds)" using e(2) by (simp add: try_into_w_def MEMORY_MAP_CAPACITY_def)
  have fit: "STAGE_3_DST + fat_file.file_size f3 \<le> KERNEL_DST" "STAGE_4_DST + fat_file.file_size f4 \<le> KERNEL_DST"
    using fs by (auto simp: STAGE_4_DST_def KERNEL_DST_def)
  show ?thesis
    using p i(1) s(1) k q m last len bpp b3 b4 bk br bc same dst low fit pos
    by (simp add: start_def framebuffer_of_mode_def div_w_def)
qed

text \<open>A disk with a partition of three files at sector 1, each of one cluster.\<close>

definition short_entry :: "string \<Rightarrow> u8 list \<Rightarrow> u8 list" where
  "short_entry name bs = map word_of_nat (map of_char name) @ [0x20] @ replicate 14 0 @ bs"

definition boot_entries :: "u8 list list" where
  "boot_entries =
     [long_name_entry (map of_char ''boot-stage-3'') 0x41 0, short_entry ''BOOT-S~1   '' [2, 0, 0x2C, 1, 0, 0],
      long_name_entry (map of_char ''boot-stage-4'') 0x41 0, short_entry ''BOOT-S~2   '' [3, 0, 0x90, 1, 0, 0],
      long_name_entry (map of_char ''kernel-x86_64'') 0x41 0, short_entry ''KERNEL~1   '' [4, 0, 0xF4, 1, 0, 0]]"

definition boot_sector_bytes :: "u8 list" where
  "boot_sector_bytes = replicate 11 0 @ [0, 2, 1, 1, 0, 1, 0, 2, 100, 0, 0xF8, 1, 0] @ replicate 488 0"

definition boot_disk :: memory where
  "boot_disk a =
     (if a < 512 then 0
      else if a < 1024 then boot_sector_bytes ! (a - 512)
      else if a < 1033 then (if a = 1024 then 0xF8 else 0xFF)
      else if 1536 \<le> a \<and> a < 1728 then concat boot_entries ! (a - 1536)
      else if a < 17920 then 0 else word_of_nat (a mod 251))"

lemma boot_entries_length: "\<forall>e \<in> set boot_entries. length e = 32"
  by (simp add: boot_entries_def short_entry_def long_name_entry_def long_name_units_def Let_def length_concat sum_list_replicate)

lemma boot_entries_chunks: "\<forall>e \<in> set es. length e = 32 \<Longrightarrow> chunks 32 (concat es @ xs) = es @ chunks 32 xs"
  by (induction es) (simp_all add: chunks_append)

lemma boot_disk_entries: "root_entries boot_disk 512 example_bpb = boot_entries"
proof -
  have "length (concat boot_entries) = 192"
    by (simp add: boot_entries_def short_entry_def long_name_entry_def long_name_units_def Let_def length_concat sum_list_replicate)
  then have "read_bytes boot_disk 1536 192 = concat boot_entries"
    by (intro nth_equalityI) (simp_all add: read_bytes_def boot_disk_def)
  then have r: "read_bytes boot_disk 1536 DISK_BUFFER_LEN = concat boot_entries @ read_bytes boot_disk 1728 16192"
    using read_bytes_add[of boot_disk 1536 192 16192] by (simp add: DISK_BUFFER_LEN_def)
  have z: "takeWhile (\<lambda>raw. raw ! 0 \<noteq> 0) (chunks 32 (read_bytes boot_disk 1728 16192)) = []"
    by (subst chunks.simps) (simp add: boot_disk_def read_bytes_def)
  have hd: "\<forall>e \<in> set boot_entries. e ! 0 \<noteq> 0 \<and> e ! 0 \<noteq> 0xE5"
    by (simp add: boot_entries_def short_entry_def long_name_entry_def Let_def)
  have "takeWhile (\<lambda>raw. raw ! 0 \<noteq> 0) (boot_entries @ chunks 32 (read_bytes boot_disk 1728 16192)) = boot_entries"
    using z hd by (simp add: takeWhile_append2)
  moreover have "filter (\<lambda>raw. raw ! 0 \<noteq> 0xE5) boot_entries = boot_entries" using hd by (simp add: filter_id_conv)
  ultimately show ?thesis
    by (simp add: root_entries_def example_bpb_values r dir_entries_def boot_entries_chunks[OF boot_entries_length]
        DIRECTORY_ENTRY_BYTES_def END_OF_DIRECTORY_PREFIX_def UNUSED_ENTRY_PREFIX_def)
qed

lemma short_entry_parse:
  "entry_parse (short_entry ''BOOT-S~1   '' [2, 0, 0x2C, 1, 0, 0]) = Ok (Normal \<lparr>short_filename_main = map of_char ''BOOT-S~1'',
     short_filename_extension = [], n_attributes = 0x20, n_first_cluster = 2, n_file_size = 300\<rparr>)"
  "entry_parse (short_entry ''BOOT-S~2   '' [3, 0, 0x90, 1, 0, 0]) = Ok (Normal \<lparr>short_filename_main = map of_char ''BOOT-S~2'',
     short_filename_extension = [], n_attributes = 0x20, n_first_cluster = 3, n_file_size = 400\<rparr>)"
  "entry_parse (short_entry ''KERNEL~1   '' [4, 0, 0xF4, 1, 0, 0]) = Ok (Normal \<lparr>short_filename_main = map of_char ''KERNEL~1'',
     short_filename_extension = [], n_attributes = 0x20, n_first_cluster = 4, n_file_size = 500\<rparr>)"
  by (simp_all add: short_entry_def entry_parse_def LONG_NAME_def slice_to_string_def slice_range_def ok_or_def le_field_def
      take_Cons' nth_append Let_def)

lemma boot_disk_find:
  "find_file_in_entries (map of_char ''boot-stage-3'') boot_entries = Ok (Some \<lparr>first_cluster = 2, fat_file.file_size = 300\<rparr>)"
  "find_file_in_entries (map of_char ''boot-stage-4'') boot_entries = Ok (Some \<lparr>first_cluster = 3, fat_file.file_size = 400\<rparr>)"
  "find_file_in_entries (map of_char ''kernel-x86_64'') boot_entries = Ok (Some \<lparr>first_cluster = 4, fat_file.file_size = 500\<rparr>)"
  "find_file_in_entries (map of_char ''ramdisk'') boot_entries = Ok None"
  "find_file_in_entries (map of_char ''boot.json'') boot_entries = Ok None"
proof -
  obtain a where a: "entry_parse (long_name_entry (map of_char ''boot-stage-3'') 0x41 0) = Ok (LongName a)"
    "long_name a = map Some (map of_char ''boot-stage-3'')" by (rule long_name_entry_parse[of "map of_char ''boot-stage-3''"]) auto
  obtain b where b: "entry_parse (long_name_entry (map of_char ''boot-stage-4'') 0x41 0) = Ok (LongName b)"
    "long_name b = map Some (map of_char ''boot-stage-4'')" by (rule long_name_entry_parse[of "map of_char ''boot-stage-4''"]) auto
  obtain c where c: "entry_parse (long_name_entry (map of_char ''kernel-x86_64'') 0x41 0) = Ok (LongName c)"
    "long_name c = map Some (map of_char ''kernel-x86_64'')" by (rule long_name_entry_parse[of "map of_char ''kernel-x86_64''"]) auto
  note e = find_file_in_entries_def boot_entries_def a b c short_entry_parse DIRECTORY_def
  show "find_file_in_entries (map of_char ''boot-stage-3'') boot_entries = Ok (Some \<lparr>first_cluster = 2, fat_file.file_size = 300\<rparr>)"
    "find_file_in_entries (map of_char ''boot-stage-4'') boot_entries = Ok (Some \<lparr>first_cluster = 3, fat_file.file_size = 400\<rparr>)"
    "find_file_in_entries (map of_char ''kernel-x86_64'') boot_entries = Ok (Some \<lparr>first_cluster = 4, fat_file.file_size = 500\<rparr>)"
    "find_file_in_entries (map of_char ''ramdisk'') boot_entries = Ok None"
    "find_file_in_entries (map of_char ''boot.json'') boot_entries = Ok None"
    unfolding e find_entry.simps next_entry.simps res.case by (simp_all add: e)
qed

definition boot_statics :: stage_2_statics where
  "boot_statics = \<lparr>tmp_buf_addr = 0x9000, disk_buffer_addr = 0xA000, memory_map_static = 0xF000\<rparr>"

lemma boot_volume: "volume boot_disk 120 boot_statics 512 example_bpb"
proof -
  have "read_bytes boot_disk 512 512 = boot_sector_bytes"
    by (rule nth_equalityI) (simp_all add: boot_disk_def boot_sector_bytes_def)
  moreover have "bpb_of_sector boot_sector_bytes = Ok example_bpb"
    by (simp add: boot_sector_bytes_def bpb_of_sector_def le_field_def Let_def take_Cons' example_bpb_def)
  ultimately show ?thesis by (simp add: volume_def example_bpb_values boot_statics_def DISK_BUFFER_LEN_def)
qed

lemma boot_chain:
  assumes "c \<in> {2, 3, 4}"
  shows "cluster_chain Fat12 67 (disk_entry boot_disk Fat12 1024) c [c]"
proof (intro chain_step chain_end)
  from assms consider "c = 2" | "c = 3" | "c = 4" by auto
  then have "disk_entry boot_disk Fat12 1024 c = 0xFFF"
    by cases (simp_all add: disk_entry_def boot_disk_def read_bytes_def upt_conv_Cons)
  then show "classify_fat_entry Fat12 (disk_entry boot_disk Fat12 1024 c) 67 = Inr EndOfFile"
    by (simp add: classify_fat_entry_def)
qed (use assms in \<open>auto simp: classify_fat_entry_def\<close>)

lemma boot_disk_stored:
  assumes "c \<in> {2, 3, 4}" and "sz \<le> 512"
    and "find_file_in_entries name boot_entries = Ok (Some \<lparr>first_cluster = c, fat_file.file_size = sz\<rparr>)"
  shows "stored_file boot_disk 120 boot_statics 512 example_bpb name \<lparr>first_cluster = c, fat_file.file_size = sz\<rparr> [c]"
  using assms boot_chain[OF assms(1)]
  by (auto simp: stored_file_def boot_disk_entries example_bpb_values chain_room_def boot_statics_def DISK_BUFFER_LEN_def)

lemma boot_disk_files:
  "boot_files boot_disk 120 boot_statics 512 example_bpb 3 (\<lparr>first_cluster = 2, fat_file.file_size = 300\<rparr>, [2])
     (\<lparr>first_cluster = 3, fat_file.file_size = 400\<rparr>, [3]) (\<lparr>first_cluster = 4, fat_file.file_size = 500\<rparr>, [4]) None None"
  using boot_volume boot_disk_stored[OF _ _ boot_disk_find(1)] boot_disk_stored[OF _ _ boot_disk_find(2)]
    boot_disk_stored[OF _ _ boot_disk_find(3)] boot_disk_find(4,5)
  by (simp add: boot_files_def boot_disk_entries ramdisk_at_def example_bpb_values STAGE_3_DST_def STAGE_4_DST_def KERNEL_DST_def)

definition boot_controller :: "u8 list" where
  "boot_controller = replicate 14 0 @ [0x14, 0, 0, 0x0A, 0, 0, 1, 1, 0xFF, 0xFF]"

lemma boot_graphics:
  "graphics_offered 3 (table_vbe boot_controller example_block) 0xA000 (mode_of_block 0x101 (pad_block (example_block 0x101)))"
proof -
  let ?V = "table_vbe boot_controller example_block" and ?m = "mode_of_block 0x101 (pad_block (example_block 0x101))"
  let ?vi = "\<lparr>info_addr = 0xA000, rest_addr = 0xA200, rest_len = 0x3E00\<rparr>"
  have "\<exists>mem'. select_mode 3 ?V 0xA000 mem = Some (Ok (?m, mem')) \<and> (\<forall>x \<ge> 2 ^ 20. mem' x = mem x)" for mem
  proof -
    let ?mem = "write_slice (fill_bytes mem 0xA000 0 512) 0xA000 boot_controller"
    have q: "vesa_info_query ?V (disk_buffer 0xA000) mem = Ok (?vi, ?mem)"
      by (simp add: vesa_info_query_def disk_buffer_def DISK_BUFFER_LEN_def table_vbe_def Let_def)
    have "video_mode_ptr ?vi ?mem = 0xA014"
      by (simp add: video_mode_ptr_def field_at_def read_bytes_def upt_conv_Cons write_slice_apply boot_controller_def nth_append Let_def)
    then have "modes_listed ?vi [0x101] ?mem"
      by (simp add: modes_listed_def field_at_def read_bytes_def upt_conv_Cons write_slice_apply boot_controller_def nth_append)
    from vesa_bios.best_mode_loop_spec[OF vesa_table.vesa_bios_axioms[where ctl = boot_controller and blk = example_block] this,
        where i = 0 and fuel = 3 and w = 1280 and h = 720 and best = None] obtain mem' where
      b: "get_best_mode 3 ?V ?vi 1280 720 ?mem = Some (Ok (fold (consider_mode 1280 720) [?m] None, mem'))"
      and same: "\<forall>x. x < 0xA200 \<or> 0xA300 \<le> x \<longrightarrow> mem' x = ?mem x" by (auto simp: get_best_mode_def)
    have "fold (consider_mode 1280 720) [?m] None = Some ?m"
      by (simp add: consider_mode_def replaces_def mode_suitable_def supported_modes_def example_mode)
    then have "select_mode 3 ?V 0xA000 mem = Some (Ok (?m, mem'))"
      using q b by (simp add: select_mode_def enable_def) (simp add: table_vbe_def)
    moreover have "mem' x = mem x" if "2 ^ 20 \<le> x" for x
      using same that by (simp add: write_slice_apply fill_bytes_apply boot_controller_def)
    ultimately show ?thesis by blast
  qed
  then show ?thesis by (simp add: graphics_offered_def example_mode)
qed

definition boot_table :: memory where
  "boot_table a = (if a = 0x7dc2 then 0x20 else if a = 0x7dc6 then 9 else if a = 0x7dd2 then 0x0C else if a = 0x7dd6 then 1 else 0)"

definition boot_kind :: "u8 \<Rightarrow> partition_kind" where
  "boot_kind t = (if t = 0x0C then PFat32 12 else Unknown (unat t))"

lemma boot_partition:
  "find_fat_partition boot_kind (read_bytes boot_table 0x7dbe 64) =
     Ok \<lparr>me_partition_type = PFat32 12, me_logical_block_address = 1, me_sector_count = 0\<rparr>"
  by (simp add: find_fat_partition_def parse_partition_def read_bytes_def upt_conv_Cons boot_table_def boot_kind_def
      BOOTLOADER_SECOND_STAGE_PARTITION_TYPE_def Let_def)

theorem boot_files_in_place_witness:
  "\<exists>info regions mem'. start 3 (image_bios 0x80 boot_disk 120) example_e820 (table_vbe boot_controller example_block) boot_kind
       boot_statics 0x80 0x7dbe boot_table = Some (Ok (info, regions, mem')) \<and>
     info_kernel info = \<lparr>range_start = 0x1000000, range_len = 500\<rparr> \<and>
     read_bytes mem' 0x1000000 500 = read_bytes boot_disk 18944 500"
proof -
  let ?a = "\<lparr>e820_start_addr = 0, e820_len = 0x9fc00, region_type = 1, acpi_extended_attributes = 1\<rparr>"
  let ?b = "\<lparr>e820_start_addr = 0x9fc00, e820_len = 0, region_type = 2, acpi_extended_attributes = 0\<rparr>"
  let ?c = "\<lparr>e820_start_addr = 0x100000, e820_len = 0x7ee0000, region_type = 1, acpi_extended_attributes = 0\<rparr>"
  have "e820_answers example_e820 0 ?a 1" "e820_answers example_e820 1 ?b 2" "e820_answers example_e820 2 ?c 0"
    by (simp_all add: e820_answers_def example_e820_def e820_fits_def)
  then have e: "e820_reports example_e820 0 [?a, ?b, ?c]"
    by (intro report_more[of _ _ _ 1] report_more[of _ _ _ 2] report_last) simp_all
  have b: "file_bytes boot_disk 512 example_bpb \<lparr>first_cluster = 4, fat_file.file_size = 500\<rparr> [4] = read_bytes boot_disk 18944 500"
    by (simp add: file_bytes_def example_bpb_values cluster_bytes_def)
  have g: "graphics_offered 3 (table_vbe boot_controller example_block) (disk_buffer_addr boot_statics)
      (mode_of_block 0x101 (pad_block (example_block 0x101)))" using boot_graphics by (simp add: boot_statics_def)
  show ?thesis
    using boot_files_in_place[OF disk_img.disk_bios_axioms[where disk = "0x80" and img = boot_disk and nsec = 120]
        boot_partition _ boot_disk_files e _ _ g]
    by (auto simp: MEMORY_MAP_CAPACITY_def KERNEL_DST_def b)
qed

end
