(* ===== verification/Disk_Image.thy ===== *)
theory Disk_Image
  imports Boot_Sector Stage_2 "HOL-Library.List_Lexorder" "HOL-Library.Char_ord"
begin

text \<open>
  Building disk images on the host (\<^verbatim>\<open>src/src/lib.rs\<close>, \<^verbatim>\<open>mbr.rs\<close>, \<^verbatim>\<open>gpt.rs\<close>, \<^verbatim>\<open>fat.rs\<close>,
  \<^verbatim>\<open>file_data_source.rs\<close>, \<^verbatim>\<open>bios/mod.rs\<close> and \<^verbatim>\<open>uefi/mod.rs\<close>).  The host's file system is a map
  from paths to contents; reading a missing file is an error, writing always succeeds, and the paths
  written to are none of those read.  The crates
  \<^verbatim>\<open>mbrman\<close>, \<^verbatim>\<open>fatfs\<close> and \<^verbatim>\<open>gpt\<close> are parameters; the locale \<open>mbr_format\<close> states what the first one
  documents about the layout of a master boot record.
\<close>

section \<open>Definitions\<close>

subsection \<open>Files on the host\<close>

type_synonym host_files = "string \<rightharpoonup> u8 list"

definition read_file :: "string \<Rightarrow> string \<Rightarrow> host_files \<Rightarrow> u8 list res" where
  "read_file msg path host = ok_or msg (host path)"

text \<open>A write at a position: a gap reads as zeroes.\<close>

definition write_at :: "u8 list \<Rightarrow> nat \<Rightarrow> u8 list \<Rightarrow> u8 list" where
  "write_at xs pos ys = take pos (xs @ replicate (pos - length xs) 0) @ ys @ drop (pos + length ys) xs"

definition set_len :: "nat \<Rightarrow> u8 list \<Rightarrow> u8 list" where
  "set_len n xs = take n (xs @ replicate n 0)"

text \<open>\<open>BTreeMap\<close>: entries in the order of their keys; \<open>insert\<close> also gives the old value.\<close>

fun btree_insert :: "'k :: linorder \<Rightarrow> 'v \<Rightarrow> ('k \<times> 'v) list \<Rightarrow> ('k \<times> 'v) list \<times> 'v option" where
  "btree_insert k v [] = ([(k, v)], None)"
| "btree_insert k v ((k', v') # rest) =
     (if k < k' then ((k, v) # (k', v') # rest, None)
      else if k = k' then ((k, v) # rest, Some v')
      else map_prod (Cons (k', v')) id (btree_insert k v rest))"

subsection \<open>Data sources\<close>

datatype file_data_source = FileSource string | DataSource "u8 list" | BytesSource "u8 list"

fun source_len :: "host_files \<Rightarrow> file_data_source \<Rightarrow> nat res" where
  "source_len host (FileSource path) =
     bindR (read_file ''failed to read metadata of file'' path host) (\<lambda>bs. Ok (length bs))"
| "source_len host (DataSource v) = Ok (length v)"
| "source_len host (BytesSource s) = Ok (length s)"

fun copy_to_target :: "host_files \<Rightarrow> file_data_source \<Rightarrow> u8 list \<Rightarrow> u8 list res" where
  "copy_to_target host (FileSource path) target =
     bindR (read_file ''failed to open for copying'' path host) (\<lambda>bs. Ok (target @ bs))"
| "copy_to_target host (DataSource contents) target = Ok (target @ contents)"
| "copy_to_target host (BytesSource contents) target = Ok (target @ contents)"

subsection \<open>The FAT file system\<close>

record 'v fatfs =
  format_volume :: "u8 list \<Rightarrow> u8 list \<Rightarrow> u8 list res"     \<comment> \<open>label and file\<close>
  file_system_new :: "u8 list \<Rightarrow> 'v res"
  create_dir :: "string \<Rightarrow> 'v \<Rightarrow> 'v res"
  create_file :: "string \<Rightarrow> 'v \<Rightarrow> 'v res"
  truncate_file :: "string \<Rightarrow> 'v \<Rightarrow> 'v res"
  write_file :: "string \<Rightarrow> u8 list \<Rightarrow> 'v \<Rightarrow> 'v res"
  file_system_bytes :: "'v \<Rightarrow> u8 list"

text \<open>
  \<open>Path::ancestors\<close> without the path itself and the root, outermost first, for paths without
  \<open>.\<close> components; \<open>Path::file_stem\<close>.
\<close>

definition parent_dirs :: "string \<Rightarrow> string list" where
  "parent_dirs p = map (\<lambda>i. take i p)
     (filter (\<lambda>i. 0 < i \<and> p ! i = CHR ''/'' \<and> p ! (i - 1) \<noteq> CHR ''/'' \<and> list_ex (\<lambda>c. c \<noteq> CHR ''/'') (drop i p)) [0..<length p])"

definition file_stem :: "string \<Rightarrow> string option" where
  "file_stem p =
     (let name = rev (takeWhile (\<lambda>c. c \<noteq> CHR ''/'') (dropWhile (\<lambda>c. c = CHR ''/'') (rev p)));
          ext = rev (takeWhile (\<lambda>c. c \<noteq> CHR ''.'') (rev name));
          stem = take (length name - length ext - 1) name
      in if name = '''' \<or> name = ''..'' then None
         else if list_ex (\<lambda>c. c = CHR ''.'') name \<and> stem \<noteq> '''' then Some stem else Some name)"

definition KERNEL_FILE_NAME :: string where "KERNEL_FILE_NAME = ''kernel-x86_64''"
definition RAMDISK_FILE_NAME :: string where "RAMDISK_FILE_NAME = ''ramdisk''"
definition CONFIG_FILE_NAME :: string where "CONFIG_FILE_NAME = ''boot.json''"

definition volume_label :: "(string \<times> file_data_source) list \<Rightarrow> u8 list" where
  "volume_label files =
     (let default_label = map of_char ''MY_RUST_OS!'' in
      case map_of files KERNEL_FILE_NAME of
        Some (FileSource path) \<Rightarrow>
          (case file_stem path of
             Some name \<Rightarrow> take 11 (map of_char name @ replicate 11 0)
           | None \<Rightarrow> default_label)
      | _ \<Rightarrow> default_label)"

definition add_file :: "'v fatfs \<Rightarrow> host_files \<Rightarrow> string \<times> file_data_source \<Rightarrow> 'v \<Rightarrow> 'v res" where
  "add_file F host = (\<lambda>(target_path, source) root_dir.
     bindR (foldR (\<lambda>ancestor root_dir. map_err ''failed to create directory on FAT filesystem'' (create_dir F ancestor root_dir))
              (parent_dirs target_path) root_dir) (\<lambda>root_dir.
     bindR (map_err ''failed to create file'' (create_file F target_path root_dir)) (\<lambda>root_dir.
     bindR (expect_ok ''called `Result::unwrap()` on an `Err` value'' (truncate_file F target_path root_dir)) (\<lambda>root_dir.
     bindR (map_err ''failed to copy source data'' (copy_to_target host source [])) (\<lambda>contents.
       map_err ''failed to copy source data'' (write_file F target_path contents root_dir))))))"

definition add_files_to_image :: "'v fatfs \<Rightarrow> host_files \<Rightarrow> (string \<times> file_data_source) list \<Rightarrow> 'v \<Rightarrow> 'v res" where
  "add_files_to_image F host files root_dir = foldR (add_file F host) files root_dir"

definition MB :: nat where "MB = 1024 * 1024"

definition create_fat_filesystem :: "'v fatfs \<Rightarrow> host_files \<Rightarrow> (string \<times> file_data_source) list \<Rightarrow> u8 list res" where
  "create_fat_filesystem F host files =
     bindR (foldR (\<lambda>source n. bindR (source_len host source) (\<lambda>l. add_u64 n l)) (map snd files) 0) (\<lambda>needed_size.
     bindR (bindR (add_u64 needed_size (1024 * 64)) (\<lambda>n. mul_u64 ((n - 1) div MB + 1) MB)) (\<lambda>fat_size.
     bindR (map_err ''Failed to format FAT file'' (format_volume F (volume_label files) (set_len fat_size []))) (\<lambda>fat_file.
     bindR (map_err ''Failed to open FAT file system of UEFI FAT file'' (file_system_new F fat_file)) (\<lambda>filesystem.
     bindR (add_files_to_image F host files filesystem) (\<lambda>filesystem.
       Ok (file_system_bytes F filesystem))))))"

subsection \<open>The master boot record\<close>

record mbr_partition_entry =
  mp_boot :: u8
  mp_starting_lba :: nat
  mp_sectors :: nat
  mp_sys :: u8

text \<open>The \<open>MBR\<close> of \<^verbatim>\<open>mbrman\<close>; both \<open>CHS\<close> fields of an entry are \<open>CHS::empty()\<close>.\<close>

record 'm mbrman =
  BOOT_ACTIVE :: u8
  mbr_read_from :: "u8 list \<Rightarrow> nat \<Rightarrow> 'm res"
  mbr_iter :: "'m \<Rightarrow> (nat \<times> bool) list"                     \<comment> \<open>index and \<open>is_unused\<close>\<close>
  mbr_set :: "nat \<Rightarrow> mbr_partition_entry \<Rightarrow> 'm \<Rightarrow> 'm"
  mbr_write_into :: "'m \<Rightarrow> u8 list res"

definition SECTOR_SIZE :: nat where "SECTOR_SIZE = 512"

definition sectors_of :: "string \<Rightarrow> u8 list \<Rightarrow> nat res" where
  "sectors_of msg bs =
     bindR (sub_w (length bs) 1) (\<lambda>l. map_err msg (if l div SECTOR_SIZE + 1 < 2 ^ 32 then Ok (l div SECTOR_SIZE + 1) else Err msg))"

definition create_mbr_disk :: "'m mbrman \<Rightarrow> u8 list \<Rightarrow> u8 list \<Rightarrow> string \<Rightarrow> string \<Rightarrow> host_files \<Rightarrow> host_files res" where
  "create_mbr_disk Mb bootsector_binary second_stage boot_partition_path out_mbr_path host =
     bindR (map_err ''failed to read MBR'' (mbr_read_from Mb bootsector_binary SECTOR_SIZE)) (\<lambda>mbr.
     bindR (if list_all snd (mbr_iter Mb mbr) then Ok () else Err ''partition should be unused'') (\<lambda>_.
     bindR (sectors_of ''size of second stage is larger than u32::MAX'' second_stage) (\<lambda>second_stage_sectors.
     let mbr = mbr_set Mb 1 \<lparr>mp_boot = BOOT_ACTIVE Mb, mp_starting_lba = 1, mp_sectors = second_stage_sectors, mp_sys = 0x20\<rparr> mbr in
     bindR (read_file ''failed to open FAT boot partition'' boot_partition_path host) (\<lambda>boot_partition.
     bindR (add_u32 1 second_stage_sectors) (\<lambda>boot_partition_start_sector.
     bindR (sectors_of ''size of FAT partition is larger than u32::MAX'' boot_partition) (\<lambda>boot_partition_sectors.
     let mbr = mbr_set Mb 2 \<lparr>mp_boot = BOOT_ACTIVE Mb, mp_starting_lba = boot_partition_start_sector,
           mp_sectors = boot_partition_sectors, mp_sys = 0x0c\<rparr> mbr in
     bindR (map_err ''failed to write MBR header to disk image'' (mbr_write_into Mb mbr)) (\<lambda>disk.
     bindR (assertR ''assertion failed: disk.stream_position() == 512'' (length disk = 1 * SECTOR_SIZE)) (\<lambda>_.
     let disk = disk @ second_stage in
     bindR (mul_u32 boot_partition_start_sector SECTOR_SIZE) (\<lambda>pos.
       Ok (host(out_mbr_path \<mapsto> write_at disk pos boot_partition)))))))))))"

subsection \<open>The GUID partition table\<close>

record 'g gpt =
  overwrite_lba0 :: "nat \<Rightarrow> u8 list \<Rightarrow> u8 list res"             \<comment> \<open>the protective MBR\<close>
  create_from_device :: "u8 list \<Rightarrow> 'g res"
  update_partitions :: "'g \<Rightarrow> 'g res"
  add_partition :: "string \<Rightarrow> nat \<Rightarrow> 'g \<Rightarrow> (nat \<times> 'g) res"
  partitions_get :: "'g \<Rightarrow> nat \<Rightarrow> (nat res) option"              \<comment> \<open>\<open>bytes_start\<close> of the entry\<close>
  gpt_write :: "'g \<Rightarrow> u8 list res"

definition create_gpt_disk :: "'g gpt \<Rightarrow> string \<Rightarrow> string \<Rightarrow> host_files \<Rightarrow> host_files res" where
  "create_gpt_disk G fat_image out_gpt_path host =
     bindR (read_file ''failed to read metadata of fat image'' fat_image host) (\<lambda>fat.
     let partition_size = length fat in
     bindR (add_u64 partition_size (1024 * 64)) (\<lambda>disk_size.
     let disk = set_len disk_size [];
         lb_size = (if disk_size div 512 - 1 < 2 ^ 32 then disk_size div 512 - 1 else 0xFFFFFFFF)
     in
     bindR (map_err ''failed to write protective MBR'' (overwrite_lba0 G lb_size disk)) (\<lambda>disk.
     bindR (map_err ''failed to create GPT structure in file'' (create_from_device G disk)) (\<lambda>gpt.
     bindR (map_err ''failed to update GPT partitions'' (update_partitions G gpt)) (\<lambda>gpt.
     bindR (map_err ''failed to add boot EFI partition'' (add_partition G ''boot'' partition_size gpt)) (\<lambda>(partition_id, gpt).
     bindR (ok_or ''failed to open boot partition after creation'' (partitions_get G gpt partition_id)) (\<lambda>bytes_start.
     bindR (map_err ''failed to get start offset of boot partition'' bytes_start) (\<lambda>start_offset.
     bindR (map_err ''failed to write out GPT changes'' (gpt_write G gpt)) (\<lambda>disk.
       Ok (host(out_gpt_path \<mapsto> write_at disk start_offset fat)))))))))))"

subsection \<open>The builder\<close>

record disk_image_builder =
  bd_files :: "(string \<times> file_data_source) list"

text \<open>The binaries that \<open>include_bytes!\<close> embeds.\<close>

record artifacts =
  UEFI_BOOTLOADER :: "u8 list"
  BIOS_BOOT_SECTOR :: "u8 list"
  BIOS_STAGE_2 :: "u8 list"
  BIOS_STAGE_3 :: "u8 list"
  BIOS_STAGE_4 :: "u8 list"

definition set_file_source :: "string \<Rightarrow> file_data_source \<Rightarrow> disk_image_builder \<Rightarrow> disk_image_builder" where
  "set_file_source destination source b = b\<lparr>bd_files := fst (btree_insert destination source (bd_files b))\<rparr>"

definition builder_empty :: disk_image_builder where
  "builder_empty = \<lparr>bd_files = []\<rparr>"

definition set_kernel :: "string \<Rightarrow> disk_image_builder \<Rightarrow> disk_image_builder" where
  "set_kernel path = set_file_source KERNEL_FILE_NAME (FileSource path)"

definition builder_new :: "string \<Rightarrow> disk_image_builder" where
  "builder_new kernel_path = set_kernel kernel_path builder_empty"

definition set_ramdisk :: "string \<Rightarrow> disk_image_builder \<Rightarrow> disk_image_builder" where
  "set_ramdisk path = set_file_source RAMDISK_FILE_NAME (FileSource path)"

text \<open>\<open>to_vec\<close> is \<open>serde_json::to_vec_pretty\<close>.\<close>

definition set_boot_config :: "('c \<Rightarrow> u8 list res) \<Rightarrow> 'c \<Rightarrow> disk_image_builder \<Rightarrow> disk_image_builder res" where
  "set_boot_config to_vec boot_config b =
     bindR (expect_ok ''failed to serialize BootConfig'' (to_vec boot_config)) (\<lambda>json.
       Ok (set_file_source CONFIG_FILE_NAME (DataSource json) b))"

definition set_file_contents :: "string \<Rightarrow> u8 list \<Rightarrow> disk_image_builder \<Rightarrow> disk_image_builder" where
  "set_file_contents destination data = set_file_source destination (DataSource data)"

definition set_file :: "string \<Rightarrow> string \<Rightarrow> disk_image_builder \<Rightarrow> disk_image_builder" where
  "set_file destination file_path = set_file_source destination (FileSource file_path)"

definition add_internal ::
    "string \<times> file_data_source \<Rightarrow> (string \<times> file_data_source) list \<Rightarrow> (string \<times> file_data_source) list res" where
  "add_internal k local_map =
     (case btree_insert (fst k) (snd k) local_map of
        (local_map, Some _) \<Rightarrow> Err ''Attempted to overwrite internal file''
      | (local_map, None) \<Rightarrow> Ok local_map)"

text \<open>\<open>tmp\<close> is the path of the \<open>NamedTempFile\<close>; the result is the host with that file.\<close>

definition create_fat_filesystem_image ::
    "'v fatfs \<Rightarrow> string \<Rightarrow> (string \<times> file_data_source) list \<Rightarrow> disk_image_builder \<Rightarrow> host_files \<Rightarrow> host_files res" where
  "create_fat_filesystem_image F tmp internal_files b host =
     (let local_map = fold (\<lambda>(name, source) m. fst (btree_insert name source m)) (bd_files b) [] in
      bindR (foldR add_internal internal_files local_map) (\<lambda>local_map.
      bindR (map_err ''failed to create BIOS FAT filesystem'' (create_fat_filesystem F host local_map)) (\<lambda>fat.
        Ok (host(tmp \<mapsto> fat)))))"

definition bios_internal_files :: "artifacts \<Rightarrow> (string \<times> file_data_source) list" where
  "bios_internal_files A =
     fst (btree_insert ''boot-stage-4'' (BytesSource (BIOS_STAGE_4 A))
       (fst (btree_insert ''boot-stage-3'' (BytesSource (BIOS_STAGE_3 A)) [])))"

definition create_bios_image ::
    "'m mbrman \<Rightarrow> 'v fatfs \<Rightarrow> artifacts \<Rightarrow> string \<Rightarrow> string \<Rightarrow> disk_image_builder \<Rightarrow> host_files \<Rightarrow> host_files res" where
  "create_bios_image Mb F A tmp image_path b host =
     bindR (map_err ''failed to create FAT partition''
       (create_fat_filesystem_image F tmp (bios_internal_files A) b host)) (\<lambda>host.
     bindR (map_err ''failed to create BIOS MBR disk image''
       (create_mbr_disk Mb (BIOS_BOOT_SECTOR A) (BIOS_STAGE_2 A) tmp image_path host)) (\<lambda>host.
       Ok (host(tmp := None))))"

definition create_uefi_image ::
    "'g gpt \<Rightarrow> 'v fatfs \<Rightarrow> artifacts \<Rightarrow> string \<Rightarrow> string \<Rightarrow> disk_image_builder \<Rightarrow> host_files \<Rightarrow> host_files res" where
  "create_uefi_image G F A tmp image_path b host =
     bindR (map_err ''failed to create FAT partition''
       (create_fat_filesystem_image F tmp
          (fst (btree_insert ''efi/boot/bootx64.efi'' (BytesSource (UEFI_BOOTLOADER A)) [])) b host)) (\<lambda>host.
     bindR (map_err ''failed to create UEFI GPT disk image'' (create_gpt_disk G tmp image_path host)) (\<lambda>host.
       Ok (host(tmp := None))))"

text \<open>\<open>Path::join\<close>.\<close>

definition path_join :: "string \<Rightarrow> string \<Rightarrow> string" where
  "path_join p q =
     (if q \<noteq> '''' \<and> hd q = CHR ''/'' then q
      else if p = '''' \<or> last p = CHR ''/'' then p @ q else p @ ''/'' @ q)"

definition create_uefi_tftp_folder :: "artifacts \<Rightarrow> string \<Rightarrow> disk_image_builder \<Rightarrow> host_files \<Rightarrow> host_files res" where
  "create_uefi_tftp_folder A tftp_path b host =
     foldR (\<lambda>(name, source) host.
         let to = path_join tftp_path name in
         bindR (copy_to_target (host(to \<mapsto> [])) source []) (\<lambda>contents. Ok (host(to \<mapsto> contents))))
       (bd_files b) (host(path_join tftp_path ''bootloader'' \<mapsto> UEFI_BOOTLOADER A))"

section \<open>The layout of a master boot record\<close>

text \<open>The boot flag, type, first sector and number of sectors of the entry at offset \<open>off\<close>.\<close>

definition entry_at :: "u8 list \<Rightarrow> nat \<Rightarrow> mbr_partition_entry \<Rightarrow> bool" where
  "entry_at out off e \<longleftrightarrow> out ! off = mp_boot e \<and> out ! (off + 4) = mp_sys e \<and>
     from_le_bytes (take 4 (drop (off + 8) out)) = mp_starting_lba e \<and>
     from_le_bytes (take 4 (drop (off + 12) out)) = mp_sectors e"

text \<open>Replacing the first two entries of a record read from \<open>bs\<close> and writing it out.\<close>

locale mbr_format =
  fixes Mb :: "'m mbrman"
  assumes write_layout: "mbr_read_from Mb bs 512 = Ok m \<Longrightarrow>
      mp_starting_lba e1 < 2 ^ 32 \<Longrightarrow> mp_sectors e1 < 2 ^ 32 \<Longrightarrow> mp_starting_lba e2 < 2 ^ 32 \<Longrightarrow> mp_sectors e2 < 2 ^ 32 \<Longrightarrow>
      mbr_write_into Mb (mbr_set Mb 2 e2 (mbr_set Mb 1 e1 m)) = Ok out \<Longrightarrow>
      length out = 512 \<and> take 440 out = take 440 bs \<and> entry_at out 446 e1 \<and> entry_at out 462 e2"
begin

text \<open>The image: boot code, both entries, the second stage from sector 1 on, the partition behind it.\<close>

lemma create_mbr_disk_layout:
  assumes "create_mbr_disk Mb boot s2 part out_path host = Ok host'"
  obtains fat disk n k where "host part = Some fat" "n = (length s2 - 1) div 512 + 1" "k = (length fat - 1) div 512 + 1"
    "0 < length s2" "0 < length fat" "n + 1 < 2 ^ 32" "k < 2 ^ 32"
    "host' = host(out_path \<mapsto> write_at (disk @ s2) ((n + 1) * 512) fat)"
    "length disk = 512" "take 440 disk = take 440 boot"
    "entry_at disk 446 \<lparr>mp_boot = BOOT_ACTIVE Mb, mp_starting_lba = 1, mp_sectors = n, mp_sys = 0x20\<rparr>"
    "entry_at disk 462 \<lparr>mp_boot = BOOT_ACTIVE Mb, mp_starting_lba = n + 1, mp_sectors = k, mp_sys = 0x0c\<rparr>"
proof -
  let ?n = "(length s2 - 1) div 512 + 1"
  from assms obtain m fat disk where m: "mbr_read_from Mb boot 512 = Ok m" and fat: "host part = Some fat"
    and pos: "0 < length s2" "0 < length fat" "?n + 1 < 2 ^ 32" "(length fat - 1) div 512 + 1 < 2 ^ 32"
    and w: "mbr_write_into Mb (mbr_set Mb 2 \<lparr>mp_boot = BOOT_ACTIVE Mb, mp_starting_lba = ?n + 1,
        mp_sectors = (length fat - 1) div 512 + 1, mp_sys = 0x0c\<rparr>
      (mbr_set Mb 1 \<lparr>mp_boot = BOOT_ACTIVE Mb, mp_starting_lba = 1, mp_sectors = ?n, mp_sys = 0x20\<rparr> m)) = Ok disk"
    and h: "host' = host(out_path \<mapsto> write_at (disk @ s2) ((?n + 1) * 512) fat)"
    by (auto simp: create_mbr_disk_def sectors_of_def SECTOR_SIZE_def read_file_def Let_def res_simps Suc_le_eq
        split: if_splits)
  from write_layout[OF m _ _ _ _ w] pos show ?thesis
    by (intro that[OF fat refl refl pos h]) simp_all
qed

end

section \<open>Lemmas\<close>

subsection \<open>Maps of files\<close>

lemma map_of_btree_insert [simp]: "map_of (fst (btree_insert k v m)) = (map_of m)(k \<mapsto> v)"
  by (induction k v m rule: btree_insert.induct) (auto simp: fun_eq_iff)

lemma set_keys_btree_insert [simp]: "fst ` set (fst (btree_insert k v m)) = insert k (fst ` set m)"
  by (induction k v m rule: btree_insert.induct) auto

definition sorted_keys :: "('k :: linorder \<times> 'v) list \<Rightarrow> bool" where
  "sorted_keys m = sorted_wrt (<) (map fst m)"

lemma sorted_keys_insert [simp]: "sorted_keys m \<Longrightarrow> sorted_keys (fst (btree_insert k v m))"
proof (induction k v m rule: btree_insert.induct)
  case (2 k v k' v' rest)
  have "\<forall>x\<in>fst ` set (fst (btree_insert k v rest)). k' < x" if "k' < k"
    using 2(2) that by (auto simp: sorted_keys_def simp del: set_keys_btree_insert simp add: set_keys_btree_insert)
  with 2 show ?case by (fastforce simp: sorted_keys_def)
qed (simp add: sorted_keys_def)

lemma btree_insert_old: "sorted_keys m \<Longrightarrow> snd (btree_insert k v m) = map_of m k"
proof (induction k v m rule: btree_insert.induct)
  case (2 k v k' v' rest)
  then show ?case by (fastforce simp: sorted_keys_def map_of_eq_None_iff intro: sym)
qed simp

text \<open>Every operation of the builder keeps its files a map.\<close>

lemma builder_sorted:
  "sorted_keys (bd_files builder_empty)" "sorted_keys (bd_files (builder_new path))"
  "sorted_keys (bd_files b) \<Longrightarrow> sorted_keys (bd_files (set_file_source d src b))"
  by (simp_all add: builder_new_def set_kernel_def builder_empty_def set_file_source_def, simp_all add: sorted_keys_def)

lemma fold_btree_insert:
  "map_of (fold (\<lambda>(name, source) m. fst (btree_insert name source m)) xs m) = map_of m ++ map_of (rev xs)"
  "sorted_keys m \<Longrightarrow> sorted_keys (fold (\<lambda>(name, source) m. fst (btree_insert name source m)) xs m)"
  by (induction xs arbitrary: m) (auto simp: map_add_def fun_eq_iff split: option.splits)

lemma map_of_rev_sorted: "sorted_keys m \<Longrightarrow> map_of (rev m) = map_of m"
proof -
  assume "sorted_keys m"
  then have "distinct (map fst m)" by (simp add: sorted_keys_def strict_sorted_iff)
  then show ?thesis by (intro map_of_inject_set[THEN iffD2]) (simp_all add: rev_map[symmetric])
qed

lemma add_internal_eq_Ok:
  "sorted_keys m \<Longrightarrow> add_internal k m = Ok m' \<longleftrightarrow> map_of m (fst k) = None \<and> m' = fst (btree_insert (fst k) (snd k) m)"
  using btree_insert_old[of m "fst k" "snd k"]
  by (cases "btree_insert (fst k) (snd k) m"; cases "map_of m (fst k)") (auto simp: add_internal_def)

lemma add_internal_all:
  assumes "foldR add_internal xs m = Ok m'" and "sorted_keys m"
  shows "map_of m' = map_of m ++ map_of (rev xs) \<and> fst ` set xs \<inter> dom (map_of m) = {}"
  using assms
proof (induction xs arbitrary: m)
  case (Cons x xs)
  let ?m = "fst (btree_insert (fst x) (snd x) m)"
  from Cons.prems have x: "map_of m (fst x) = None" and r: "foldR add_internal xs ?m = Ok m'"
    by (auto simp: res_simps add_internal_eq_Ok)
  from Cons.IH[OF r] Cons.prems(2) x show ?case by (cases x) (auto simp: map_add_def fun_eq_iff split: option.splits)
qed simp

lemma bios_internal_files_map:
  "map_of (rev (bios_internal_files A)) =
     [''boot-stage-3'' \<mapsto> BytesSource (BIOS_STAGE_3 A), ''boot-stage-4'' \<mapsto> BytesSource (BIOS_STAGE_4 A)]"
  "fst ` set (bios_internal_files A) = {''boot-stage-3'', ''boot-stage-4''}"
proof -
  have "sorted_keys (bios_internal_files A)"
    unfolding bios_internal_files_def by (intro sorted_keys_insert) (simp add: sorted_keys_def)
  then have "map_of (rev (bios_internal_files A)) = map_of (bios_internal_files A)" by (rule map_of_rev_sorted)
  then show "map_of (rev (bios_internal_files A)) =
     [''boot-stage-3'' \<mapsto> BytesSource (BIOS_STAGE_3 A), ''boot-stage-4'' \<mapsto> BytesSource (BIOS_STAGE_4 A)]"
    unfolding bios_internal_files_def map_of_btree_insert by simp
  show "fst ` set (bios_internal_files A) = {''boot-stage-3'', ''boot-stage-4''}"
    unfolding bios_internal_files_def set_keys_btree_insert by auto
qed

lemma fat_image_files:
  assumes "create_fat_filesystem_image F tmp (bios_internal_files A) b host = Ok host'" and "sorted_keys (bd_files b)"
  obtains fat files where "host' = host(tmp \<mapsto> fat)" "create_fat_filesystem F host files = Ok fat"
    "map_of files = (map_of (bd_files b))(''boot-stage-3'' \<mapsto> BytesSource (BIOS_STAGE_3 A), ''boot-stage-4'' \<mapsto> BytesSource (BIOS_STAGE_4 A))"
    "map_of (bd_files b) ''boot-stage-3'' = None" "map_of (bd_files b) ''boot-stage-4'' = None"
proof -
  let ?m = "fold (\<lambda>(name, source) m. fst (btree_insert name source m)) (bd_files b) []"
  from assms(1) obtain files fat where f: "foldR add_internal (bios_internal_files A) ?m = Ok files"
    and fat: "create_fat_filesystem F host files = Ok fat" "host' = host(tmp \<mapsto> fat)"
    by (auto simp: create_fat_filesystem_image_def Let_def res_simps)
  have m: "map_of ?m = map_of (bd_files b)" "sorted_keys ?m"
    using fold_btree_insert(1)[of "bd_files b" "[]"] map_of_rev_sorted[OF assms(2)]
    by (simp, intro fold_btree_insert(2)) (simp add: sorted_keys_def)
  from add_internal_all[OF f m(2)] show ?thesis
    by (intro that[OF fat(2,1)]) (auto simp: m bios_internal_files_map)
qed

subsection \<open>Reading the image back\<close>

lemma write_at_behind:
  assumes "length xs \<le> pos"
  shows "write_at xs pos ys = xs @ replicate (pos - length xs) 0 @ ys"
  using assms by (simp add: write_at_def)

lemma sectors_cover: "0 < n \<Longrightarrow> n \<le> ((n - 1) div 512 + 1) * (512 :: nat)"
proof (cases n)
  case (Suc m)
  have "m mod 512 < 512" by simp
  with div_mult_mod_eq[of m 512] have "Suc m \<le> m div 512 * 512 + 512" by linarith
  with Suc show ?thesis by simp
qed simp

lemma read_write_slice_before: "b + n \<le> a \<Longrightarrow> read_bytes (write_slice mem a bs) b n = read_bytes mem b n"
  by (rule nth_equalityI) (auto simp: write_slice_apply)

text \<open>What a device holding \<open>xs @ ys @ zs\<close> reads at the place of \<open>ys\<close>.\<close>

lemma read_bytes_part:
  assumes "read_bytes img a (length bs) = bs" and "bs = xs @ ys @ zs"
  shows "read_bytes img (a + length xs) (length ys) = ys"
proof -
  have "read_bytes img (a + length xs) (length ys) = take (length ys) (drop (length xs) (read_bytes img a (length bs)))"
    by (simp add: assms(2))
  then show ?thesis unfolding assms(1) by (simp add: assms(2))
qed

text \<open>The table that \<open>create_mbr_disk\<close> writes is the one stage 2 looks for.\<close>

lemma find_fat_partition_second:
  assumes "raw ! 4 = 0x20" "raw ! 20 = 0x0c" and "K 0x20 = Unknown 0x20" "K 0x0c = PFat32 c"
  shows "find_fat_partition K raw = Ok (parse_partition K raw 1)"
  using assms
  by (simp add: find_fat_partition_def BOOTLOADER_SECOND_STAGE_PARTITION_TYPE_def upt_conv_Cons parse_partition_def Let_def
      expect_some_def assertR_def)

subsection \<open>A reference record\<close>

text \<open>A master boot record kept as its 512 bytes.\<close>

definition mbr_encode :: "mbr_partition_entry \<Rightarrow> u8 list" where
  "mbr_encode e = [mp_boot e, 0, 0, 0, mp_sys e, 0, 0, 0] @ to_le_bytes 4 (mp_starting_lba e) @ to_le_bytes 4 (mp_sectors e)"

definition mbr_ref :: "u8 list mbrman" where
  "mbr_ref = \<lparr>BOOT_ACTIVE = 0x80,
     mbr_read_from = (\<lambda>bs n. if 512 \<le> length bs \<and> bs ! 510 = 0x55 \<and> bs ! 511 = 0xaa then Ok (take 512 bs) else Err ''signature''),
     mbr_iter = (\<lambda>m. map (\<lambda>i. (i, m ! (434 + 16 * i) = 0)) [1, 2, 3, 4]),
     mbr_set = (\<lambda>i e m. write_at m (430 + 16 * i) (mbr_encode e)),
     mbr_write_into = Ok\<rparr>"

lemma write_at_inside:
  assumes "pos + length ys \<le> length xs"
  shows "length (write_at xs pos ys) = length xs"
    and "k \<le> pos \<Longrightarrow> take k (write_at xs pos ys) = take k xs"
    and "take (length ys) (drop pos (write_at xs pos ys)) = ys"
    and "j + l \<le> pos \<Longrightarrow> take l (drop j (write_at xs pos ys)) = take l (drop j xs)"
  using assms by (auto simp: write_at_def take_drop min_def)

lemma entry_at_encode:
  assumes "take 16 (drop off out) = mbr_encode e" and "off + 16 \<le> length out"
    and "mp_starting_lba e < 2 ^ 32" and "mp_sectors e < 2 ^ 32"
  shows "entry_at out off e"
proof -
  have byte: "out ! (off + i) = mbr_encode e ! i" if "i < 16" for i
    using that assms(2) by (simp flip: assms(1))
  have "take 4 (drop (off + i) out) = take 4 (drop i (mbr_encode e))" if "i + 4 \<le> 16" for i
    using that by (simp flip: assms(1) add: drop_take min_def add.commute)
  from this[of 8] this[of 12] byte[of 0] byte[of 4] assms(3,4) show ?thesis
    by (simp add: entry_at_def mbr_encode_def)
qed

lemma length_mbr_encode [simp]: "length (mbr_encode e) = 16"
  by (simp add: mbr_encode_def)

interpretation ref_mbr: mbr_format mbr_ref
proof
  fix bs m out :: "u8 list" and e1 e2
  assume m: "mbr_read_from mbr_ref bs 512 = Ok m" and out: "mbr_write_into mbr_ref (mbr_set mbr_ref 2 e2 (mbr_set mbr_ref 1 e1 m)) = Ok out"
    and e: "mp_starting_lba e1 < 2 ^ 32" "mp_sectors e1 < 2 ^ 32" "mp_starting_lba e2 < 2 ^ 32" "mp_sectors e2 < 2 ^ 32"
  let ?m1 = "write_at m 446 (mbr_encode e1)"
  have len: "length m = 512" "take 440 m = take 440 bs" using m by (auto simp: mbr_ref_def split: if_splits)
  have o: "out = write_at ?m1 462 (mbr_encode e2)" using out by (simp add: mbr_ref_def)
  have m1: "length ?m1 = 512" "take 440 ?m1 = take 440 bs" "take 16 (drop 446 ?m1) = mbr_encode e1"
    using write_at_inside[of 446 "mbr_encode e1" m] len by simp_all
  have r: "length out = 512" "take 440 out = take 440 bs" "take 16 (drop 446 out) = mbr_encode e1"
    "take 16 (drop 462 out) = mbr_encode e2"
    using write_at_inside[of 462 "mbr_encode e2" ?m1] m1 by (simp_all add: o)
  then show "length out = 512 \<and> take 440 out = take 440 bs \<and> entry_at out 446 e1 \<and> entry_at out 462 e2"
    using e by (simp add: entry_at_encode)
qed

section \<open>Properties\<close>

text \<open>C6. A BIOS image boots into stage 2 and stage 2 finds its files: let \<open>create_bios_image\<close>
  succeed, a disk hold the bytes it wrote and the firmware have loaded the first sector.  Then the boot
  code of that sector is that of the embedded boot sector, the first stage loads the embedded
  second stage behind it, and stage 2, on the partition table in memory, selects a partition that starts with
  the FAT file system built from the builder's files together with stages 3 and 4, neither of which
  replaced a file of the builder.\<close>

theorem bios_image_boots:
  assumes mbr: "mbr_format Mb" and bios: "disk_bios B disk img nsec"
    and builder: "sorted_keys (bd_files b)"
    and built: "create_bios_image Mb F A tmp path b host = Ok host'" "path \<noteq> tmp"
    and written: "host' path = Some bytes" "read_bytes img 0 (length bytes) = bytes" "length bytes \<le> nsec * 512"
    and loaded: "read_bytes mem 0x7c00 512 = take 512 bytes"
    and fits: "0x7e00 + ((length (BIOS_STAGE_2 A) - 1) div 512 + 1) * 512 \<le> 2 ^ 20"
    and kinds: "K 0x20 = Unknown 0x20" "K 0x0c = PFat32 c"
  shows "\<exists>mem' p fat files. first_stage B disk mem = Ok (0x7e00, disk, 0x7dbe, mem') \<and>
    take 440 bytes = take 440 (BIOS_BOOT_SECTOR A) \<and>
    read_bytes mem' 0x7e00 (length (BIOS_STAGE_2 A)) = BIOS_STAGE_2 A \<and>
    find_fat_partition K (read_bytes mem' 0x7dbe 64) = Ok p \<and>
    create_fat_filesystem F host files = Ok fat \<and>
    read_bytes img (me_logical_block_address p * 512) (length fat) = fat \<and>
    map_of files = (map_of (bd_files b))(''boot-stage-3'' \<mapsto> BytesSource (BIOS_STAGE_3 A), ''boot-stage-4'' \<mapsto> BytesSource (BIOS_STAGE_4 A)) \<and>
    map_of (bd_files b) ''boot-stage-3'' = None \<and> map_of (bd_files b) ''boot-stage-4'' = None"
proof -
  let ?s2 = "BIOS_STAGE_2 A"
  from built(1) obtain h1 h2 where h1: "create_fat_filesystem_image F tmp (bios_internal_files A) b host = Ok h1"
    and h2: "create_mbr_disk Mb (BIOS_BOOT_SECTOR A) ?s2 tmp path h1 = Ok h2" and h': "host' = h2(tmp := None)"
    by (auto simp: create_bios_image_def res_simps)
  obtain fat files where fat: "h1 = host(tmp \<mapsto> fat)" and files: "create_fat_filesystem F host files = Ok fat"
    "map_of files = (map_of (bd_files b))(''boot-stage-3'' \<mapsto> BytesSource (BIOS_STAGE_3 A), ''boot-stage-4'' \<mapsto> BytesSource (BIOS_STAGE_4 A))"
    "map_of (bd_files b) ''boot-stage-3'' = None" "map_of (bd_files b) ''boot-stage-4'' = None"
    by (rule fat_image_files[OF h1 builder])
  obtain fat' boot n k where fat': "h1 tmp = Some fat'"
    and n: "n = (length ?s2 - 1) div 512 + 1" "0 < length ?s2"
    and h2': "h2 = h1(path \<mapsto> write_at (boot @ ?s2) ((n + 1) * 512) fat')"
    and rec: "length boot = 512" "take 440 boot = take 440 (BIOS_BOOT_SECTOR A)"
    and e1: "entry_at boot 446 \<lparr>mp_boot = BOOT_ACTIVE Mb, mp_starting_lba = 1, mp_sectors = n, mp_sys = 0x20\<rparr>"
    and e2: "entry_at boot 462 \<lparr>mp_boot = BOOT_ACTIVE Mb, mp_starting_lba = n + 1, mp_sectors = k, mp_sys = 0x0c\<rparr>"
    by (rule mbr_format.create_mbr_disk_layout[OF mbr h2])
  let ?z = "replicate (n * 512 - length ?s2) 0"
  have cover: "length ?s2 \<le> n * 512" using sectors_cover[OF n(2)] by (simp add: n(1))
  have bytes: "bytes = boot @ ?s2 @ ?z @ fat"
    using written(1) built(2) cover fat' by (simp add: h' h2' fat write_at_behind rec)
  have table: "read_bytes mem 0x7c00 512 = boot" by (simp add: loaded bytes rec)
  have raw: "read_bytes mem (0x7c00 + j) l = take l (drop j boot)" if "j + l \<le> 512" for j l
    using that by (simp flip: table)
  let ?mem = "write_slice mem second_stage_start (read_bytes img (1 * 512) (n * 512))"
  have run: "first_stage B disk mem = Ok (second_stage_start, disk, partition_table_raw, ?mem)"
    by (rule first_stage_loads[OF bios])
      (use e1 raw[of 454 4] raw[of 458 4] fits written(3) cover rec in
        \<open>simp_all add: entry_at_def partition_table_raw_def second_stage_start_def bytes n(1)\<close>)
  have s2: "read_bytes img 512 (length ?s2) = ?s2" using read_bytes_part[OF written(2) bytes] by (simp add: rec)
  have "read_bytes ?mem 0x7e00 (n * 512) = read_bytes img 512 (n * 512)"
    using read_write_slice[where mem = mem and a = second_stage_start and bs = "read_bytes img 512 (n * 512)"]
    by (simp add: second_stage_start_def)
  from arg_cong[OF this, of "take (length ?s2)"] cover s2
  have in_mem: "read_bytes ?mem 0x7e00 (length ?s2) = ?s2" by (simp add: min_absorb1)
  have keep: "read_bytes ?mem 0x7dbe 64 = take 64 (drop 446 boot)"
    using raw[of 446 64] by (simp add: read_write_slice_before second_stage_start_def)
  have p: "find_fat_partition K (take 64 (drop 446 boot)) = Ok (parse_partition K (take 64 (drop 446 boot)) 1)"
    by (rule find_fat_partition_second[OF _ _ kinds]) (use e1 e2 rec in \<open>simp_all add: entry_at_def\<close>)
  have "me_logical_block_address (parse_partition K (take 64 (drop 446 boot)) 1) = n + 1"
    using e2 by (simp add: parse_partition_def entry_at_def drop_take min_absorb1)
  moreover have "read_bytes img ((n + 1) * 512) (length fat) = fat"
    using read_bytes_part[OF written(2), where xs = "boot @ ?s2 @ ?z" and ys = fat and zs = "[]"] cover by (simp add: bytes rec)
  moreover have "take 440 bytes = take 440 (BIOS_BOOT_SECTOR A)" using rec by (simp add: bytes)
  ultimately show ?thesis
    using run in_mem keep p files by (auto simp: second_stage_start_def partition_table_raw_def)
qed

text \<open>An image with a ramdisk, on a file system that is the concatenation of label and files.\<close>

definition example_fatfs :: "u8 list fatfs" where
  "example_fatfs = \<lparr>format_volume = (\<lambda>label f. Ok label), file_system_new = Ok, create_dir = (\<lambda>p. Ok), create_file = (\<lambda>p. Ok),
     truncate_file = (\<lambda>p. Ok), write_file = (\<lambda>p bs v. Ok (v @ bs)), file_system_bytes = id\<rparr>"

definition example_artifacts :: artifacts where
  "example_artifacts = \<lparr>UEFI_BOOTLOADER = [], BIOS_BOOT_SECTOR = replicate 510 0 @ [0x55, 0xaa], BIOS_STAGE_2 = [1, 2, 3],
     BIOS_STAGE_3 = [4], BIOS_STAGE_4 = [5]\<rparr>"

definition example_builder :: disk_image_builder where
  "example_builder = set_file_contents ''ramdisk'' [6] builder_empty"

definition example_fat :: "u8 list" where
  "example_fat = map of_char ''MY_RUST_OS!'' @ [4, 5, 6]"

definition example_image :: "u8 list" where
  "example_image =
     (let boot = write_at (write_at (replicate 510 0 @ [0x55, 0xaa]) 446 (mbr_encode \<lparr>mp_boot = 0x80, mp_starting_lba = 1, mp_sectors = 1, mp_sys = 0x20\<rparr>))
                   462 (mbr_encode \<lparr>mp_boot = 0x80, mp_starting_lba = 2, mp_sectors = 1, mp_sys = 0x0c\<rparr>)
      in write_at (boot @ [1, 2, 3]) 1024 example_fat)"

definition bytes_at :: "nat \<Rightarrow> u8 list \<Rightarrow> memory" where
  "bytes_at base bs a = (if base \<le> a \<and> a < base + length bs then bs ! (a - base) else 0)"

definition example_kinds :: "u8 \<Rightarrow> partition_kind" where
  "example_kinds b = (if b = 0x0c then PFat32 0x0c else Unknown (unat b))"

lemma read_bytes_at: "n \<le> length bs \<Longrightarrow> read_bytes (bytes_at base bs) base n = take n bs"
  by (rule nth_equalityI) (auto simp: bytes_at_def)

lemma length_example_image: "length example_image = 1038"
  by (simp add: example_image_def example_fat_def Let_def write_at_def)

lemma example_fat_created:
  "create_fat_filesystem example_fatfs Map.empty [(''boot-stage-3'', BytesSource [4]), (''boot-stage-4'', BytesSource [5]), (''ramdisk'', DataSource [6])]
     = Ok example_fat"
  by (simp add: create_fat_filesystem_def add_w_def mul_w_def MB_def volume_label_def KERNEL_FILE_NAME_def example_fatfs_def
      add_files_to_image_def add_file_def parent_dirs_def upt_conv_Cons example_fat_def)

lemma example_image_created:
  "create_bios_image mbr_ref example_fatfs example_artifacts ''tmp'' ''image'' example_builder Map.empty = Ok [''image'' \<mapsto> example_image]"
proof -
  have "create_fat_filesystem_image example_fatfs ''tmp'' (bios_internal_files example_artifacts) example_builder Map.empty = Ok [''tmp'' \<mapsto> example_fat]"
    using example_fat_created
    by (simp add: create_fat_filesystem_image_def bios_internal_files_def example_artifacts_def example_builder_def set_file_contents_def
        set_file_source_def builder_empty_def add_internal_def less_char_def)
  moreover have "create_mbr_disk mbr_ref (BIOS_BOOT_SECTOR example_artifacts) (BIOS_STAGE_2 example_artifacts) ''tmp'' ''image'' [''tmp'' \<mapsto> example_fat] =
      Ok [''tmp'' \<mapsto> example_fat, ''image'' \<mapsto> example_image]"
    by (simp add: create_mbr_disk_def mbr_ref_def example_artifacts_def SECTOR_SIZE_def sectors_of_def sub_w_def add_w_def mul_w_def
        read_file_def ok_or_def assertR_def example_image_def Let_def nth_append write_at_inside(1) example_fat_def numeral_2_eq_2[symmetric])
  ultimately show ?thesis by (simp add: create_bios_image_def fun_upd_twist)
qed

theorem bios_image_boots_witness:
  "\<exists>mem' p fat files. first_stage (image_bios 0x80 (bytes_at 0 example_image) 10) 0x80 (bytes_at 0x7c00 (take 512 example_image)) = Ok (0x7e00, 0x80, 0x7dbe, mem') \<and>
     read_bytes mem' 0x7e00 3 = [1, 2, 3] \<and> find_fat_partition example_kinds (read_bytes mem' 0x7dbe 64) = Ok p \<and>
     create_fat_filesystem example_fatfs Map.empty files = Ok fat \<and>
     read_bytes (bytes_at 0 example_image) (me_logical_block_address p * 512) (length fat) = fat"
proof -
  have sorted: "sorted_keys (bd_files example_builder)"
    by (simp add: example_builder_def set_file_contents_def set_file_source_def builder_empty_def sorted_keys_def)
  have image: "read_bytes (bytes_at 0 example_image) 0 (length example_image) = example_image"
    "read_bytes (bytes_at 0x7c00 (take 512 example_image)) 0x7c00 512 = take 512 example_image"
    by (simp_all add: read_bytes_at length_example_image)
  have kinds: "example_kinds 0x20 = Unknown 0x20" "example_kinds 0x0c = PFat32 0x0c" by (simp_all add: example_kinds_def)
  have s2: "BIOS_STAGE_2 example_artifacts = [1, 2, 3]" "length [1, 2, 3 :: u8] = 3" by (simp_all add: example_artifacts_def)
  have fits: "0x7e00 + ((length (BIOS_STAGE_2 example_artifacts) - 1) div 512 + 1) * 512 \<le> (2 :: nat) ^ 20"
    "''image'' \<noteq> ''tmp''" "[''image'' \<mapsto> example_image] ''image'' = Some example_image" "length example_image \<le> 10 * 512"
    by (simp_all add: s2 length_example_image)
  from bios_image_boots[OF ref_mbr.mbr_format_axioms
      disk_img.disk_bios_axioms[where disk = "0x80" and img = "bytes_at 0 example_image" and nsec = 10]
      sorted example_image_created fits(2,3) image(1) fits(4) image(2) fits(1) kinds, unfolded s2]
  show ?thesis by blast
qed

end
