(* ===== verification/Framebuffer.thy ===== *)
theory Framebuffer
  imports Boot_Info Stage_2
begin

text \<open>
  Text on the framebuffer: the logger's writer (\<^verbatim>\<open>src/common/src/framebuffer.rs\<close>) and the writer of
  stage 3 (\<^verbatim>\<open>src/bios/stage-3/src/screen.rs\<close>).  Characters are Unicode scalar values.  The bitmaps of
  the crate \<^verbatim>\<open>noto-sans-mono-bitmap\<close> are a parameter; the locale \<open>mono_font\<close> states that all of them have
  the same size.  Both writers draw a bitmap with the same loop, on 64-bit and on 32-bit sizes.
\<close>

section \<open>Definitions\<close>

subsection \<open>Drawing a bitmap\<close>

text \<open>A pixel of a slice; \<open>w\<close> is the width of \<open>usize\<close>.\<close>

definition draw_pixel :: "nat \<Rightarrow> u8 list res \<Rightarrow> nat \<Rightarrow> nat \<Rightarrow> nat \<Rightarrow> nat \<Rightarrow> u8 list \<Rightarrow> u8 list res" where
  "draw_pixel w color line bpp x y fb =
     bindR (bindR (mul_w w y line) (\<lambda>p. add_w w p x)) (\<lambda>pixel_offset.
     bindR color (\<lambda>color.
     bindR (mul_w w pixel_offset bpp) (\<lambda>byte_offset.
     bindR (add_w w byte_offset bpp) (\<lambda>byte_end.
     bindR (slice_range fb byte_offset byte_end) (\<lambda>_.
     bindR (slice_range color 0 bpp) (\<lambda>bytes.
     let fb = take byte_offset fb @ bytes @ drop byte_end fb in
     bindR (index_slice fb byte_offset) (\<lambda>_. Ok fb)))))))"

definition draw_raster ::
    "nat \<Rightarrow> (u8 \<Rightarrow> u8 list res) \<Rightarrow> nat \<Rightarrow> nat \<Rightarrow> nat \<Rightarrow> nat \<Rightarrow> u8 list list \<Rightarrow> u8 list \<Rightarrow> u8 list res" where
  "draw_raster w color line bpp x_pos y_pos rows =
     foldR (\<lambda>(y, row). foldR (\<lambda>(x, byte) fb.
         bindR (add_w w x_pos x) (\<lambda>px. bindR (add_w w y_pos y) (\<lambda>py. draw_pixel w (color byte) line bpp px py fb)))
       (enumerate 0 row)) (enumerate 0 rows)"

subsection \<open>The logger's writer\<close>

record rasterized_char =
  raster :: "u8 list list"
  raster_width :: nat

record font =
  CHAR_RASTER_HEIGHT :: nat
  CHAR_RASTER_WIDTH :: nat
  get_raster :: "nat \<Rightarrow> rasterized_char option"

definition LINE_SPACING :: nat where "LINE_SPACING = 2"
definition LETTER_SPACING :: nat where "LETTER_SPACING = 0"
definition BORDER_PADDING :: nat where "BORDER_PADDING = 1"
definition BACKUP_CHAR :: nat where "BACKUP_CHAR = 0xFFFD"

definition get_char_raster :: "font \<Rightarrow> nat \<Rightarrow> rasterized_char res" where
  "get_char_raster F c =
     (case get_raster F c of
        Some r \<Rightarrow> Ok r
      | None \<Rightarrow> expect_some ''Should get raster of backup char.'' (get_raster F BACKUP_CHAR))"

record frame_buffer_writer =
  framebuffer :: "u8 list"
  writer_info :: frame_buffer_info
  x_pos :: nat
  y_pos :: nat

definition carriage_return :: "frame_buffer_writer \<Rightarrow> frame_buffer_writer" where
  "carriage_return wr = wr\<lparr>x_pos := BORDER_PADDING\<rparr>"

definition newline :: "font \<Rightarrow> frame_buffer_writer \<Rightarrow> frame_buffer_writer res" where
  "newline F wr = bindR (add_u64 (y_pos wr) (CHAR_RASTER_HEIGHT F + LINE_SPACING)) (\<lambda>y. Ok (carriage_return (wr\<lparr>y_pos := y\<rparr>)))"

definition clear :: "frame_buffer_writer \<Rightarrow> frame_buffer_writer" where
  "clear wr = wr\<lparr>x_pos := BORDER_PADDING, y_pos := BORDER_PADDING, framebuffer := replicate (length (framebuffer wr)) 0\<rparr>"

definition writer_new :: "u8 list \<Rightarrow> frame_buffer_info \<Rightarrow> frame_buffer_writer" where
  "writer_new fb info = clear \<lparr>framebuffer = fb, writer_info = info, x_pos = 0, y_pos = 0\<rparr>"

text \<open>The panic also sets the pixel format, which is visible only to the panic handler.\<close>

fun logger_color :: "pixel_format \<Rightarrow> u8 \<Rightarrow> u8 list res" where
  "logger_color Rgb intensity = Ok [intensity, intensity, intensity div 2, 0]"
| "logger_color Bgr intensity = Ok [intensity div 2, intensity, intensity, 0]"
| "logger_color U8 intensity = Ok [if intensity > 200 then 0xf else 0, 0, 0, 0]"
| "logger_color (pixel_format.Unknown r g b) intensity = Panic (Explicit ''pixel format not supported in logger'')"

definition write_rendered_char :: "rasterized_char \<Rightarrow> frame_buffer_writer \<Rightarrow> frame_buffer_writer res" where
  "write_rendered_char ch wr =
     bindR (draw_raster 64 (logger_color (pixel_format (writer_info wr))) (stride (writer_info wr)) (bytes_per_pixel (writer_info wr))
       (x_pos wr) (y_pos wr) (raster ch) (framebuffer wr)) (\<lambda>fb.
     bindR (add_u64 (x_pos wr) (raster_width ch + LETTER_SPACING)) (\<lambda>x. Ok (wr\<lparr>framebuffer := fb, x_pos := x\<rparr>)))"

definition write_char :: "font \<Rightarrow> nat \<Rightarrow> frame_buffer_writer \<Rightarrow> frame_buffer_writer res" where
  "write_char F c wr =
     (if c = 10 then newline F wr
      else if c = 13 then Ok (carriage_return wr)
      else
        bindR (add_u64 (x_pos wr) (CHAR_RASTER_WIDTH F)) (\<lambda>new_xpos.
        bindR (if new_xpos \<ge> width (writer_info wr) then newline F wr else Ok wr) (\<lambda>wr.
        bindR (add_u64 (y_pos wr) (CHAR_RASTER_HEIGHT F + BORDER_PADDING)) (\<lambda>new_ypos.
        let wr = (if new_ypos \<ge> height (writer_info wr) then clear wr else wr) in
        bindR (get_char_raster F c) (\<lambda>ch. write_rendered_char ch wr)))))"

definition write_str :: "font \<Rightarrow> nat list \<Rightarrow> frame_buffer_writer \<Rightarrow> frame_buffer_writer res" where
  "write_str F s wr = foldR (write_char F) s wr"

subsection \<open>The writer of stage 3\<close>

text \<open>\<open>bitmap_of\<close> is \<open>get_bitmap(c, Regular, Size14)\<close>, whose \<open>height\<close> is the number of rows.\<close>

record screen_writer =
  screen_framebuffer :: "u8 list"
  screen_info :: bios_framebuffer_info
  screen_x :: nat
  screen_y :: nat

definition SCREEN_LINE_SPACING :: nat where "SCREEN_LINE_SPACING = 0"

definition screen_carriage_return :: "screen_writer \<Rightarrow> screen_writer" where
  "screen_carriage_return wr = wr\<lparr>screen_x := 0\<rparr>"

definition screen_newline :: "screen_writer \<Rightarrow> screen_writer res" where
  "screen_newline wr = bindR (add_u32 (screen_y wr) (14 + SCREEN_LINE_SPACING)) (\<lambda>y. Ok (screen_carriage_return (wr\<lparr>screen_y := y\<rparr>)))"

definition screen_clear :: "screen_writer \<Rightarrow> screen_writer" where
  "screen_clear wr = wr\<lparr>screen_x := 0, screen_y := 0, screen_framebuffer := replicate (length (screen_framebuffer wr)) 0\<rparr>"

definition screen_writer_new :: "u8 list \<Rightarrow> bios_framebuffer_info \<Rightarrow> screen_writer" where
  "screen_writer_new fb info = screen_clear \<lparr>screen_framebuffer = fb, screen_info = info, screen_x = 0, screen_y = 0\<rparr>"

fun screen_color :: "bios_pixel_format \<Rightarrow> u8 \<Rightarrow> u8 list res" where
  "screen_color BiosRgb intensity = Ok [intensity, intensity, intensity div 2, 0]"
| "screen_color BiosBgr intensity = Ok [intensity div 2, intensity, intensity, 0]"
| "screen_color (BiosUnknown r g b) intensity = Panic (Explicit ''pixel format not supported in logger'')"

definition screen_write_rendered_char :: "rasterized_char \<Rightarrow> screen_writer \<Rightarrow> screen_writer res" where
  "screen_write_rendered_char ch wr =
     bindR (draw_raster 32 (screen_color (bf_pixel_format (screen_info wr))) (bf_stride (screen_info wr)) (bf_bytes_per_pixel (screen_info wr))
       (screen_x wr) (screen_y wr) (raster ch) (screen_framebuffer wr)) (\<lambda>fb.
     bindR (add_u32 (screen_x wr) (raster_width ch)) (\<lambda>x. Ok (wr\<lparr>screen_framebuffer := fb, screen_x := x\<rparr>)))"

definition screen_write_char :: "(nat \<Rightarrow> rasterized_char option) \<Rightarrow> nat \<Rightarrow> screen_writer \<Rightarrow> screen_writer res" where
  "screen_write_char bitmap_of c wr =
     (if c = 10 then screen_newline wr
      else if c = 13 then Ok (screen_carriage_return wr)
      else
        bindR (expect_some ''called `Option::unwrap()` on a `None` value'' (bitmap_of c)) (\<lambda>ch.
        bindR (add_u32 (screen_x wr) (raster_width ch)) (\<lambda>new_x.
        bindR (if new_x > bf_width (screen_info wr) then screen_newline wr else Ok wr) (\<lambda>wr.
        bindR (add_u32 (screen_y wr) (length (raster ch))) (\<lambda>new_y.
        let wr = (if new_y > bf_height (screen_info wr) then screen_clear wr else wr) in
        screen_write_rendered_char ch wr)))))"

definition screen_write_str :: "(nat \<Rightarrow> rasterized_char option) \<Rightarrow> nat list \<Rightarrow> screen_writer \<Rightarrow> screen_writer res" where
  "screen_write_str bitmap_of s wr = foldR (screen_write_char bitmap_of) s wr"

text \<open>\<open>init\<close>: the writer on the region of the framebuffer.\<close>

definition screen_init :: "bios_framebuffer_info \<Rightarrow> memory \<Rightarrow> screen_writer res" where
  "screen_init info mem =
     bindR (try_into_w 32 (range_len (bf_region info))) (\<lambda>len.
       Ok (screen_writer_new (read_bytes mem (range_start (bf_region info) mod 2 ^ 32) len) info))"

section \<open>Lemmas\<close>

subsection \<open>Pixels\<close>

text \<open>The line and the column of the pixel of a byte.\<close>

definition pixel_y :: "nat \<Rightarrow> nat \<Rightarrow> nat \<Rightarrow> nat" where "pixel_y line bpp i = i div bpp div line"
definition pixel_x :: "nat \<Rightarrow> nat \<Rightarrow> nat \<Rightarrow> nat" where "pixel_x line bpp i = i div bpp mod line"

lemma pixel_eq:
  assumes "x < line"
  shows "i div bpp = y * line + x \<longleftrightarrow> pixel_y line bpp i = y \<and> pixel_x line bpp i = x"
proof -
  have "(y * line + x) div line = y" "(y * line + x) mod line = x" using assms by auto
  then show ?thesis unfolding pixel_y_def pixel_x_def by (metis div_mult_mod_eq)
qed

lemma draw_pixel_eq:
  assumes "color = Ok cs" and "length cs = 4" and "0 < bpp" "bpp \<le> 4" and "x < line"
    and "(y * line + x + 1) * bpp \<le> length fb" and "length fb < 2 ^ w"
  shows "\<exists>fb'. draw_pixel w color line bpp x y fb = Ok fb' \<and> length fb' = length fb \<and>
    (\<forall>i<length fb. fb' ! i = (if pixel_y line bpp i = y \<and> pixel_x line bpp i = x then cs ! (i mod bpp) else fb ! i))"
proof -
  let ?p = "y * line + x" and ?fb = "take ((y * line + x) * bpp) fb @ take bpp cs @ drop ((y * line + x) * bpp + bpp) fb"
  have le: "?p * bpp + bpp \<le> length fb" using assms(6) by simp
  have p: "?p \<le> ?p * bpp" using assms(3) by simp
  have ops: "y * line < 2 ^ w" "?p < 2 ^ w" "?p * bpp < 2 ^ w" "?p * bpp + bpp < 2 ^ w"
    using le p assms(7) by linarith+
  have "draw_pixel w color line bpp x y fb = Ok ?fb"
    using ops le assms(1-4)
    by (simp add: draw_pixel_def mul_w_def add_w_def slice_range_def index_slice_def Let_def)
  moreover have "length ?fb = length fb" using le assms(2,4) by simp
  moreover have "?fb ! i = (if pixel_y line bpp i = y \<and> pixel_x line bpp i = x then cs ! (i mod bpp) else fb ! i)"
    if "i < length fb" for i
  proof -
    have "i div bpp = ?p \<longleftrightarrow> ?p * bpp \<le> i \<and> i < ?p * bpp + bpp"
      using assms(3) by (metis add.commute div_nat_eqI dividend_less_div_times div_times_less_eq_dividend mult.commute mult_Suc)
    moreover have "i mod bpp = i - ?p * bpp" if "i div bpp = ?p" using that by (metis minus_div_mult_eq_mod)
    ultimately show ?thesis
      using le assms(2,4) that unfolding pixel_eq[OF assms(5), symmetric] by (auto simp: nth_append min_def)
  qed
  ultimately show ?thesis by blast
qed

lemma le_mult_pos: "0 < b \<Longrightarrow> a \<le> a * b" for a b :: nat
  by simp

lemma enumerate_split:
  assumes "enumerate 0 xs = ys @ z # zs"
  shows "z = (length ys, xs ! length ys)" and "length ys < length xs"
proof -
  have "length (enumerate 0 xs) = length (ys @ z # zs)" by (simp only: assms)
  then show l: "length ys < length xs" by simp
  have "enumerate 0 xs ! length ys = z" by (simp add: assms)
  with l show "z = (length ys, xs ! length ys)" by (simp add: nth_enumerate_eq)
qed

text \<open>The bytes of a drawn bitmap: inside its rectangle the colours, elsewhere what was there.\<close>

definition drawn_byte :: "(u8 \<Rightarrow> u8 list) \<Rightarrow> nat \<Rightarrow> nat \<Rightarrow> nat \<Rightarrow> nat \<Rightarrow> u8 list list \<Rightarrow> u8 list \<Rightarrow> nat \<Rightarrow> u8" where
  "drawn_byte cf line bpp x0 y0 rows fb i =
     (let x = pixel_x line bpp i; y = pixel_y line bpp i in
      if y0 \<le> y \<and> y < y0 + length rows \<and> x0 \<le> x \<and> x < x0 + length (rows ! (y - y0))
      then cf (rows ! (y - y0) ! (x - x0)) ! (i mod bpp) else fb ! i)"

lemma draw_row_total:
  assumes color: "\<And>b. color b = Ok (cf b)" "\<And>b. length (cf b) = 4" and bpp: "0 < bpp" "bpp \<le> 4"
    and fits: "x0 + length row \<le> line" "(y0 + y + 1) * line * bpp \<le> length fb" and w: "length fb < 2 ^ w"
  shows "\<exists>fb'. foldR (\<lambda>(x, byte) fb. bindR (add_w w x0 x) (\<lambda>px. bindR (add_w w y0 y) (\<lambda>py. draw_pixel w (color byte) line bpp px py fb)))
      (enumerate 0 row) fb = Ok fb' \<and> length fb' = length fb \<and>
    (\<forall>i<length fb. fb' ! i = (if pixel_y line bpp i = y0 + y \<and> x0 \<le> pixel_x line bpp i \<and> pixel_x line bpp i < x0 + length (enumerate 0 row)
       then cf (row ! (pixel_x line bpp i - x0)) ! (i mod bpp) else fb ! i))"
proof (rule foldR_total[where I = "\<lambda>ys s. length s = length fb \<and> (\<forall>i<length fb. s ! i =
      (if pixel_y line bpp i = y0 + y \<and> x0 \<le> pixel_x line bpp i \<and> pixel_x line bpp i < x0 + length ys
       then cf (row ! (pixel_x line bpp i - x0)) ! (i mod bpp) else fb ! i))"], goal_cases)
  case (2 ys z zs s)
  note z = enumerate_split[OF 2(1)]
  let ?x = "x0 + length ys"
  have x: "?x < line" using z(2) fits(1) by simp
  have "(y0 + y) * line + ?x + 1 \<le> (y0 + y + 1) * line" using x by simp
  then have le: "((y0 + y) * line + ?x + 1) * bpp \<le> length s"
    using fits(2) 2(2) mult_le_mono1[of _ _ bpp] by (metis le_trans)
  have "(y0 + y) * line + ?x + 1 \<le> ((y0 + y) * line + ?x + 1) * bpp" "y0 + y \<le> (y0 + y) * line"
    by (rule le_mult_pos[OF bpp(1)]) (use x in simp)
  then have "?x < 2 ^ w" "y0 + y < 2 ^ w" using le 2(2) w by linarith+
  then have ops: "add_w w x0 (length ys) = Ok ?x" "add_w w y0 y = Ok (y0 + y)"
    by (auto simp: add_w_def)
  from draw_pixel_eq[OF color(1,2) bpp x le, of w "row ! length ys"] 2(2) w obtain s' where
    "draw_pixel w (color (row ! length ys)) line bpp ?x (y0 + y) s = Ok s'" "length s' = length fb"
    and s': "\<forall>i<length fb. s' ! i = (if pixel_y line bpp i = y0 + y \<and> pixel_x line bpp i = ?x then cf (row ! length ys) ! (i mod bpp) else s ! i)"
    by auto
  moreover have "s' ! i = (if pixel_y line bpp i = y0 + y \<and> x0 \<le> pixel_x line bpp i \<and> pixel_x line bpp i < x0 + length (ys @ [z])
       then cf (row ! (pixel_x line bpp i - x0)) ! (i mod bpp) else fb ! i)" if "i < length fb" for i
    using s' 2(2) that by (cases "pixel_x line bpp i = ?x") auto
  ultimately show ?case by (simp add: z(1) ops)
qed auto

lemma draw_raster_total:
  assumes color: "\<And>b. color b = Ok (cf b)" "\<And>b. length (cf b) = 4" and bpp: "0 < bpp" "bpp \<le> 4"
    and fits: "\<And>row. row \<in> set rows \<Longrightarrow> x0 + length row \<le> line" "(y0 + length rows) * line * bpp \<le> length fb" and w: "length fb < 2 ^ w"
  shows "\<exists>fb'. draw_raster w color line bpp x0 y0 rows fb = Ok fb' \<and> length fb' = length fb \<and>
    (\<forall>i<length fb. fb' ! i = drawn_byte cf line bpp x0 y0 rows fb i)"
proof -
  let ?b = "\<lambda>n i. if y0 \<le> pixel_y line bpp i \<and> pixel_y line bpp i < y0 + n \<and> x0 \<le> pixel_x line bpp i \<and>
      pixel_x line bpp i < x0 + length (rows ! (pixel_y line bpp i - y0))
    then cf (rows ! (pixel_y line bpp i - y0) ! (pixel_x line bpp i - x0)) ! (i mod bpp) else fb ! i"
  have "\<exists>fb'. draw_raster w color line bpp x0 y0 rows fb = Ok fb' \<and> length fb' = length fb \<and>
    (\<forall>i<length fb. fb' ! i = ?b (length (enumerate 0 rows)) i)"
    unfolding draw_raster_def
  proof (rule foldR_total[where I = "\<lambda>ys s. length s = length fb \<and> (\<forall>i<length fb. s ! i = ?b (length ys) i)"], goal_cases)
    case (2 ys z zs s)
    note z = enumerate_split[OF 2(1)]
    let ?row = "rows ! length ys"
    have row: "x0 + length ?row \<le> line" using fits(1) z(2) by simp
    have "(y0 + length ys + 1) * line * bpp \<le> (y0 + length rows) * line * bpp"
      using z(2) by (intro mult_le_mono1) simp
    then have "(y0 + length ys + 1) * line * bpp \<le> length s" using fits(2) 2(2) by linarith
    from draw_row_total[where color = color and cf = cf and w = w, OF color bpp row this] 2(2) w obtain s' where
      run: "foldR (\<lambda>(x, byte) fb. bindR (add_w w x0 x) (\<lambda>px. bindR (add_w w y0 (length ys)) (\<lambda>py. draw_pixel w (color byte) line bpp px py fb)))
        (enumerate 0 ?row) s = Ok s'" and len: "length s' = length fb"
      and s': "\<forall>i<length fb. s' ! i = (if pixel_y line bpp i = y0 + length ys \<and> x0 \<le> pixel_x line bpp i \<and> pixel_x line bpp i < x0 + length ?row
        then cf (?row ! (pixel_x line bpp i - x0)) ! (i mod bpp) else s ! i)" by auto
    have "s' ! i = ?b (length (ys @ [z])) i" if "i < length fb" for i
      using s' 2(2) that by (cases "pixel_y line bpp i = y0 + length ys") auto
    with run len show ?case by (simp add: z(1))
  qed auto
  then show ?thesis by (simp add: drawn_byte_def Let_def)
qed

subsection \<open>Fonts\<close>

locale mono_font =
  fixes F :: font
  assumes raster_size: "get_raster F c = Some r \<Longrightarrow>
      length (raster r) = CHAR_RASTER_HEIGHT F \<and> (\<forall>row\<in>set (raster r). length row = CHAR_RASTER_WIDTH F) \<and> raster_width r = CHAR_RASTER_WIDTH F"
    and raster_pos: "0 < CHAR_RASTER_WIDTH F"

locale mono_font_backup = mono_font +
  assumes backup: "get_raster F BACKUP_CHAR \<noteq> None"

text \<open>What a writer needs of the mode: a pixel of one to four bytes, lines and columns that fit in the
  slice, and space for a character.\<close>

definition surface_ok :: "nat \<Rightarrow> nat \<Rightarrow> nat \<Rightarrow> nat \<Rightarrow> nat \<Rightarrow> bool" where
  "surface_ok wd ht line bpp len \<longleftrightarrow> 0 < bpp \<and> bpp \<le> 4 \<and> wd \<le> line \<and> ht * line * bpp \<le> len"

definition pixel_visible :: "nat \<Rightarrow> nat \<Rightarrow> nat \<Rightarrow> nat \<Rightarrow> nat \<Rightarrow> bool" where
  "pixel_visible wd ht line bpp i \<longleftrightarrow> pixel_x line bpp i < wd \<and> pixel_y line bpp i < ht"

lemma surface_bounds:
  assumes "surface_ok wd ht line bpp len" and "0 < wd" "0 < ht"
  shows "wd \<le> len" "ht \<le> len"
proof -
  have s: "0 < bpp" "wd \<le> line" "ht * line * bpp \<le> len" using assms(1) by (auto simp: surface_ok_def)
  have "ht * line \<le> ht * line * bpp" "line \<le> ht * line" "ht \<le> ht * line" using s(1,2) assms(2,3) by simp_all
  with s show "wd \<le> len" "ht \<le> len" by linarith+
qed

text \<open>A character inside the visible area is drawn.\<close>

context mono_font
begin

lemma draw_char:
  assumes r: "get_raster F c = Some r" and ok: "surface_ok wd ht line bpp (length fb)" and w: "length fb < 2 ^ w"
    and color: "\<And>b. color b = Ok (cf b)" "\<And>b. length (cf b) = 4"
    and fits: "x0 + CHAR_RASTER_WIDTH F \<le> wd" "y0 + CHAR_RASTER_HEIGHT F \<le> ht"
  shows "\<exists>fb'. draw_raster w color line bpp x0 y0 (raster r) fb = Ok fb' \<and> length fb' = length fb \<and>
    (\<forall>i<length fb. fb' ! i = drawn_byte cf line bpp x0 y0 (raster r) fb i) \<and>
    (\<forall>i<length fb. \<not> pixel_visible wd ht line bpp i \<longrightarrow> fb' ! i = fb ! i)"
proof -
  have s: "0 < bpp" "bpp \<le> 4" "wd \<le> line" "ht * line * bpp \<le> length fb" using ok by (auto simp: surface_ok_def)
  have rows: "x0 + length row \<le> line" if "row \<in> set (raster r)" for row
    using raster_size[OF r] that fits(1) s(3) by auto
  have "(y0 + length (raster r)) * line * bpp \<le> ht * line * bpp"
    using raster_size[OF r] fits(2) by (intro mult_le_mono1) simp
  then have "(y0 + length (raster r)) * line * bpp \<le> length fb" by (rule le_trans[OF _ s(4)])
  from draw_raster_total[where color = color and cf = cf, OF color s(1,2) rows this w] obtain fb' where
    fb': "draw_raster w color line bpp x0 y0 (raster r) fb = Ok fb'" "length fb' = length fb"
      "\<forall>i<length fb. fb' ! i = drawn_byte cf line bpp x0 y0 (raster r) fb i" by blast
  have "drawn_byte cf line bpp x0 y0 (raster r) fb i = fb ! i" if "\<not> pixel_visible wd ht line bpp i" for i
    using that raster_size[OF r] fits nth_mem[of "pixel_y line bpp i - y0" "raster r"]
    by (auto simp: drawn_byte_def pixel_visible_def Let_def)
  with fb' show ?thesis by auto
qed

end

subsection \<open>The logger's writer\<close>

definition writer_ok :: "font \<Rightarrow> frame_buffer_writer \<Rightarrow> bool" where
  "writer_ok F wr \<longleftrightarrow>
     (let info = writer_info wr in
      surface_ok (width info) (height info) (stride info) (bytes_per_pixel info) (length (framebuffer wr)) \<and>
      length (framebuffer wr) < 2 ^ 62 \<and> pixel_format info \<in> {Rgb, Bgr, U8} \<and>
      BORDER_PADDING + CHAR_RASTER_WIDTH F \<le> width info \<and> BORDER_PADDING + CHAR_RASTER_HEIGHT F \<le> height info \<and>
      x_pos wr \<le> width info)"

definition color_bytes :: "u8 list res \<Rightarrow> u8 list" where
  "color_bytes c = (case c of Ok bs \<Rightarrow> bs | _ \<Rightarrow> [])"

lemma logger_color_total:
  assumes "fmt \<in> {Rgb, Bgr, U8}"
  shows "logger_color fmt b = Ok (color_bytes (logger_color fmt b))" "length (color_bytes (logger_color fmt b)) = 4"
  using assms by (auto simp: color_bytes_def)

text \<open>What one character, and then a whole text, may do to the writer.\<close>

definition text_step :: "font \<Rightarrow> frame_buffer_writer \<Rightarrow> frame_buffer_writer \<Rightarrow> bool" where
  "text_step F wr wr' \<longleftrightarrow> writer_ok F wr' \<and> writer_info wr' = writer_info wr \<and>
     length (framebuffer wr') = length (framebuffer wr) \<and>
     (\<forall>i<length (framebuffer wr). pixel_visible (width (writer_info wr)) (height (writer_info wr)) (stride (writer_info wr))
          (bytes_per_pixel (writer_info wr)) i \<or>
        framebuffer wr' ! i = framebuffer wr ! i \<or> framebuffer wr' ! i = 0)"

lemma writer_bounds:
  assumes "writer_ok F wr"
  shows "width (writer_info wr) < 2 ^ 62" "height (writer_info wr) < 2 ^ 62"
    "CHAR_RASTER_WIDTH F < 2 ^ 62" "CHAR_RASTER_HEIGHT F < 2 ^ 62" "x_pos wr < 2 ^ 62"
  using assms surface_bounds[of "width (writer_info wr)" "height (writer_info wr)"]
  by (fastforce simp: writer_ok_def BORDER_PADDING_def Let_def)+

lemma text_step_clear: "writer_ok F wr \<Longrightarrow> text_step F wr (clear wr)"
  by (auto simp: text_step_def writer_ok_def clear_def BORDER_PADDING_def Let_def)

lemma newline_step:
  assumes "writer_ok F wr" and "y_pos wr < 2 ^ 62"
  shows "newline F wr = Ok (wr\<lparr>x_pos := BORDER_PADDING, y_pos := y_pos wr + CHAR_RASTER_HEIGHT F + LINE_SPACING\<rparr>)"
    and "writer_ok F (wr\<lparr>x_pos := BORDER_PADDING, y_pos := y\<rparr>)"
  using assms writer_bounds[OF assms(1)]
  by (auto simp: newline_def carriage_return_def add_w_def LINE_SPACING_def writer_ok_def Let_def)

lemma text_step_trans: "text_step F a b \<Longrightarrow> text_step F b c \<Longrightarrow> text_step F a c"
  by (auto simp: text_step_def) metis

context mono_font_backup
begin

lemma get_char_raster_total: "\<exists>c' r. get_char_raster F c = Ok r \<and> get_raster F c' = Some r"
  using backup by (cases "get_raster F c") (auto simp: get_char_raster_def expect_some_def split: option.splits)

lemma write_rendered_char_step:
  assumes ok: "writer_ok F wr" and r: "get_raster F c = Some r"
    and fits: "x_pos wr + CHAR_RASTER_WIDTH F \<le> width (writer_info wr)" "y_pos wr + CHAR_RASTER_HEIGHT F \<le> height (writer_info wr)"
  shows "\<exists>wr'. write_rendered_char r wr = Ok wr' \<and> y_pos wr' = y_pos wr \<and> text_step F wr wr'"
proof -
  let ?i = "writer_info wr"
  have s: "surface_ok (width ?i) (height ?i) (stride ?i) (bytes_per_pixel ?i) (length (framebuffer wr))"
    "length (framebuffer wr) < 2 ^ 64" "pixel_format ?i \<in> {Rgb, Bgr, U8}" using ok by (auto simp: writer_ok_def Let_def)
  from draw_char[where w = 64 and color = "logger_color (pixel_format ?i)", OF r s(1,2) logger_color_total[OF s(3)] fits] obtain fb where
    "draw_raster 64 (logger_color (pixel_format ?i)) (stride ?i) (bytes_per_pixel ?i) (x_pos wr) (y_pos wr) (raster r) (framebuffer wr) = Ok fb"
    "length fb = length (framebuffer wr)"
    "\<forall>i<length (framebuffer wr). \<not> pixel_visible (width ?i) (height ?i) (stride ?i) (bytes_per_pixel ?i) i \<longrightarrow> fb ! i = framebuffer wr ! i"
    by blast
  moreover have "raster_width r = CHAR_RASTER_WIDTH F" using raster_size[OF r] by simp
  ultimately show ?thesis
    using ok fits(1) writer_bounds[OF ok]
    by (auto simp: write_rendered_char_def LETTER_SPACING_def add_w_def text_step_def writer_ok_def Let_def)
qed

lemma write_char_step:
  assumes ok: "writer_ok F wr" and y: "y_pos wr < 2 ^ 62"
  shows "\<exists>wr'. write_char F c wr = Ok wr' \<and> text_step F wr wr' \<and> y_pos wr' \<le> y_pos wr + (CHAR_RASTER_HEIGHT F + LINE_SPACING)"
proof -
  note b = writer_bounds[OF ok]
  let ?n = "wr\<lparr>x_pos := BORDER_PADDING, y_pos := y_pos wr + CHAR_RASTER_HEIGHT F + LINE_SPACING\<rparr>"
  let ?w = "if x_pos wr + CHAR_RASTER_WIDTH F \<ge> width (writer_info wr) then ?n else wr"
  let ?v = "if y_pos ?w + CHAR_RASTER_HEIGHT F + BORDER_PADDING \<ge> height (writer_info ?w) then clear ?w else ?w"
  have n: "newline F wr = Ok ?n" "text_step F wr ?n" and cr: "text_step F wr (carriage_return wr)"
    using newline_step[OF ok y] ok by (auto simp: text_step_def carriage_return_def writer_ok_def Let_def)
  have w: "text_step F wr ?w" using n(2) ok by (simp add: text_step_def)
  have wy: "y_pos ?w \<le> y_pos wr + (CHAR_RASTER_HEIGHT F + LINE_SPACING)" by simp
  have wx: "x_pos ?w + CHAR_RASTER_WIDTH F \<le> width (writer_info wr)"
    using ok by (auto simp: writer_ok_def Let_def)
  have v: "text_step F wr ?v" "writer_ok F ?v" using text_step_trans[OF w text_step_clear] w by (auto simp: text_step_def)
  have vy: "y_pos ?v \<le> y_pos wr + (CHAR_RASTER_HEIGHT F + LINE_SPACING)"
    using wy by (auto simp: clear_def BORDER_PADDING_def LINE_SPACING_def)
  have vfits: "x_pos ?v + CHAR_RASTER_WIDTH F \<le> width (writer_info ?v)" "y_pos ?v + CHAR_RASTER_HEIGHT F \<le> height (writer_info ?v)"
    using wx ok by (auto simp: clear_def writer_ok_def Let_def)
  obtain c' r where r: "get_char_raster F c = Ok r" "get_raster F c' = Some r" using get_char_raster_total by blast
  from write_rendered_char_step[OF v(2) r(2) vfits] obtain wr' where
    wr': "write_rendered_char r ?v = Ok wr'" "y_pos wr' = y_pos ?v" "text_step F ?v wr'" by blast
  have "add_u64 (x_pos wr) (CHAR_RASTER_WIDTH F) = Ok (x_pos wr + CHAR_RASTER_WIDTH F)"
    "add_u64 (y_pos ?w) (CHAR_RASTER_HEIGHT F + BORDER_PADDING) = Ok (y_pos ?w + CHAR_RASTER_HEIGHT F + BORDER_PADDING)"
    using b y by (auto simp: add_w_def BORDER_PADDING_def LINE_SPACING_def)
  with wr'(1) n(1) r(1) have "write_char F c wr = Ok wr'" if "c \<noteq> 10" "c \<noteq> 13"
    using that by (auto simp: write_char_def Let_def split: if_splits)
  moreover have "text_step F wr wr'" using text_step_trans[OF v(1) wr'(3)] .
  ultimately show ?thesis using n cr wr'(2) vy by (cases "c = 10"; cases "c = 13") (auto simp: write_char_def carriage_return_def)
qed

lemma write_str_step:
  assumes ok: "writer_ok F wr" and y: "y_pos wr + length s * (CHAR_RASTER_HEIGHT F + LINE_SPACING) < 2 ^ 62"
  shows "\<exists>wr'. write_str F s wr = Ok wr' \<and> text_step F wr wr' \<and> y_pos wr' \<le> y_pos wr + length s * (CHAR_RASTER_HEIGHT F + LINE_SPACING)"
  unfolding write_str_def
proof (rule foldR_total[where I = "\<lambda>ys w. text_step F wr w \<and> y_pos w \<le> y_pos wr + length ys * (CHAR_RASTER_HEIGHT F + LINE_SPACING)"], goal_cases)
  case 1
  show ?case using ok by (simp add: text_step_def)
next
  case (2 ys z zs w)
  have "length ys * (CHAR_RASTER_HEIGHT F + LINE_SPACING) \<le> length s * (CHAR_RASTER_HEIGHT F + LINE_SPACING)"
    using 2(1) by (intro mult_le_mono1) simp
  with 2(2) y have "y_pos w < 2 ^ 62" by linarith
  moreover have "writer_ok F w" using 2(2) by (simp add: text_step_def)
  ultimately obtain w' where "write_char F z w = Ok w'" "text_step F w w'" "y_pos w' \<le> y_pos w + (CHAR_RASTER_HEIGHT F + LINE_SPACING)"
    using write_char_step by blast
  with 2(2) text_step_trans[of F wr w w'] show ?case by auto
qed

end

subsection \<open>The writer of stage 3\<close>

definition screen_ok :: "font \<Rightarrow> screen_writer \<Rightarrow> bool" where
  "screen_ok F wr \<longleftrightarrow>
     (let info = screen_info wr in
      surface_ok (bf_width info) (bf_height info) (bf_stride info) (bf_bytes_per_pixel info) (length (screen_framebuffer wr)) \<and>
      length (screen_framebuffer wr) < 2 ^ 30 \<and> \<not> is_unknown (bf_pixel_format info) \<and>
      CHAR_RASTER_WIDTH F \<le> bf_width info \<and> 0 < CHAR_RASTER_HEIGHT F \<and> CHAR_RASTER_HEIGHT F \<le> bf_height info \<and>
      screen_x wr \<le> bf_width info)"

text \<open>Where the next character goes, and what is on the screen then: at the cursor, on the next line or
  on a cleared screen.\<close>

definition screen_place :: "font \<Rightarrow> screen_writer \<Rightarrow> nat \<times> nat \<times> u8 list" where
  "screen_place F wr =
     (let (x, y) = (if screen_x wr + CHAR_RASTER_WIDTH F \<le> bf_width (screen_info wr) then (screen_x wr, screen_y wr) else (0, screen_y wr + 14)) in
      if y + CHAR_RASTER_HEIGHT F \<le> bf_height (screen_info wr) then (x, y, screen_framebuffer wr)
      else (0, 0, replicate (length (screen_framebuffer wr)) 0))"

lemma screen_color_total:
  assumes "\<not> is_unknown fmt"
  shows "screen_color fmt b = Ok (color_bytes (screen_color fmt b))" "length (color_bytes (screen_color fmt b)) = 4"
  using assms by (cases fmt; simp add: color_bytes_def)+

context mono_font
begin

lemma screen_write_rendered_char_drawn:
  assumes ok: "screen_ok F wr" and r: "get_raster F c = Some r"
    and fits: "screen_x wr + CHAR_RASTER_WIDTH F \<le> bf_width (screen_info wr)" "screen_y wr + CHAR_RASTER_HEIGHT F \<le> bf_height (screen_info wr)"
  shows "\<exists>fb. screen_write_rendered_char r wr = Ok (wr\<lparr>screen_framebuffer := fb, screen_x := screen_x wr + CHAR_RASTER_WIDTH F\<rparr>) \<and>
    length fb = length (screen_framebuffer wr) \<and>
    (\<forall>i<length fb. fb ! i = drawn_byte (color_bytes \<circ> screen_color (bf_pixel_format (screen_info wr))) (bf_stride (screen_info wr))
      (bf_bytes_per_pixel (screen_info wr)) (screen_x wr) (screen_y wr) (raster r) (screen_framebuffer wr) i)"
proof -
  let ?i = "screen_info wr"
  have s: "surface_ok (bf_width ?i) (bf_height ?i) (bf_stride ?i) (bf_bytes_per_pixel ?i) (length (screen_framebuffer wr))"
    "length (screen_framebuffer wr) < 2 ^ 32" "\<not> is_unknown (bf_pixel_format ?i)" and p: "0 < bf_height ?i" "0 < bf_width ?i"
    using ok raster_pos by (auto simp: screen_ok_def Let_def)
  have "screen_x wr + CHAR_RASTER_WIDTH F < 2 ^ 32" using surface_bounds[OF s(1) p(2,1)] fits(1) s(2) by linarith
  with draw_char[where w = 32 and color = "screen_color (bf_pixel_format ?i)", OF r s(1,2) screen_color_total[OF s(3)] fits] raster_size[OF r]
  show ?thesis by (auto simp: screen_write_rendered_char_def add_w_def comp_def)
qed

lemma screen_write_char_drawn:
  assumes ok: "screen_ok F wr" and y: "screen_y wr < 2 ^ 30" and r: "get_raster F c = Some r" and c: "c \<noteq> 10" "c \<noteq> 13"
    and place: "screen_place F wr = (x, y, base)"
  shows "\<exists>fb. screen_write_char (get_raster F) c wr =
      Ok (wr\<lparr>screen_framebuffer := fb, screen_x := x + CHAR_RASTER_WIDTH F, screen_y := y\<rparr>) \<and>
    x + CHAR_RASTER_WIDTH F \<le> bf_width (screen_info wr) \<and> y + CHAR_RASTER_HEIGHT F \<le> bf_height (screen_info wr) \<and>
    length fb = length (screen_framebuffer wr) \<and>
    (\<forall>i<length fb. fb ! i = drawn_byte (color_bytes \<circ> screen_color (bf_pixel_format (screen_info wr))) (bf_stride (screen_info wr))
      (bf_bytes_per_pixel (screen_info wr)) x y (raster r) base i)"
proof -
  let ?i = "screen_info wr" and ?W = "CHAR_RASTER_WIDTH F" and ?H = "CHAR_RASTER_HEIGHT F"
  let ?v = "wr\<lparr>screen_framebuffer := base, screen_x := x, screen_y := y\<rparr>"
  have s: "surface_ok (bf_width ?i) (bf_height ?i) (bf_stride ?i) (bf_bytes_per_pixel ?i) (length (screen_framebuffer wr))"
    "length (screen_framebuffer wr) < 2 ^ 30" and p: "0 < bf_height ?i" "0 < bf_width ?i"
    using ok raster_pos by (auto simp: screen_ok_def Let_def)
  have b: "bf_width ?i < 2 ^ 30" "bf_height ?i < 2 ^ 30" using surface_bounds[OF s(1) p(2,1)] s(2) by linarith+
  have fits: "x + ?W \<le> bf_width ?i" "y + ?H \<le> bf_height ?i" and len: "length base = length (screen_framebuffer wr)"
    using place ok by (auto simp: screen_place_def screen_ok_def Let_def split: if_splits)
  have v: "screen_ok F ?v" using ok fits len by (auto simp: screen_ok_def Let_def)
  have step: "screen_write_char (get_raster F) c wr = screen_write_rendered_char r ?v"
    using c r place raster_size[OF r] ok b y
    by (cases wr) (auto simp: screen_write_char_def screen_place_def screen_newline_def screen_carriage_return_def screen_clear_def
        SCREEN_LINE_SPACING_def add_w_def screen_ok_def expect_some_def Let_def split: if_splits)
  from screen_write_rendered_char_drawn[OF v r] fits len show ?thesis unfolding step by (cases wr) auto
qed

end

subsection \<open>A reference font\<close>

text \<open>A block for every character.\<close>

definition block_font :: "nat \<Rightarrow> nat \<Rightarrow> font" where
  "block_font h w = \<lparr>CHAR_RASTER_HEIGHT = h, CHAR_RASTER_WIDTH = Suc w,
     get_raster = (\<lambda>c. Some \<lparr>raster = replicate h (replicate (Suc w) 0xff), raster_width = Suc w\<rparr>)\<rparr>"

interpretation block: mono_font_backup "block_font h w" for h w
  by unfold_locales (auto simp: block_font_def)

section \<open>Properties\<close>

text \<open>C25. Logging stays on the screen: for every text, a writer whose mode has space for a character returns, keeps
  that condition and its mode, and a byte of the framebuffer that belongs to no visible pixel keeps its value or is
  zero.\<close>

theorem log_text_visible:
  assumes font: "mono_font_backup F" and ok: "writer_ok F wr"
    and short: "y_pos wr + length s * (CHAR_RASTER_HEIGHT F + LINE_SPACING) < 2 ^ 62"
  shows "\<exists>wr'. write_str F s wr = Ok wr' \<and> writer_ok F wr' \<and> writer_info wr' = writer_info wr \<and>
    length (framebuffer wr') = length (framebuffer wr) \<and>
    (\<forall>i<length (framebuffer wr). pixel_visible (width (writer_info wr)) (height (writer_info wr)) (stride (writer_info wr))
        (bytes_per_pixel (writer_info wr)) i \<or>
      framebuffer wr' ! i = framebuffer wr ! i \<or> framebuffer wr' ! i = 0)"
  using mono_font_backup.write_str_step[OF font ok short] unfolding text_step_def by blast

definition example_log_writer :: frame_buffer_writer where
  "example_log_writer = writer_new (replicate 960 7)
     \<lparr>byte_len = 960, width = 10, height = 20, pixel_format = Rgb, bytes_per_pixel = 4, stride = 12\<rparr>"

theorem log_text_visible_witness:
  "\<exists>wr'. write_str (block_font 16 6) [65, 10, 66, 67] example_log_writer = Ok wr' \<and> length (framebuffer wr') = 960 \<and> framebuffer wr' ! 43 = 0"
proof -
  let ?wr = example_log_writer
  have ok: "writer_ok (block_font 16 6) ?wr"
    by (simp add: example_log_writer_def writer_ok_def writer_new_def clear_def surface_ok_def block_font_def BORDER_PADDING_def)
  have short: "y_pos ?wr + length [65, 10, 66, 67 :: nat] * (CHAR_RASTER_HEIGHT (block_font 16 6) + LINE_SPACING) < 2 ^ 62"
    by (simp add: example_log_writer_def writer_new_def clear_def block_font_def BORDER_PADDING_def LINE_SPACING_def)
  have hidden: "length (framebuffer ?wr) = 960" "framebuffer ?wr ! 43 = 0"
    "\<not> pixel_visible (width (writer_info ?wr)) (height (writer_info ?wr)) (stride (writer_info ?wr)) (bytes_per_pixel (writer_info ?wr)) 43"
    by (simp_all add: example_log_writer_def writer_new_def clear_def pixel_visible_def pixel_x_def)
  obtain wr' where "write_str (block_font 16 6) [65, 10, 66, 67] ?wr = Ok wr'" "length (framebuffer wr') = 960"
    "\<forall>i<960. pixel_visible (width (writer_info ?wr)) (height (writer_info ?wr)) (stride (writer_info ?wr)) (bytes_per_pixel (writer_info ?wr)) i \<or>
      framebuffer wr' ! i = framebuffer ?wr ! i \<or> framebuffer wr' ! i = 0"
    using log_text_visible[OF block.mono_font_backup_axioms ok short] unfolding hidden(1) by blast
  moreover from this(3)[rule_format, of 43] hidden have "framebuffer wr' ! 43 = 0" by simp
  ultimately show ?thesis by blast
qed

text \<open>C26. A character on the screen of stage 3: it is drawn at the cursor, at the start of the next line when the line is full, or
  at the top of the cleared screen when there is no such line; there it lies within the visible lines and columns, the
  pixels of its rectangle have the colours of its bitmap, all other bytes are unchanged, and the cursor is behind it.\<close>

theorem screen_char_drawn:
  assumes font: "mono_font F" and ok: "screen_ok F wr" and y: "screen_y wr < 2 ^ 30"
    and r: "get_raster F c = Some r" and c: "c \<noteq> 10" "c \<noteq> 13" and place: "screen_place F wr = (x, y, base)"
  shows "\<exists>fb. screen_write_char (get_raster F) c wr =
      Ok (wr\<lparr>screen_framebuffer := fb, screen_x := x + CHAR_RASTER_WIDTH F, screen_y := y\<rparr>) \<and>
    x + CHAR_RASTER_WIDTH F \<le> bf_width (screen_info wr) \<and> y + CHAR_RASTER_HEIGHT F \<le> bf_height (screen_info wr) \<and>
    length fb = length (screen_framebuffer wr) \<and>
    (\<forall>i<length fb. fb ! i = drawn_byte (color_bytes \<circ> screen_color (bf_pixel_format (screen_info wr))) (bf_stride (screen_info wr))
      (bf_bytes_per_pixel (screen_info wr)) x y (raster r) base i)"
  by (rule mono_font.screen_write_char_drawn[OF font ok y r c place])

definition example_screen :: screen_writer where
  "example_screen = screen_writer_new (replicate 960 7) \<lparr>bf_region = \<lparr>range_start = 0, range_len = 960\<rparr>, bf_width = 10, bf_height = 20,
     bf_bytes_per_pixel = 4, bf_stride = 12, bf_pixel_format = BiosBgr\<rparr>"

theorem screen_char_drawn_witness:
  "\<exists>wr'. screen_write_char (get_raster (block_font 14 6)) 65 example_screen = Ok wr' \<and>
     screen_framebuffer wr' ! 0 = 0x7f \<and> screen_framebuffer wr' ! 1 = 0xff \<and> screen_framebuffer wr' ! 28 = 0 \<and> screen_x wr' = 7"
proof -
  have "screen_ok (block_font 14 6) example_screen" "screen_place (block_font 14 6) example_screen = (0, 0, replicate 960 0)"
    by (simp_all add: example_screen_def screen_writer_new_def screen_clear_def screen_ok_def surface_ok_def block_font_def screen_place_def)
  from screen_char_drawn[OF block.mono_font_axioms this(1) _ _ _ _ this(2), of 65 "\<lparr>raster = replicate 14 (replicate 7 0xff), raster_width = 7\<rparr>"]
  show ?thesis
    by (auto simp: example_screen_def screen_writer_new_def screen_clear_def block_font_def drawn_byte_def pixel_x_def pixel_y_def
        color_bytes_def Let_def)
qed

end
