(* ===== verification/Entropy.thy ===== *)
theory Entropy
  imports Rust_Prelude
begin

text \<open>
  Seeding the random number generator (\<^verbatim>\<open>src/common/src/entropy.rs\<close>): three sources of 32 bytes are
  combined with exclusive or.  The instructions and ports they read are parameters, functions of the
  number of the read; \<open>from_seed\<close> is the generator of the crate \<^verbatim>\<open>rand_hc\<close>.
\<close>

section \<open>Definitions\<close>

record entropy_hw =
  rd_rand :: "(nat \<Rightarrow> nat option) option"     \<comment> \<open>\<open>RdRand::new\<close> and the results of \<open>get_u64\<close>\<close>
  has_tsc :: "bool option"                     \<comment> \<open>the feature information, if there is any\<close>
  rdtsc :: "nat \<Rightarrow> nat"
  read_port :: "nat \<Rightarrow> nat \<Rightarrow> u8"

text \<open>\<open>entropy[i * 8..(i + 1) * 8].copy_from_slice(&value.to_ne_bytes())\<close>\<close>

definition put_chunk :: "nat \<Rightarrow> nat \<Rightarrow> u8 list \<Rightarrow> u8 list" where
  "put_chunk i v entropy = take (i * 8) entropy @ to_le_bytes 8 v @ drop ((i + 1) * 8) entropy"

definition RETRY_LIMIT :: nat where "RETRY_LIMIT = 10"

text \<open>The number of the next read is part of the state.\<close>

fun retry_random :: "nat \<Rightarrow> (nat \<Rightarrow> nat option) \<Rightarrow> nat \<Rightarrow> nat option \<times> nat" where
  "retry_random 0 get_u64 k = (None, k)"
| "retry_random (Suc n) get_u64 k =
     (case get_u64 k of Some v \<Rightarrow> (Some v, Suc k) | None \<Rightarrow> retry_random n get_u64 (Suc k))"

definition get_random_64 :: "(nat \<Rightarrow> nat option) \<Rightarrow> nat \<Rightarrow> nat option \<times> nat" where
  "get_random_64 get_u64 k = retry_random RETRY_LIMIT get_u64 k"

definition rd_rand_chunk :: "(nat \<Rightarrow> nat option) \<Rightarrow> nat \<Rightarrow> u8 list \<times> nat \<Rightarrow> u8 list \<times> nat" where
  "rd_rand_chunk get_u64 i = (\<lambda>(entropy, k).
     case get_random_64 get_u64 k of
       (Some v, k) \<Rightarrow> (put_chunk i v entropy, k)
     | (None, k) \<Rightarrow> (entropy, k))"

definition rd_rand_entropy :: "entropy_hw \<Rightarrow> u8 list" where
  "rd_rand_entropy hw =
     (case rd_rand hw of
        Some get_u64 \<Rightarrow> fst (fold (rd_rand_chunk get_u64) [0..<4] (replicate 32 0, 0))
      | None \<Rightarrow> replicate 32 0)"

definition tsc_entropy :: "entropy_hw \<Rightarrow> u8 list" where
  "tsc_entropy hw =
     (case has_tsc hw of
        Some tsc \<Rightarrow> if \<not> tsc then fold (\<lambda>i. put_chunk i (rdtsc hw i)) [0..<4] (replicate 32 0) else replicate 32 0
      | None \<Rightarrow> replicate 32 0)"

definition pit_entropy :: "entropy_hw \<Rightarrow> u8 list" where
  "pit_entropy hw = map (\<lambda>i. read_port hw (0x40 + i mod 3) i) [0..<32]"

definition build_rng :: "(u8 list \<Rightarrow> 'r) \<Rightarrow> entropy_hw \<Rightarrow> 'r" where
  "build_rng from_seed hw =
     from_seed (fold (\<lambda>source seed. map2 xor seed (source hw)) [rd_rand_entropy, tsc_entropy, pit_entropy] (replicate 32 0))"

section \<open>Lemmas\<close>

lemma length_put_chunk: "length entropy = 32 \<Longrightarrow> i < 4 \<Longrightarrow> length (put_chunk i v entropy) = 32"
  by (simp add: put_chunk_def)

lemma length_rd_rand_entropy [simp]: "length (rd_rand_entropy hw) = 32"
proof -
  have "length (fst (fold (rd_rand_chunk g) is (e, k))) = 32" if "length e = 32" "set is \<subseteq> {0..<4}" for g "is" e k
    using that
  proof (induction "is" arbitrary: e k)
    case (Cons i "is")
    obtain e' k' where s: "rd_rand_chunk g i (e, k) = (e', k')" by fastforce
    with Cons.prems have "length e' = 32"
      by (auto simp: rd_rand_chunk_def length_put_chunk split: prod.splits option.splits)
    with Cons s show ?case by simp
  qed simp
  from this[of "replicate 32 0" "[0..<4]"] show ?thesis by (auto simp: rd_rand_entropy_def split: option.splits)
qed

lemma length_tsc_entropy [simp]: "length (tsc_entropy hw) = 32"
proof -
  have "length (fold (\<lambda>i. put_chunk i (f i)) is e) = 32" if "length e = 32" "set is \<subseteq> {0..<4}" for f "is" e
    using that by (induction "is" arbitrary: e) (auto simp: length_put_chunk)
  from this[of "replicate 32 0" "[0..<4]" "rdtsc hw"] show ?thesis by (auto simp: tsc_entropy_def split: option.splits)
qed

lemma length_pit_entropy [simp]: "length (pit_entropy hw) = 32"
  by (simp add: pit_entropy_def)

text \<open>The seed is the exclusive or of the three sources, so one source of good entropy is enough.\<close>

lemma build_rng_seed:
  "\<exists>seed. build_rng from_seed hw = from_seed seed \<and> length seed = 32 \<and>
     (\<forall>i<32. seed ! i = xor (xor (rd_rand_entropy hw ! i) (tsc_entropy hw ! i)) (pit_entropy hw ! i))"
  by (rule exI[of _ "fold (\<lambda>source seed. map2 xor seed (source hw)) [rd_rand_entropy, tsc_entropy, pit_entropy] (replicate 32 0)"])
    (simp add: build_rng_def)

text \<open>A processor that has a time stamp counter contributes nothing from it.\<close>

lemma tsc_entropy_unused: "has_tsc hw = Some True \<Longrightarrow> tsc_entropy hw = replicate 32 0"
  by (simp add: tsc_entropy_def)

text \<open>A request for random bytes ends after at most ten reads.\<close>

lemma get_random_64_reads: "snd (get_random_64 g k) \<le> k + 10"
proof -
  have "snd (retry_random n g k) \<le> k + n" for n
  proof (induction n arbitrary: k)
    case (Suc n)
    from Suc[of "Suc k"] show ?case by (cases "g k") simp_all
  qed simp
  from this[of 10] show ?thesis by (simp add: get_random_64_def RETRY_LIMIT_def)
qed

end
