(* ===== verification/Elf_File.thy ===== *)
theory Elf_File
  imports Boot_Info
begin

text \<open>
  What the kernel loader reads from the kernel's ELF file.  The parser is the crate
  \<^verbatim>\<open>xmas_elf\<close> (not under \<^verbatim>\<open>src/\<close>): an ELF file is a record of the results its accessors give,
  over which all definitions and properties are quantified.  \<open>VirtualAddressOffset\<close> of
  \<^verbatim>\<open>src/common/src/load_kernel.rs\<close> is modelled here because the level 4 bookkeeping and the
  loader share it.
\<close>

section \<open>Definitions\<close>

datatype segment_type =
    NullSegment | Load | DynamicSegment | Interp | Note | ShLib | Phdr | Tls | GnuRelro
  | OsSpecific nat | ProcessorSpecific nat

datatype dynamic_tag = Rela | RelaSize | RelaEnt | OtherTag

record dynamic_entry =
  get_tag :: "dynamic_tag res"
  get_ptr :: "nat res"
  get_val :: "nat res"

datatype segment_data = Dynamic64 "dynamic_entry list" | OtherData

record program_header =
  get_type :: "segment_type res"
  ph_offset :: nat
  ph_virtual_addr :: nat
  ph_file_size :: nat
  ph_mem_size :: nat
  ph_align :: nat
  is_execute :: bool
  is_write :: bool
  get_data :: "segment_data res"
  ph_sanity_check :: "unit res"

datatype header_type = HNone | Relocatable | Executable | SharedObject | Core | HProcessorSpecific nat

record elf_file =
  elf_input :: nat  \<comment> \<open>the address of the first byte\<close>
  program_iter :: "program_header list"
  elf_type :: header_type
  elf_entry_point :: nat
  elf_sanity_check :: "unit res"

record kernel =
  elf :: elf_file
  kernel_config :: bootloader_config
  start_address :: nat
  kernel_file_len :: nat

subsection \<open>VirtualAddressOffset\<close>

text \<open>An \<open>i128\<close>; adding a \<open>u64\<close> must give a \<open>u64\<close>.\<close>

type_synonym virtual_address_offset = int

definition vao_zero :: virtual_address_offset where
  "vao_zero = 0"

definition vao_add :: "virtual_address_offset \<Rightarrow> nat \<Rightarrow> nat res" where
  "vao_add vao n =
     (let s = vao + int n in
      if s < - (2 ^ 127) \<or> s \<ge> 2 ^ 127 then Panic (Explicit ''called `Option::unwrap()` on a `None` value'')
      else if s < 0 \<or> s \<ge> 2 ^ 64 then Panic (Explicit ''out of range integral type conversion'')
      else Ok (nat s))"

section \<open>Lemmas\<close>

lemma vao_add_eq_Ok [res_simps]:
  "vao_add vao n = Ok a \<longleftrightarrow> int a = vao + int n \<and> a < 2 ^ 64"
  by (auto simp: vao_add_def Let_def)

lemma vao_add_not_Err [simp]: "vao_add vao n \<noteq> Err e"
  by (simp add: vao_add_def Let_def)

lemma vao_add_zero [simp]: "n < 2 ^ 64 \<Longrightarrow> vao_add 0 n = Ok n"
  by (simp add: vao_add_def Let_def)

text \<open>Offsetting keeps distances.\<close>

lemma vao_add_diff:
  "vao_add vao m = Ok a \<Longrightarrow> vao_add vao n = Ok b \<Longrightarrow> int b - int a = int n - int m"
  by (auto simp: vao_add_eq_Ok)

end
