(* ===== verification/Level_4_Entries.thy ===== *)
theory Level_4_Entries
  imports Elf_File X86_Addresses
begin

text \<open>
  The bookkeeping of used level 4 page-table entries
  (\<^verbatim>\<open>src/common/src/level_4_entries.rs\<close>), from which every dynamic virtual address comes.
  The random number generator (the crates \<^verbatim>\<open>rand\<close> and \<^verbatim>\<open>rand_hc\<close>, not under \<^verbatim>\<open>src/\<close>) is a
  parameter \<open>R\<close> with the contract \<open>rng_impl\<close>; the sizes the compiler gives \<open>BootInfo\<close> and
  \<open>MemoryRegion\<close> are the parameter \<open>L\<close>.
\<close>

section \<open>Definitions\<close>

subsection \<open>Parameters\<close>

record 'r rng_ops =
  rng_choose :: "nat list \<Rightarrow> 'r \<Rightarrow> nat option \<times> 'r"  \<comment> \<open>\<open>IteratorRandom::choose\<close>\<close>
  rng_sample :: "nat \<Rightarrow> 'r \<Rightarrow> (nat \<times> 'r) res"        \<comment> \<open>\<open>Uniform::from(0..n).sample\<close>\<close>

record layout =
  layout_size :: nat
  layout_align :: nat

record type_layouts =
  boot_info_layout :: layout
  memory_region_layout :: layout

text \<open>\<open>Layout::array\<close> and \<open>Layout::extend\<close> of the standard library.\<close>

definition layout_array :: "layout \<Rightarrow> nat \<Rightarrow> layout option" where
  "layout_array l n =
     (if layout_size l * n + (layout_align l - 1) < 2 ^ 63
      then Some \<lparr>layout_size = layout_size l * n, layout_align = layout_align l\<rparr> else None)"

definition layout_extend :: "layout \<Rightarrow> layout \<Rightarrow> (layout \<times> nat) option" where
  "layout_extend a b =
     (let al = max (layout_align a) (layout_align b);
          offset = (layout_size a + (layout_align b - 1)) div layout_align b * layout_align b;
          sz = offset + layout_size b
      in if sz + (al - 1) < 2 ^ 63 then Some (\<lparr>layout_size = sz, layout_align = al\<rparr>, offset) else None)"

subsection \<open>Used entries\<close>

record raw_frame_buffer_info =
  raw_addr :: nat
  raw_info :: frame_buffer_info

record 'r used_level_4_entries =
  entry_state :: "bool list"
  rng :: "'r option"

definition LEVEL_4_SIZE :: nat where
  "LEVEL_4_SIZE = 4096 * 512 * 512 * 512"

definition mark_p4_index_as_used :: "nat \<Rightarrow> 'r used_level_4_entries \<Rightarrow> 'r used_level_4_entries" where
  "mark_p4_index_as_used i u = u\<lparr>entry_state := (entry_state u)[i := True]\<rparr>"

definition mark_range_as_used ::
    "x86 \<Rightarrow> nat \<Rightarrow> nat \<Rightarrow> 'r used_level_4_entries \<Rightarrow> 'r used_level_4_entries res" where
  "mark_range_as_used X address sz u =
     bindR (virt_new X address) (\<lambda>start.
     bindR (virt_add X start sz) (\<lambda>end_addr.
     bindR (virt_sub X end_addr 1) (\<lambda>end_inclusive.
     let start_page = page_containing X start;
         end_page_inclusive = page_containing X end_inclusive
     in Ok (fold mark_p4_index_as_used
              [p4_index X start_page..<p4_index X end_page_inclusive + 1] u))))"

definition mark_segments ::
    "x86 \<Rightarrow> program_header list \<Rightarrow> virtual_address_offset \<Rightarrow> 'r used_level_4_entries \<Rightarrow>
     'r used_level_4_entries res" where
  "mark_segments X segments vao u =
     foldR (\<lambda>segment u.
       bindR (vao_add vao (ph_virtual_addr segment)) (\<lambda>addr.
         mark_range_as_used X addr (ph_mem_size segment) u))
       (filter (\<lambda>s. ph_mem_size s > 0) segments) u"

text \<open>The indices of the windows of \<open>num\<close> contiguous free entries, in order.\<close>

definition free_windows :: "bool list \<Rightarrow> nat \<Rightarrow> nat list" where
  "free_windows es num =
     filter (\<lambda>idx. list_all Not (take num (drop idx es))) [0..<length es + 1 - num]"

definition get_free_entries ::
    "'r rng_ops \<Rightarrow> nat \<Rightarrow> 'r used_level_4_entries \<Rightarrow> (nat \<times> 'r used_level_4_entries) res" where
  "get_free_entries R num u =
     (if num = 0 then Panic (Explicit ''window size must be non-zero'')
      else
        let free = free_windows (entry_state u) num;
            (idx_opt, rng') = (case rng u of
                Some r \<Rightarrow> (let (i, r') = rng_choose R free r in (i, Some r'))
              | None \<Rightarrow> (case free of [] \<Rightarrow> None | i # _ \<Rightarrow> Some i, None))
        in bindR (expect_some ''no usable level 4 entries found'' idx_opt) (\<lambda>idx.
           bindR (foldR (\<lambda>i es. if idx + i < length es then Ok (es[idx + i := True])
                              else Panic (Explicit ''index out of bounds'')) [0..<num] (entry_state u))
             (\<lambda>es.
           bindR (try_into_w 16 idx) (\<lambda>idx.
           if idx < 512 then Ok (idx, u\<lparr>entry_state := es, rng := rng'\<rparr>) else Panic External))))"

definition get_free_address ::
    "x86 \<Rightarrow> 'r rng_ops \<Rightarrow> nat \<Rightarrow> nat \<Rightarrow> 'r used_level_4_entries \<Rightarrow> (nat \<times> 'r used_level_4_entries) res" where
  "get_free_address X R sz alignment u =
     bindR (assertR ''assertion failed: alignment.is_power_of_two()'' (is_pow2 alignment)) (\<lambda>_.
     bindR (add_u64 sz (LEVEL_4_SIZE - 1)) (\<lambda>s.
     let level_4_entries = s div LEVEL_4_SIZE in
     bindR (get_free_entries R level_4_entries u) (\<lambda>(idx, u).
     let base = page_of_p4 X idx in
     bindR (case rng u of
         Some r \<Rightarrow>
           let max_offset = LEVEL_4_SIZE - sz mod LEVEL_4_SIZE in
           bindR (rng_sample R (max_offset div alignment) r) (\<lambda>(k, r').
           bindR (mul_u64 k alignment) (\<lambda>offset. Ok (offset, u\<lparr>rng := Some r'\<rparr>)))
       | None \<Rightarrow> Ok (0, u)) (\<lambda>(offset, u).
     bindR (virt_add X base offset) (\<lambda>addr. Ok (addr, u))))))"

subsection \<open>The initial state\<close>

text \<open>
  \<open>new\<close> marks the statically configured ranges; one function per \<open>if let\<close> of the source.
  \<open>build_rng\<close> is the generator that \<open>entropy::build_rng\<close> returns.
\<close>

definition mark_physical_memory ::
    "x86 \<Rightarrow> nat \<Rightarrow> bootloader_config \<Rightarrow> 'r used_level_4_entries \<Rightarrow> 'r used_level_4_entries res" where
  "mark_physical_memory X max_phys_addr config u =
     (case physical_memory (mappings config) of
        Some (FixedAddress offset) \<Rightarrow> mark_range_as_used X (unat offset) max_phys_addr u
      | _ \<Rightarrow> Ok u)"

definition mark_recursive ::
    "x86 \<Rightarrow> bootloader_config \<Rightarrow> 'r used_level_4_entries \<Rightarrow> 'r used_level_4_entries res" where
  "mark_recursive X config u =
     (case page_table_recursive (mappings config) of
        Some (FixedAddress addr) \<Rightarrow>
          bindR (virt_new X (unat addr)) (\<lambda>a. Ok (mark_p4_index_as_used (p4_index X a) u))
      | _ \<Rightarrow> Ok u)"

definition mark_kernel_stack ::
    "x86 \<Rightarrow> bootloader_config \<Rightarrow> 'r used_level_4_entries \<Rightarrow> 'r used_level_4_entries res" where
  "mark_kernel_stack X config u =
     (case kernel_stack (mappings config) of
        FixedAddress addr \<Rightarrow> mark_range_as_used X (unat addr) (unat (kernel_stack_size config)) u
      | Dynamic \<Rightarrow> Ok u)"

definition mark_boot_info ::
    "x86 \<Rightarrow> type_layouts \<Rightarrow> nat \<Rightarrow> bootloader_config \<Rightarrow> 'r used_level_4_entries \<Rightarrow>
     'r used_level_4_entries res" where
  "mark_boot_info X L regions_len config u =
     (case boot_info (mappings config) of
        FixedAddress addr \<Rightarrow>
          bindR (add_u64 regions_len 1) (\<lambda>regions.
          bindR (expect_some ''called `Result::unwrap()` on an `Err` value''
                   (layout_array (memory_region_layout L) regions)) (\<lambda>memory_regions_layout.
          bindR (expect_some ''called `Result::unwrap()` on an `Err` value''
                   (layout_extend (boot_info_layout L) memory_regions_layout)) (\<lambda>(combined, _).
          mark_range_as_used X (unat addr) (layout_size combined) u)))
      | Dynamic \<Rightarrow> Ok u)"

definition mark_framebuffer ::
    "x86 \<Rightarrow> raw_frame_buffer_info option \<Rightarrow> bootloader_config \<Rightarrow> 'r used_level_4_entries \<Rightarrow>
     'r used_level_4_entries res" where
  "mark_framebuffer X fb config u =
     (case framebuffer (mappings config) of
        FixedAddress addr \<Rightarrow>
          (case fb of
             Some raw \<Rightarrow> mark_range_as_used X (unat addr) (byte_len (raw_info raw)) u
           | None \<Rightarrow> Ok u)
      | Dynamic \<Rightarrow> Ok u)"

definition mark_before_dynamic_range ::
    "x86 \<Rightarrow> bootloader_config \<Rightarrow> 'r used_level_4_entries \<Rightarrow> 'r used_level_4_entries res" where
  "mark_before_dynamic_range X config u =
     (case dynamic_range_start (mappings config) of
        Some start \<Rightarrow>
          bindR (virt_new X (unat start)) (\<lambda>start.
          Ok (case page_backward X (page_containing X start) 1 of
                Some unusable_page \<Rightarrow>
                  fold mark_p4_index_as_used [0..<p4_index X unusable_page + 1] u
              | None \<Rightarrow> u))
      | None \<Rightarrow> Ok u)"

definition mark_after_dynamic_range ::
    "x86 \<Rightarrow> bootloader_config \<Rightarrow> 'r used_level_4_entries \<Rightarrow> 'r used_level_4_entries res" where
  "mark_after_dynamic_range X config u =
     (case dynamic_range_end (mappings config) of
        Some end_addr \<Rightarrow>
          bindR (virt_new X (unat end_addr)) (\<lambda>end_addr.
          Ok (case page_forward X (page_containing X end_addr) 1 of
                Some unusable_page \<Rightarrow>
                  fold mark_p4_index_as_used [p4_index X unusable_page..<512] u
              | None \<Rightarrow> u))
      | None \<Rightarrow> Ok u)"

definition used_entries_new ::
    "x86 \<Rightarrow> type_layouts \<Rightarrow> 'r \<Rightarrow> nat \<Rightarrow> nat \<Rightarrow> raw_frame_buffer_info option \<Rightarrow> bootloader_config \<Rightarrow>
     'r used_level_4_entries res" where
  "used_entries_new X L build_rng max_phys_addr regions_len fb config =
     (let u = \<lparr>entry_state = (replicate 512 False)[0 := True],
               rng = (if aslr (mappings config) then Some build_rng else None)\<rparr> in
      bindR (mark_physical_memory X max_phys_addr config u) (\<lambda>u.
      bindR (mark_recursive X config u) (\<lambda>u.
      bindR (mark_kernel_stack X config u) (\<lambda>u.
      bindR (mark_boot_info X L regions_len config u) (\<lambda>u.
      bindR (mark_framebuffer X fb config u) (\<lambda>u.
      bindR (mark_before_dynamic_range X config u) (\<lambda>u.
      mark_after_dynamic_range X config u)))))))"

subsection \<open>Specification vocabulary\<close>

text \<open>The level 4 index of an address, and the first address of an entry.\<close>

definition p4_of :: "nat \<Rightarrow> nat" where
  "p4_of a = a div 2 ^ 39 mod 512"

definition p4_base :: "nat \<Rightarrow> nat" where
  "p4_base i = (if i < 256 then i * 2 ^ 39 else i * 2 ^ 39 + (2 ^ 64 - 2 ^ 48))"

definition reserved :: "'r used_level_4_entries \<Rightarrow> nat set" where
  "reserved u = {i. i < length (entry_state u) \<and> entry_state u ! i}"

definition window :: "nat \<Rightarrow> nat \<Rightarrow> nat set" where
  "window idx num = {i. idx \<le> i \<and> i < idx + num}"

definition span :: "nat \<Rightarrow> nat \<Rightarrow> nat set" where
  "span a sz = {c. a \<le> c \<and> c < a + sz}"

text \<open>A later state of the bookkeeping: entries are only ever added.\<close>

definition extends :: "'r used_level_4_entries \<Rightarrow> 'r used_level_4_entries \<Rightarrow> bool" where
  "extends u u' \<longleftrightarrow> reserved u \<subseteq> reserved u' \<and> length (entry_state u') = length (entry_state u)"

text \<open>The virtual ranges that the configuration fixes.\<close>

definition fixed_ranges ::
    "type_layouts \<Rightarrow> nat \<Rightarrow> nat \<Rightarrow> raw_frame_buffer_info option \<Rightarrow> bootloader_config \<Rightarrow> (nat \<times> nat) set" where
  "fixed_ranges L max_phys_addr regions_len fb config =
     {(unat a, max_phys_addr) | a. physical_memory (mappings config) = Some (FixedAddress a)} \<union>
     {(unat a, unat (kernel_stack_size config)) | a. kernel_stack (mappings config) = FixedAddress a} \<union>
     {(unat a, byte_len (raw_info raw)) | a raw.
        framebuffer (mappings config) = FixedAddress a \<and> fb = Some raw}"

text \<open>What the bootloader relies on of the random number generator.\<close>

definition rng_ok :: "'r rng_ops \<Rightarrow> bool" where
  "rng_ok R \<longleftrightarrow>
     (\<forall>xs r x r'. rng_choose R xs r = (Some x, r') \<longrightarrow> x \<in> set xs) \<and>
     (\<forall>xs r r'. rng_choose R xs r = (None, r') \<longrightarrow> xs = []) \<and>
     (\<forall>n r x r'. rng_sample R n r = Ok (x, r') \<longrightarrow> x < n) \<and>
     (\<forall>n r. 0 < n \<longrightarrow> is_ok (rng_sample R n r))"

text \<open>A generator that counts, for the examples.\<close>

definition counter_rng :: "nat rng_ops" where
  "counter_rng = \<lparr>
     rng_choose = (\<lambda>xs r. (if xs = [] then None else Some (xs ! (r mod length xs)), r + 1)),
     rng_sample = (\<lambda>n r. if n = 0 then Panic External else Ok (r mod n, r + 1))\<rparr>"

section \<open>Lemmas\<close>

subsection \<open>Level 4 indices\<close>

lemma mod_512_shift: "k < 512 \<Longrightarrow> (k + 33553920) mod 512 = (k :: nat)"
  using mod_mult_self2[of k 512 65535] by simp

lemma nth_update_True: "j < length xs \<Longrightarrow> xs[i := True] ! j \<longleftrightarrow> xs ! j \<or> j = i"
  by (cases "i = j") auto

lemma ceiling_div:
  assumes "n mod d \<noteq> (0 :: nat)" and "0 < d"
  shows "(n + (d - 1)) div d = n div d + 1"
proof -
  have "(n div d + 1) * d = n div d * d + d" by simp
  with assms div_mult_mod_eq[of n d] have "n + (d - 1) = (n mod d - 1) + (n div d + 1) * d" by linarith
  moreover have "n mod d - 1 < d" using assms(2) mod_less_divisor[of d n] by linarith
  ultimately show ?thesis using assms(2) by (simp only: div_mult_self1 div_less)
qed

lemma p4_offset:
  assumes "same_half a b"
  obtains K where "\<And>c. a \<le> c \<Longrightarrow> c \<le> b \<Longrightarrow> p4_of c + K = c div 2 ^ 39"
proof (cases "b < 2 ^ 47")
  case True
  have "p4_of c + 0 = c div 2 ^ 39" if "c \<le> b" for c
  proof -
    from that True have "c div 2 ^ 39 < 256" by simp
    then show ?thesis by (simp add: p4_of_def)
  qed
  then show thesis using that by blast
next
  case False
  with assms have half: "2 ^ 64 - 2 ^ 47 \<le> a" "b < 2 ^ 64" by (auto simp: same_half_def)
  have "p4_of c + (2 ^ 25 - 512) = c div 2 ^ 39" if "a \<le> c" "c \<le> b" for c
  proof -
    from that half have q: "2 ^ 25 - 256 \<le> c div 2 ^ 39" "c div 2 ^ 39 < 2 ^ 25" by simp_all
    then obtain k where k: "c div 2 ^ 39 = k + 512 * 65535" "k < 512"
      by (intro that[of "c div 2 ^ 39 - 512 * 65535"]) simp_all
    then have "p4_of c = k" by (simp add: p4_of_def mod_512_shift)
    with k show ?thesis by simp
  qed
  then show thesis using that by blast
qed

lemma p4_of_less: "p4_of a < 512"
  by (simp add: p4_of_def)

lemma p4_of_span:
  assumes "same_half a (a + sz - 1)" and "0 < sz"
  shows "p4_of ` span a sz = {i. p4_of a \<le> i \<and> i \<le> p4_of (a + sz - 1)}"
proof -
  let ?b = "a + sz - 1"
  obtain K where K: "\<And>c. a \<le> c \<Longrightarrow> c \<le> ?b \<Longrightarrow> p4_of c + K = c div 2 ^ 39"
    using p4_offset[OF assms(1)] by blast
  from assms(2) have "a \<le> ?b" by simp
  with K[of a] K[of ?b] have ends: "p4_of a + K = a div 2 ^ 39" "p4_of ?b + K = ?b div 2 ^ 39" by auto
  show ?thesis
  proof (intro set_eqI iffI)
    fix i assume "i \<in> p4_of ` span a sz"
    then obtain c where c: "i = p4_of c" "a \<le> c" "c \<le> ?b" by (auto simp: span_def)
    have "a div 2 ^ 39 \<le> c div 2 ^ 39" "c div 2 ^ 39 \<le> ?b div 2 ^ 39"
      using c(2,3) by (auto intro: div_le_mono)
    with ends K[of c] c
    show "i \<in> {i. p4_of a \<le> i \<and> i \<le> p4_of ?b}" by simp
  next
    fix i assume i: "i \<in> {i. p4_of a \<le> i \<and> i \<le> p4_of ?b}"
    let ?c = "max a ((i + K) * 2 ^ 39)"
    from i ends have q: "a div 2 ^ 39 \<le> i + K" "i + K \<le> ?b div 2 ^ 39" by (auto; linarith)+
    then have c: "a \<le> ?c" "?c \<le> ?b" using assms(2) by (auto; linarith)+
    moreover have "?c div 2 ^ 39 = i + K"
      using q(1) by (auto simp: max_def; linarith)
    ultimately have "p4_of ?c = i" using K[of ?c] by simp
    moreover have "?c \<in> span a sz" using c assms(2)
      unfolding span_def mem_Collect_eq by (intro conjI) linarith+
    ultimately show "i \<in> p4_of ` span a sz" by (metis imageI)
  qed
qed

lemma p4_base_step:
  assumes "idx + num \<le> idx'" and "idx' < 512"
  shows "p4_base idx + num * 2 ^ 39 \<le> p4_base idx'"
  using assms by (simp add: p4_base_def)

lemma p4_base_canonical: "i < 512 \<Longrightarrow> k < 2 ^ 39 \<Longrightarrow> canonical (p4_base i + k)"
  by (auto simp: p4_base_def canonical_def)

lemma p4_of_base:
  assumes "i < 512" and "k < 2 ^ 39"
  shows "p4_of (p4_base i + k) = i"
proof -
  have "(p4_base i + k) div 2 ^ 39 = (if i < 256 then i else i + 512 * 65535)"
    using assms by (auto simp: p4_base_def)
  with assms(1) show ?thesis by (simp add: p4_of_def mod_512_shift)
qed

subsection \<open>Marking entries\<close>

lemma length_mark [simp]:
  "length (entry_state (mark_p4_index_as_used i u)) = length (entry_state u)"
  by (simp add: mark_p4_index_as_used_def)

lemma reserved_mark:
  "reserved (mark_p4_index_as_used i u) = reserved u \<union> ({i} \<inter> {j. j < length (entry_state u)})"
  by (auto simp: reserved_def mark_p4_index_as_used_def nth_update_True)

lemma fold_mark:
  "length (entry_state (fold mark_p4_index_as_used is u)) = length (entry_state u) \<and>
   rng (fold mark_p4_index_as_used is u) = rng u \<and>
   reserved (fold mark_p4_index_as_used is u) =
     reserved u \<union> (set is \<inter> {j. j < length (entry_state u)})"
proof (induction "is" arbitrary: u)
  case (Cons i "is")
  have "rng (mark_p4_index_as_used i u) = rng u" by (simp add: mark_p4_index_as_used_def)
  with Cons show ?case by (auto simp: reserved_mark)
qed simp

lemma mark_window:
  "foldR (\<lambda>i es. if idx + i < length es then Ok (es[idx + i := True])
     else Panic (Explicit ''index out of bounds'')) [0..<n] es = Ok es' \<Longrightarrow>
   length es' = length es \<and> (\<forall>j < length es. es' ! j \<longleftrightarrow> es ! j \<or> j \<in> window idx n)"
proof (induction n arbitrary: es')
  case (Suc n)
  from Suc.prems obtain es1 where
    one: "foldR (\<lambda>i es. if idx + i < length es then Ok (es[idx + i := True])
       else Panic (Explicit ''index out of bounds'')) [0..<n] es = Ok es1"
    and es': "es' = es1[idx + n := True]"
    by (auto simp: res_simps split: if_splits)
  from Suc.IH[OF one] show ?case
    by (auto simp: es' window_def nth_update_True)
qed (auto simp: window_def)

lemma mark_window_total:
  "idx + n \<le> length es \<Longrightarrow> \<exists>es'. length es' = length es \<and>
   foldR (\<lambda>i es. if idx + i < length es then Ok (es[idx + i := True])
     else Panic (Explicit ''index out of bounds'')) [0..<n] es = Ok es'"
proof (induction n)
  case (Suc n)
  then obtain es1 where "length es1 = length es"
    "foldR (\<lambda>i es. if idx + i < length es then Ok (es[idx + i := True])
       else Panic (Explicit ''index out of bounds'')) [0..<n] es = Ok es1" by auto
  with Suc.prems show ?case by simp
qed simp

subsection \<open>Free windows\<close>

lemma in_free_windows:
  assumes "0 < num"
  shows "idx \<in> set (free_windows es num) \<longleftrightarrow>
    idx + num \<le> length es \<and> (\<forall>i \<in> window idx num. \<not> es ! i)"
proof -
  have "list_all Not (take num (drop idx es)) \<longleftrightarrow> (\<forall>i \<in> window idx num. \<not> es ! i)"
    if "idx + num \<le> length es"
  proof -
    have "(\<forall>k < num. \<not> es ! (idx + k)) \<longleftrightarrow> (\<forall>i \<in> window idx num. \<not> es ! i)"
      by (auto simp: window_def) (metis add_diff_inverse_nat less_diff_conv2 nat_add_left_cancel_less not_less)
    with that show ?thesis by (simp add: list_all_length)
  qed
  moreover have "idx < length es + 1 - num \<longleftrightarrow> idx + num \<le> length es"
    using assms by auto
  ultimately show ?thesis by (auto simp: free_windows_def)
qed

lemma rng_ok_choose: "rng_ok R \<Longrightarrow> rng_choose R xs r = (Some x, r') \<Longrightarrow> x \<in> set xs"
  and rng_ok_choose_none: "rng_ok R \<Longrightarrow> rng_choose R xs r = (None, r') \<Longrightarrow> xs = []"
  and rng_ok_sample: "rng_ok R \<Longrightarrow> rng_sample R n r = Ok (x, r') \<Longrightarrow> x < n"
  and rng_ok_sample_total: "rng_ok R \<Longrightarrow> 0 < n \<Longrightarrow> \<exists>x r'. rng_sample R n r = Ok (x, r')"
  unfolding rng_ok_def is_ok_iff split_paired_Ex by blast+

lemma get_free_entries_spec:
  assumes "rng_ok R" and "get_free_entries R num u = Ok (idx, u')"
  shows "0 < num" and "idx + num \<le> length (entry_state u)" and "idx < 512"
    and "window idx num \<inter> reserved u = {}" and "reserved u' = reserved u \<union> window idx num"
    and "length (entry_state u') = length (entry_state u)" and "rng u' = None \<longleftrightarrow> rng u = None"
proof -
  show num: "0 < num" using assms(2) by (auto simp: get_free_entries_def split: if_splits)
  with assms(2) obtain es where idx: "idx \<in> set (free_windows (entry_state u) num)"
    and es: "foldR (\<lambda>i es. if idx + i < length es then Ok (es[idx + i := True])
       else Panic (Explicit ''index out of bounds'')) [0..<num] (entry_state u) = Ok es"
    and u': "entry_state u' = es" "rng u' = None \<longleftrightarrow> rng u = None" and lt: "idx < 512"
    using assms(1)
    by (auto simp: get_free_entries_def res_simps Let_def rng_ok_choose
        split: option.splits prod.splits list.splits if_splits)
  from idx in_free_windows[OF num] show bound: "idx + num \<le> length (entry_state u)"
    and "window idx num \<inter> reserved u = {}"
    by (auto simp: reserved_def)
  from mark_window[OF es] bound show "reserved u' = reserved u \<union> window idx num"
    and "length (entry_state u') = length (entry_state u)"
    by (auto simp: reserved_def u' window_def)
  show "rng u' = None \<longleftrightarrow> rng u = None" and "idx < 512" by (fact u' lt)+
qed

lemma get_free_entries_total:
  assumes "rng_ok R" and "0 < num" and "length (entry_state u) = 512"
    and "idx + num \<le> 512" and "window idx num \<inter> reserved u = {}"
  shows "\<exists>i u'. get_free_entries R num u = Ok (i, u')"
proof -
  let ?free = "free_windows (entry_state u) num"
  have ne: "idx \<in> set ?free"
    using assms(3-5) by (auto simp: in_free_windows[OF assms(2)] reserved_def window_def)
  have found: "\<exists>i u'. get_free_entries R num u = Ok (i, u')"
    if "i \<in> set ?free" "rng u = None \<and> ?free = i # is \<or> rng u = Some r \<and> rng_choose R ?free r = (Some i, r')"
    for i "is" r r'
  proof -
    from that(1) assms(3) have i: "i + num \<le> length (entry_state u)" "i + num \<le> 512"
      by (auto simp: in_free_windows[OF assms(2)])
    from mark_window_total[OF i(1)] obtain es' where
      "foldR (\<lambda>j es. if i + j < length es then Ok (es[i + j := True])
         else Panic (Explicit ''index out of bounds'')) [0..<num] (entry_state u) = Ok es'" by blast
    with that(2) i(2) assms(2) show ?thesis
      by (auto simp: get_free_entries_def Let_def try_into_w_def)
  qed
  show ?thesis
  proof (cases "rng u")
    case None
    from ne obtain i "is" where "?free = i # is" by (cases ?free) auto
    with found[of i] None show ?thesis by auto
  next
    case (Some r)
    obtain i' r' where c: "rng_choose R ?free r = (i', r')" by (cases "rng_choose R ?free r")
    with assms(1) ne obtain i where "i' = Some i" "i \<in> set ?free"
      using rng_ok_choose rng_ok_choose_none by (cases i') fastforce+
    with found[of i _ r r'] c Some show ?thesis by auto
  qed
qed

context x86_64
begin

lemma page_of_p4_base: "i < 512 \<Longrightarrow> page_of_p4 X i = p4_base i"
  by (simp add: page_of_p4 p4_base_def)

lemma p4_index_p4_of: "p4_index X a = p4_of a"
  by (simp add: p4_index p4_of_def)

lemma p4_of_page: "p4_of (page_containing X a) = p4_of a"
  by (simp add: page_containing p4_of_def div_mult2_eq[symmetric, of _ 4096 "2 ^ 27", simplified])

lemma virt_add_base:
  "i < 512 \<Longrightarrow> k < 2 ^ 39 \<Longrightarrow> virt_add X (p4_base i) k = Ok (p4_base i + k)"
  using p4_base_canonical[of i 0] p4_base_canonical[of i k] by (simp add: virt_add)

lemma mark_range_exact:
  assumes "mark_range_as_used X a sz u = Ok u'" and "same_half a (a + sz - 1)" and "0 < sz"
    and "length (entry_state u) = 512"
  shows "reserved u' = reserved u \<union> p4_of ` span a sz"
    and "length (entry_state u') = 512" and "rng u' = rng u"
proof -
  from assms(2) have can: "canonical a" "canonical (a + sz - 1)" by (auto dest: same_half_canonical)
  from assms(1) can(1) obtain e e' where e: "virt_add X a sz = Ok e" and e': "virt_sub X e 1 = Ok e'"
    and u': "u' = fold mark_p4_index_as_used [p4_of a..<p4_of e' + 1] u"
    by (auto simp: mark_range_as_used_def res_simps Let_def virt_new p4_index_p4_of p4_of_page)
  from e can(1) have "canonical e" and se: "sign_extend (a + sz) = Some e"
    by (auto simp: virt_add split: option.splits dest: sign_extend_canonical)
  with e' assms(2,3) have "e' = a + sz - 1"
    by (auto simp: virt_sub same_half_def sign_extend_def split: option.splits if_splits)
  then show "reserved u' = reserved u \<union> p4_of ` span a sz"
    using assms(4) p4_of_less[of e'] by (auto simp: u' fold_mark p4_of_span[OF assms(2,3)])
  show "length (entry_state u') = 512" and "rng u' = rng u"
    using assms(4) by (simp_all add: u' fold_mark)
qed

lemma pow2_dvd_level_4:
  assumes "is_pow2 al" and "al \<le> 2 ^ 39"
  shows "al dvd 2 ^ 39"
proof -
  from assms(1) obtain k where k: "al = 2 ^ k" by (auto simp: is_pow2_def)
  with assms(2) have "(2 :: nat) ^ k \<le> 2 ^ 39" by (simp only:)
  then have "k \<le> 39" by (rule power_le_imp_le_exp[rotated]) simp
  then show ?thesis unfolding k by (rule le_imp_power_dvd)
qed

lemma level_4_dvd_base: "2 ^ 39 dvd p4_base i"
proof -
  have "p4_base i = 2 ^ 39 * (if i < 256 then i else i + (2 ^ 25 - 2 ^ 9))" by (simp add: p4_base_def)
  then show ?thesis by (simp only: dvd_triv_left)
qed

lemma get_free_address_cases:
  assumes "rng_ok R" and "get_free_address X R sz al u = Ok (addr, u')"
  obtains idx u1 offset where "is_pow2 al"
    and "get_free_entries R ((sz + (2 ^ 39 - 1)) div 2 ^ 39) u = Ok (idx, u1)"
    and "entry_state u' = entry_state u1"
    and "rng u1 = None \<and> offset = 0 \<or> rng u1 \<noteq> None \<and>
      (\<exists>k. offset = k * al \<and> k < (2 ^ 39 - sz mod 2 ^ 39) div al)"
    and "virt_add X (page_of_p4 X idx) offset = Ok addr"
proof -
  have D: "LEVEL_4_SIZE = 2 ^ 39" by (simp add: LEVEL_4_SIZE_def)
  from assms(2) obtain p where al: "is_pow2 al"
    and free: "get_free_entries R ((sz + (2 ^ 39 - 1)) div 2 ^ 39) u = Ok p"
    and rest: "bindR (case rng (snd p) of
         Some r \<Rightarrow> bindR (rng_sample R ((2 ^ 39 - sz mod 2 ^ 39) div al) r) (\<lambda>(k, r').
           bindR (mul_u64 k al) (\<lambda>offset. Ok (offset, (snd p)\<lparr>rng := Some r'\<rparr>)))
       | None \<Rightarrow> Ok (0, snd p)) (\<lambda>(offset, u).
       bindR (virt_add X (page_of_p4 X (fst p)) offset) (\<lambda>addr. Ok (addr, u))) = Ok (addr, u')"
    unfolding get_free_address_def Let_def D
    by (auto elim!: bindR_OkE simp: assertR_eq_Ok add_w_eq_Ok split_def)
  show thesis
  proof (cases "rng (snd p)")
    case None
    with rest that[OF al, of "fst p" "snd p" 0] free show thesis by (auto simp: res_simps)
  next
    case (Some r)
    with rest obtain k r' where k: "rng_sample R ((2 ^ 39 - sz mod 2 ^ 39) div al) r = Ok (k, r')"
      and "u' = (snd p)\<lparr>rng := Some r'\<rparr>" "virt_add X (page_of_p4 X (fst p)) (k * al) = Ok addr"
      by (auto simp: res_simps)
    with that[OF al, of "fst p" "snd p" "k * al"] rng_ok_sample[OF assms(1) k] free Some
    show thesis by auto
  qed
qed

lemma get_free_address_spec:
  assumes "rng_ok R" and "get_free_address X R sz al u = Ok (addr, u')"
    and len: "length (entry_state u) = 512"
  obtains idx num where "num = (sz + (2 ^ 39 - 1)) div 2 ^ 39" and "0 < num" and "idx + num \<le> 512"
    and "window idx num \<inter> reserved u = {}" and "reserved u' = reserved u \<union> window idx num"
    and "length (entry_state u') = 512" and "p4_base idx \<le> addr"
    and "rng u = None \<or> sz mod 2 ^ 39 \<noteq> 0 \<Longrightarrow> addr + sz \<le> p4_base idx + num * 2 ^ 39"
    and "al \<le> 2 ^ 39 \<Longrightarrow> al dvd addr"
proof -
  let ?num = "(sz + (2 ^ 39 - 1)) div 2 ^ 39"
  from get_free_address_cases[OF assms(1,2)] obtain idx u1 offset where al: "is_pow2 al"
    and free: "get_free_entries R ?num u = Ok (idx, u1)"
    and u': "entry_state u' = entry_state u1"
    and offset: "rng u1 = None \<and> offset = 0 \<or> rng u1 \<noteq> None \<and>
      (\<exists>k. offset = k * al \<and> k < (2 ^ 39 - sz mod 2 ^ 39) div al)"
    and addr: "virt_add X (page_of_p4 X idx) offset = Ok addr" .
  note spec = get_free_entries_spec[OF assms(1) free]
  have pos: "0 < al" by (rule is_pow2_pos[OF al])
  have le: "offset + sz mod 2 ^ 39 < 2 ^ 39"
  proof (cases "rng u1 = None \<and> offset = 0")
    case False
    with offset obtain k where k: "offset = k * al" "k < (2 ^ 39 - sz mod 2 ^ 39) div al" by auto
    then have "k * al < (2 ^ 39 - sz mod 2 ^ 39) div al * al" using pos by simp
    also have "\<dots> \<le> 2 ^ 39 - sz mod 2 ^ 39" by (rule div_times_less_eq_dividend)
    finally show ?thesis using k(1) by simp
  qed simp
  then have "offset < 2 ^ 39" by simp
  with addr spec(3) have a: "addr = p4_base idx + offset"
    by (simp add: page_of_p4_base virt_add_base)
  have "addr + sz \<le> p4_base idx + ?num * 2 ^ 39" if "rng u = None \<or> sz mod 2 ^ 39 \<noteq> 0"
  proof (cases "sz mod 2 ^ 39 = 0")
    case True
    with that spec(7) offset le have "offset = 0" by auto
    with a show ?thesis by simp
  next
    case False
    then have "?num = sz div 2 ^ 39 + 1" by (intro ceiling_div) simp_all
    then have "?num * 2 ^ 39 = sz - sz mod 2 ^ 39 + 2 ^ 39" by (simp add: minus_mod_eq_div_mult)
    with le a show ?thesis by simp
  qed
  moreover have "al dvd addr" if "al \<le> 2 ^ 39"
  proof -
    have "al dvd p4_base idx" using pow2_dvd_level_4[OF al that] level_4_dvd_base by (metis dvd_trans)
    with offset a show ?thesis by auto
  qed
  ultimately show thesis
    using that[OF refl spec(1)] spec(2,4-6) len u' a by (auto simp: reserved_def)
qed

lemma window_span:
  assumes "p4_base idx \<le> addr" and "addr + sz \<le> p4_base idx + num * 2 ^ 39" and "idx + num \<le> 512"
    and "same_half addr (addr + sz - 1)" and "0 < sz"
  shows "p4_of ` span addr sz \<subseteq> window idx num"
proof -
  have idx: "idx < 512" using assms(1,2,3,5) by (cases num) auto
  have "same_half (p4_base idx) (addr + sz - 1)"
    using assms by (auto simp: same_half_def p4_base_def split: if_splits)
  then obtain K where K: "\<And>c. p4_base idx \<le> c \<Longrightarrow> c \<le> addr + sz - 1 \<Longrightarrow> p4_of c + K = c div 2 ^ 39"
    using p4_offset by blast
  have base: "idx + K = p4_base idx div 2 ^ 39"
    using K[of "p4_base idx"] p4_of_base[OF idx, of 0] assms(1,5) by simp
  show ?thesis
  proof
    fix i assume "i \<in> p4_of ` span addr sz"
    then obtain c where c: "i = p4_of c" "addr \<le> c" "c < addr + sz" by (auto simp: span_def)
    then have "i + K = c div 2 ^ 39" using K[of c] assms(1) by simp
    moreover have "p4_base idx div 2 ^ 39 \<le> c div 2 ^ 39" using assms(1) c(2) by (intro div_le_mono) simp
    moreover have "c div 2 ^ 39 < p4_base idx div 2 ^ 39 + num"
      using c(3) assms(2) level_4_dvd_base[of idx] by (auto elim!: dvdE)
    ultimately show "i \<in> window idx num" using base by (simp add: window_def)
  qed
qed

lemma get_free_address_fresh:
  assumes "rng_ok R" and "get_free_address X R sz al u = Ok (addr, u')"
    and "length (entry_state u) = 512" and "0 < sz" and "rng u = None \<or> sz mod 2 ^ 39 \<noteq> 0"
    and "same_half addr (addr + sz - 1)"
  shows "p4_of ` span addr sz \<inter> reserved u = {}" and "p4_of ` span addr sz \<subseteq> reserved u'"
proof -
  from assms(1-3) obtain idx num where "idx + num \<le> 512" "window idx num \<inter> reserved u = {}"
    "reserved u' = reserved u \<union> window idx num" "p4_base idx \<le> addr"
    "addr + sz \<le> p4_base idx + num * 2 ^ 39"
    by (rule get_free_address_spec) (use assms(5) in blast)
  with window_span[of idx addr sz num] assms(4,6)
  show "p4_of ` span addr sz \<inter> reserved u = {}" and "p4_of ` span addr sz \<subseteq> reserved u'" by auto
qed

lemma extends_mark: "extends u (fold mark_p4_index_as_used is u)"
  by (simp add: extends_def fold_mark)

lemma extends_mark1: "extends u (mark_p4_index_as_used i u)"
  by (auto simp: extends_def reserved_mark)

lemma extends_refl: "extends u u"
  by (simp add: extends_def)

lemma extends_trans: "extends u v \<Longrightarrow> extends v w \<Longrightarrow> extends u w"
  by (auto simp: extends_def)

lemma extends_mark_range: "mark_range_as_used X a sz u = Ok u' \<Longrightarrow> extends u u'"
  by (auto simp: mark_range_as_used_def res_simps Let_def extends_mark)

lemmas extends_steps = extends_mark extends_mark1 extends_refl extends_mark_range

lemma extends_parts:
  "mark_physical_memory X m c u = Ok u' \<Longrightarrow> extends u u'"
  "mark_recursive X c u = Ok u' \<Longrightarrow> extends u u'"
  "mark_kernel_stack X c u = Ok u' \<Longrightarrow> extends u u'"
  "mark_boot_info X L n c u = Ok u' \<Longrightarrow> extends u u'"
  "mark_framebuffer X fb c u = Ok u' \<Longrightarrow> extends u u'"
  "mark_before_dynamic_range X c u = Ok u' \<Longrightarrow> extends u u'"
  "mark_after_dynamic_range X c u = Ok u' \<Longrightarrow> extends u u'"
  by (auto simp: mark_physical_memory_def mark_recursive_def mark_kernel_stack_def mark_boot_info_def
      mark_framebuffer_def mark_before_dynamic_range_def mark_after_dynamic_range_def res_simps
      intro: extends_steps split: option.splits mapping.splits simp del: upt_Suc)

text \<open>The states \<open>new\<close> goes through, each extending the one before.\<close>

lemma used_entries_new_steps:
  assumes "used_entries_new X L r m n fb c = Ok u"
  obtains u0 u1 u2 u3 u4 u5 u6 where
    "u0 = \<lparr>entry_state = (replicate 512 False)[0 := True],
           rng = (if aslr (mappings c) then Some r else None)\<rparr>"
    "mark_physical_memory X m c u0 = Ok u1" "mark_recursive X c u1 = Ok u2"
    "mark_kernel_stack X c u2 = Ok u3" "mark_boot_info X L n c u3 = Ok u4"
    "mark_framebuffer X fb c u4 = Ok u5" "mark_before_dynamic_range X c u5 = Ok u6"
    "mark_after_dynamic_range X c u6 = Ok u"
    "extends u0 u" "extends u1 u" "extends u2 u" "extends u3 u" "extends u5 u" "extends u6 u"
    "length (entry_state u0) = 512" "length (entry_state u2) = 512" "length (entry_state u4) = 512"
    "length (entry_state u5) = 512" "length (entry_state u6) = 512"
proof -
  define u0 :: "'a used_level_4_entries" where "u0 = \<lparr>entry_state = (replicate 512 False)[0 := True],
           rng = (if aslr (mappings c) then Some r else None)\<rparr>"
  from assms obtain u1 u2 u3 u4 u5 u6 where steps:
    "mark_physical_memory X m c u0 = Ok u1" "mark_recursive X c u1 = Ok u2"
    "mark_kernel_stack X c u2 = Ok u3" "mark_boot_info X L n c u3 = Ok u4"
    "mark_framebuffer X fb c u4 = Ok u5" "mark_before_dynamic_range X c u5 = Ok u6"
    "mark_after_dynamic_range X c u6 = Ok u"
    unfolding used_entries_new_def Let_def u0_def[symmetric] by (elim bindR_OkE) blast
  note e = extends_parts(1)[OF steps(1)] extends_parts(2)[OF steps(2)] extends_parts(3)[OF steps(3)]
    extends_parts(4)[OF steps(4)] extends_parts(5)[OF steps(5)] extends_parts(6)[OF steps(6)]
    extends_parts(7)[OF steps(7)]
  have "length (entry_state u0) = 512" by (simp add: u0_def)
  with e show thesis
    by (intro that[OF u0_def steps]) (simp_all add: extends_def, blast+)
qed

lemma used_entries_new_basic:
  assumes "used_entries_new X L r m n fb c = Ok u"
  shows "length (entry_state u) = 512" and "0 \<in> reserved u"
proof -
  from assms obtain u0 where u0: "u0 = \<lparr>entry_state = (replicate 512 False)[0 := True],
       rng = (if aslr (mappings c) then Some r else None)\<rparr>" "extends u0 u"
    by (rule used_entries_new_steps) blast
  then have "0 \<in> reserved u0" "length (entry_state u0) = 512"
    by (simp_all add: reserved_def nth_update_True)
  with u0(2) show "length (entry_state u) = 512" and "0 \<in> reserved u"
    by (auto simp: extends_def)
qed

lemma fixed_range_reserved:
  assumes "used_entries_new X L r m n fb c = Ok u" and "(a, sz) \<in> fixed_ranges L m n fb c"
    and half: "same_half a (a + sz - 1)" and pos: "0 < sz"
  shows "p4_of ` span a sz \<subseteq> reserved u"
proof -
  from assms(1) obtain u0 u1 u2 u3 u4 u5 where steps:
    "mark_physical_memory X m c u0 = Ok u1" "mark_kernel_stack X c u2 = Ok u3"
    "mark_framebuffer X fb c u4 = Ok u5" "extends u1 u" "extends u3 u" "extends u5 u"
    "length (entry_state u0) = 512" "length (entry_state u2) = 512" "length (entry_state u4) = 512"
    by (rule used_entries_new_steps) blast
  from assms(2) have "mark_range_as_used X a sz u0 = Ok u1 \<or> mark_range_as_used X a sz u2 = Ok u3 \<or>
      mark_range_as_used X a sz u4 = Ok u5"
    using steps(1-3)
    by (auto simp: fixed_ranges_def mark_physical_memory_def mark_kernel_stack_def mark_framebuffer_def)
  with mark_range_exact(1)[OF _ half pos] steps show ?thesis
    by (auto simp: extends_def)
qed

lemma p4_of_mono:
  assumes "canonical a" and "canonical b" and "a \<le> b"
  shows "p4_of a \<le> p4_of b"
proof (cases "same_half a b")
  case True
  from p4_offset[OF this] obtain K where K: "\<And>c. a \<le> c \<Longrightarrow> c \<le> b \<Longrightarrow> p4_of c + K = c div 2 ^ 39"
    by blast
  have "a div 2 ^ 39 \<le> b div 2 ^ 39" using assms(3) by (rule div_le_mono)
  with K[of a] K[of b] assms(3) show ?thesis by simp
next
  case False
  with assms have low: "a < 2 ^ 47" and high: "2 ^ 64 - 2 ^ 47 \<le> b" "b < 2 ^ 64"
    by (auto simp: canonical_def same_half_def)
  have "p4_of a < 256" using low by (simp add: p4_of_def)
  moreover have "256 \<le> p4_of b"
  proof -
    have "p4_of (2 ^ 64 - 2 ^ 47) + K = (2 ^ 64 - 2 ^ 47) div 2 ^ 39 \<Longrightarrow> p4_of b + K = b div 2 ^ 39 \<Longrightarrow>
        256 \<le> p4_of b" for K
      using high by (simp add: p4_of_def)
    moreover have "same_half (2 ^ 64 - 2 ^ 47) b" using high by (simp add: same_half_def)
    ultimately show ?thesis using p4_offset[of "2 ^ 64 - 2 ^ 47" b] high by (metis le_refl)
  qed
  ultimately show ?thesis by simp
qed

lemma p4_of_page_end: "4096 dvd q \<Longrightarrow> p4_of (q + 4095) = p4_of q"
  using p4_of_page[of "q + 4095"] by (auto simp: page_containing mult.commute elim!: dvdE)

lemma below_dynamic_range_reserved:
  assumes "used_entries_new X L r m n fb c = Ok u"
    and "dynamic_range_start (mappings c) = Some st" and "canonical (unat st)"
    and "canonical a" and "a < unat st div 4096 * 4096"
  shows "p4_of a \<in> reserved u"
proof -
  let ?s = "unat st div 4096 * 4096"
  from assms(1) obtain u5 u6 where step: "mark_before_dynamic_range X c u5 = Ok u6"
    and len: "length (entry_state u5) = 512" and ext: "extends u6 u"
    by (rule used_entries_new_steps) blast
  let ?q = "if ?s = 2 ^ 64 - 2 ^ 47 then 2 ^ 47 - 4096 else ?s - 4096"
  have "0 < ?s" using assms(5) by simp
  then have ge: "4096 \<le> ?s" by (cases "unat st div 4096") auto
  have "page_backward X ?s 1 = Some ?q"
    using page_backward[OF canonical_align_down[OF assms(3)]] ge by simp
  with step assms(2,3) have u6: "u6 = fold mark_p4_index_as_used [0..<p4_of ?q + 1] u5"
    by (simp add: mark_before_dynamic_range_def virt_new page_containing p4_index_p4_of)
  have q: "4096 dvd ?q" by simp
  have "canonical (?q + 4095)" "a \<le> ?q + 4095"
    using assms(3-5) ge by (auto simp: canonical_def)
  from p4_of_mono[OF assms(4) this] p4_of_page_end[OF q] have "p4_of a \<le> p4_of ?q" by simp
  then have "p4_of a \<in> reserved u6"
    using len p4_of_less[of a] by (auto simp: u6 fold_mark simp del: upt_Suc)
  with ext show ?thesis by (auto simp: extends_def)
qed

lemma above_dynamic_range_reserved:
  assumes "used_entries_new X L r m n fb c = Ok u"
    and "dynamic_range_end (mappings c) = Some e" and "canonical (unat e)"
    and "canonical a" and "unat e div 4096 * 4096 + 4096 \<le> a"
  shows "p4_of a \<in> reserved u"
proof -
  let ?e = "unat e div 4096 * 4096"
  from assms(1) obtain u6 where step: "mark_after_dynamic_range X c u6 = Ok u"
    and len: "length (entry_state u6) = 512"
    by (rule used_entries_new_steps) blast
  let ?q = "if ?e + 4096 = 2 ^ 47 then 2 ^ 64 - 2 ^ 47 else ?e + 4096"
  have a: "a < 2 ^ 64" using assms(4) by (auto simp: canonical_def)
  have e: "canonical ?e" by (rule canonical_align_down[OF assms(3)])
  have q: "sign_extend (?e + 4096) = Some ?q" and "?e + 4096 < 2 ^ 64"
    using e assms(5) a by (auto simp: canonical_def sign_extend_def)
  then have "page_forward X ?e 1 = Some ?q" using page_forward[OF e, of 1] by simp
  with step assms(2,3) have u: "u = fold mark_p4_index_as_used [p4_of ?q..<512] u6"
    by (simp add: mark_after_dynamic_range_def virt_new page_containing p4_index_p4_of)
  have "?q \<le> a" using assms(4,5) by (auto simp: canonical_def)
  from p4_of_mono[OF sign_extend_canonical[OF q] assms(4) this] have "p4_of ?q \<le> p4_of a" .
  then show ?thesis
    using len p4_of_less[of a] by (auto simp: u fold_mark)
qed

lemma mark_segments_extends: "mark_segments X segs vao u = Ok u' \<Longrightarrow> extends u u'"
  unfolding mark_segments_def
  by (erule foldR_preserves)
    (auto simp: extends_refl res_simps intro: extends_trans extends_mark_range)

lemma mark_segments_reserves:
  assumes "mark_segments X segs vao u = Ok u'" and "length (entry_state u) = 512"
    and "seg \<in> set segs" and "0 < ph_mem_size seg" and "vao_add vao (ph_virtual_addr seg) = Ok a"
    and half: "same_half a (a + ph_mem_size seg - 1)"
  shows "p4_of ` span a (ph_mem_size seg) \<subseteq> reserved u'"
proof -
  let ?f = "\<lambda>(segment :: program_header) u. bindR (vao_add vao (ph_virtual_addr segment)) (\<lambda>addr.
    mark_range_as_used X addr (ph_mem_size segment) u)"
  have step: "extends s s'" if "?f z s = Ok s'" for z s s'
    using that by (auto simp: res_simps intro: extends_mark_range)
  have "length (entry_state u') = 512 \<and>
    (seg \<in> set (filter (\<lambda>s. ph_mem_size s > 0) segs) \<longrightarrow> p4_of ` span a (ph_mem_size seg) \<subseteq> reserved u')"
  proof (rule foldR_invariant[OF assms(1)[unfolded mark_segments_def]])
    fix ys z zs s s'
    assume I: "length (entry_state s) = 512 \<and>
        (seg \<in> set ys \<longrightarrow> p4_of ` span a (ph_mem_size seg) \<subseteq> reserved s)"
      and f: "?f z s = Ok s'"
    have "p4_of ` span a (ph_mem_size seg) \<subseteq> reserved s'" if "z = seg"
      using f assms(5) mark_range_exact(1)[OF _ half assms(4), of s s'] I by (auto simp: that res_simps)
    with I step[OF f] show "length (entry_state s') = 512 \<and>
        (seg \<in> set (ys @ [z]) \<longrightarrow> p4_of ` span a (ph_mem_size seg) \<subseteq> reserved s')"
      by (auto simp: extends_def)
  qed (use assms(2) in simp)
  with assms(3,4) show ?thesis by simp
qed

lemma get_free_address_extends:
  assumes "rng_ok R" and "get_free_address X R sz al u = Ok (addr, u')"
    and "length (entry_state u) = 512"
  shows "extends u u'"
  by (rule get_free_address_spec[OF assms]) (use assms(3) in \<open>auto simp: extends_def\<close>)

lemma fresh_avoids_reserved:
  assumes "rng_ok R" and "get_free_address X R sz al u = Ok (addr, u')"
    and "length (entry_state u) = 512" and "0 < sz" and "rng u = None \<or> sz mod 2 ^ 39 \<noteq> 0"
    and "same_half addr (addr + sz - 1)" and "p4_of ` A \<subseteq> reserved u"
  shows "span addr sz \<inter> A = {}"
  using get_free_address_fresh(1)[OF assms(1-6)] assms(7) by blast

text \<open>A request of at most one entry never straddles the gap between the address-space halves.\<close>

lemma single_entry_half:
  assumes "rng_ok R" and "get_free_address X R sz al u = Ok (addr, u')"
    and "length (entry_state u) = 512" and "0 < sz" and "sz \<le> 2 ^ 39"
    and "rng u = None \<or> sz mod 2 ^ 39 \<noteq> 0"
  shows "same_half addr (addr + sz - 1)"
proof (rule get_free_address_spec[OF assms(1-3)])
  fix idx num
  assume num: "num = (sz + (2 ^ 39 - 1)) div 2 ^ 39" "idx + num \<le> 512" "p4_base idx \<le> addr"
    "rng u = None \<or> sz mod 2 ^ 39 \<noteq> 0 \<Longrightarrow> addr + sz \<le> p4_base idx + num * 2 ^ 39"
  have "num = 1" unfolding num(1) using assms(4,5) by (intro div_nat_eqI) simp_all
  with num(2) num(4)[OF assms(6)] have "idx \<le> 511" "addr + sz \<le> p4_base idx + 2 ^ 39"
    by simp_all
  then consider "addr + sz \<le> 2 ^ 47" | "2 ^ 64 - 2 ^ 47 \<le> addr" "addr + sz \<le> 2 ^ 64"
    using num(3) by (cases "idx < 256") (simp_all add: p4_base_def)
  then show ?thesis
    using assms(4) by cases (auto simp: same_half_def)
qed

lemma get_free_address_returns:
  assumes "rng_ok R" and "0 < sz" and "sz + (2 ^ 39 - 1) < 2 ^ 64" and "is_pow2 al"
    and "length (entry_state u) = 512" and "num = (sz + (2 ^ 39 - 1)) div 2 ^ 39"
    and "idx + num \<le> 512" and "window idx num \<inter> reserved u = {}"
    and "rng u \<noteq> None \<Longrightarrow> al \<le> 2 ^ 39 - sz mod 2 ^ 39"
  shows "\<exists>addr u'. get_free_address X R sz al u = Ok (addr, u')"
proof -
  have num: "0 < num" using assms(2,6) by (simp add: div_greater_zero_iff)
  from get_free_entries_total[OF assms(1) num assms(5,7,8)] obtain i u1
    where free: "get_free_entries R num u = Ok (i, u1)" by blast
  note spec = get_free_entries_spec[OF assms(1) free]
  have D: "LEVEL_4_SIZE = 2 ^ 39" by (simp add: LEVEL_4_SIZE_def)
  have pos: "0 < al" by (rule is_pow2_pos[OF assms(4)])
  show ?thesis
  proof (cases "rng u1")
    case None
    with free assms(3,4,6) virt_add_base[OF spec(3), of 0] spec(3) show ?thesis
      by (simp add: get_free_address_def D Let_def add_w_def page_of_p4_base)
  next
    case (Some r)
    let ?m = "(2 ^ 39 - sz mod 2 ^ 39) div al"
    from Some spec(7) assms(9) have le: "al \<le> 2 ^ 39 - sz mod 2 ^ 39" by auto
    with pos have "0 < ?m" by (simp add: div_greater_zero_iff)
    from rng_ok_sample_total[OF assms(1) this] obtain k r' where k: "rng_sample R ?m r = Ok (k, r')"
      by blast
    from rng_ok_sample[OF assms(1) k] pos have "k * al < ?m * al" by simp
    also have "\<dots> \<le> 2 ^ 39 - sz mod 2 ^ 39" by (rule div_times_less_eq_dividend)
    finally have off: "k * al < 2 ^ 39" by simp
    with free assms(3,4,6) virt_add_base[OF spec(3) off] spec(3) Some k show ?thesis
      by (simp add: get_free_address_def D Let_def add_w_def mul_w_def page_of_p4_base)
  qed
qed

end

lemma rng_ok_counter: "rng_ok counter_rng"
  by (auto simp: rng_ok_def counter_rng_def split: if_splits)

section \<open>Properties\<close>

text \<open>Marking a virtual range reserves exactly the level 4 entries of its addresses.\<close>

theorem mark_range_reserves_exactly:
  assumes "x86_64 X" and "mark_range_as_used X a sz u = Ok u'" and "same_half a (a + sz - 1)"
    and "0 < sz" and "length (entry_state u) = 512"
  shows "reserved u' = reserved u \<union> p4_of ` {c. a \<le> c \<and> c < a + sz}"
  using x86_64.mark_range_exact(1)[OF assms] by (simp add: span_def)

definition no_entries :: "nat used_level_4_entries" where
  "no_entries = \<lparr>entry_state = replicate 512 False, rng = None\<rparr>"

theorem mark_range_reserves_exactly_witness:
  "\<exists>u'. mark_range_as_used x86_ref 0x8000000000 0x2000 no_entries = Ok u' \<and>
     reserved u' = reserved no_entries \<union> p4_of ` {c. 0x8000000000 \<le> c \<and> c < 0x8000000000 + 0x2000}"
proof -
  obtain u' where "mark_range_as_used x86_ref 0x8000000000 0x2000 no_entries = Ok u'"
    by (simp add: mark_range_as_used_def x86_ref_def sign_extend_def)
  from mark_range_reserves_exactly[OF x86_ref_x86_64 this] this show ?thesis
    by (simp add: same_half_def no_entries_def)
qed

text \<open>C29. A dynamically chosen address range occupies only level 4 entries that were free, reserves
  all of them, and is aligned as requested.\<close>

theorem dynamic_address_fresh:
  assumes "x86_64 X" and "rng_ok R" and "get_free_address X R sz al u = Ok (addr, u')"
    and "length (entry_state u) = 512" and "0 < sz" and "rng u = None \<or> sz mod LEVEL_4_SIZE \<noteq> 0"
    and "same_half addr (addr + sz - 1)" and "al \<le> LEVEL_4_SIZE"
  shows "p4_of ` {c. addr \<le> c \<and> c < addr + sz} \<inter> reserved u = {} \<and>
    p4_of ` {c. addr \<le> c \<and> c < addr + sz} \<subseteq> reserved u' \<and> reserved u \<subseteq> reserved u' \<and> al dvd addr"
proof -
  have D: "LEVEL_4_SIZE = 2 ^ 39" by (simp add: LEVEL_4_SIZE_def)
  note fresh = x86_64.get_free_address_fresh[OF assms(1-5) assms(6)[unfolded D] assms(7)]
  have "al dvd addr" "extends u u'"
    using x86_64.get_free_address_spec[OF assms(1-4)] assms(8)
      x86_64.get_free_address_extends[OF assms(1-4)] by (metis D)+
  with fresh show ?thesis by (simp add: span_def extends_def)
qed

definition one_entry :: "nat used_level_4_entries" where
  "one_entry = \<lparr>entry_state = replicate 511 True @ [False], rng = Some 5\<rparr>"

lemma one_entry_reserved: "reserved one_entry = {i. i < 511}"
  by (auto simp: reserved_def one_entry_def nth_append)

lemma one_entry_returns:
  "\<exists>addr u'. get_free_address x86_ref counter_rng 0x5000 0x1000 one_entry = Ok (addr, u')"
  by (rule ref.get_free_address_returns[OF rng_ok_counter, where idx = 511])
    (auto simp: one_entry_reserved window_def, simp_all add: one_entry_def)

theorem dynamic_address_fresh_witness:
  "\<exists>addr u'. get_free_address x86_ref counter_rng 0x5000 0x1000 one_entry = Ok (addr, u') \<and>
     p4_of ` {c. addr \<le> c \<and> c < addr + 0x5000} \<inter> reserved one_entry = {} \<and> 0x1000 dvd addr"
proof -
  obtain addr u' where ok: "get_free_address x86_ref counter_rng 0x5000 0x1000 one_entry = Ok (addr, u')"
    using one_entry_returns by blast
  from dynamic_address_fresh[OF x86_ref_x86_64 rng_ok_counter ok _ _ _
      ref.single_entry_half[OF rng_ok_counter ok]] ok
  show ?thesis by (simp add: one_entry_def LEVEL_4_SIZE_def)
qed

text \<open>C31. Asking for an address succeeds whenever enough contiguous entries are free (and, with a
  random offset, the request leaves room for one aligned offset).\<close>

theorem dynamic_address_found:
  assumes "x86_64 X" and "rng_ok R" and "0 < sz" and "sz + (LEVEL_4_SIZE - 1) < 2 ^ 64"
    and "is_pow2 al" and "length (entry_state u) = 512"
    and "idx + (sz + (LEVEL_4_SIZE - 1)) div LEVEL_4_SIZE \<le> 512"
    and "window idx ((sz + (LEVEL_4_SIZE - 1)) div LEVEL_4_SIZE) \<inter> reserved u = {}"
    and "rng u \<noteq> None \<longrightarrow> al \<le> LEVEL_4_SIZE - sz mod LEVEL_4_SIZE"
  shows "\<exists>addr u'. get_free_address X R sz al u = Ok (addr, u')"
proof -
  have D: "LEVEL_4_SIZE = 2 ^ 39" by (simp add: LEVEL_4_SIZE_def)
  from assms(4,7-9) show ?thesis
    unfolding D by (intro x86_64.get_free_address_returns[OF assms(1-3) _ assms(5,6) refl]) auto
qed

theorem dynamic_address_found_witness:
  "\<exists>addr u'. get_free_address x86_ref counter_rng 0x200000 0x200000 one_entry = Ok (addr, u')"
proof -
  have "(0x200000 :: nat) \<in> set (map (\<lambda>k. 2 ^ k) [0..<64])"
    by (simp only: set_map set_upt image_iff) (rule bexI[of _ 21], simp_all)
  then have "is_pow2 0x200000" by (simp only: is_pow2_def)
  then show ?thesis
    by (intro dynamic_address_found[OF x86_ref_x86_64 rng_ok_counter, where idx = 511])
      (auto simp: one_entry_reserved window_def LEVEL_4_SIZE_def, simp_all add: one_entry_def)
qed


definition example_config :: bootloader_config where
  "example_config = (config_new_default \<lparr>version_major = 0, version_minor = 11, version_patch = 4,
     pre_release = False\<rparr>)\<lparr>mappings := mappings_new_default\<lparr>kernel_stack := FixedAddress 0x18000000000,
       dynamic_range_start := Some 0x10000000000, dynamic_range_end := Some 0xffffffffffff0000\<rparr>\<rparr>"

definition example_segment :: program_header where
  "example_segment = \<lparr>get_type = Ok Load, ph_offset = 0, ph_virtual_addr = 0x20000000000,
     ph_file_size = 0x1000, ph_mem_size = 0x2000, ph_align = 0x1000, is_execute = True, is_write = False,
     get_data = Ok OtherData, ph_sanity_check = Ok ()\<rparr>"

definition example_layouts :: type_layouts where
  "example_layouts = \<lparr>boot_info_layout = \<lparr>layout_size = 224, layout_align = 8\<rparr>,
     memory_region_layout = \<lparr>layout_size = 24, layout_align = 8\<rparr>\<rparr>"

lemma example_new:
  obtains u where "used_entries_new x86_ref example_layouts (0 :: nat) 0x100000000 3 None example_config = Ok u"
    and "length (entry_state u) = 512" and "rng u = None" and "reserved u = {0, 1, 3, 511}"
proof -
  define u0 :: "nat used_level_4_entries"
    where "u0 = \<lparr>entry_state = (replicate 512 False)[0 := True], rng = None\<rparr>"
  let ?u = "fold mark_p4_index_as_used [3, 0, 1, 511] u0"
  have "used_entries_new x86_ref example_layouts (0 :: nat) 0x100000000 3 None example_config = Ok ?u"
    by (simp add: used_entries_new_def example_config_def config_new_default_def mappings_new_default_def
        mapping_new_default_def mark_physical_memory_def mark_recursive_def mark_kernel_stack_def
        mark_boot_info_def mark_framebuffer_def mark_before_dynamic_range_def
        mark_after_dynamic_range_def mark_range_as_used_def x86_ref_def sign_extend_def u0_def)
  moreover have u0: "length (entry_state u0) = 512" "rng u0 = None" by (simp_all add: u0_def)
  moreover have "reserved u0 = {0}"
    by (auto simp: reserved_def u0_def nth_update_True)
  then have "reserved ?u = {0, 1, 3, 511}"
    unfolding fold_mark[THEN conjunct2, THEN conjunct2] u0 by auto
  ultimately show thesis
    by (intro that[of ?u]) (simp_all only: fold_mark)
qed




section \<open>Observations\<close>

text \<open>
  With a random offset and a size that is a whole number of level 4 entries, the range can
  leave the entries that were reserved for it: the offset is drawn below the size of one
  entry instead of being zero.
\<close>

lemma random_offset_leaves_window:
  assumes "x86_64 X" and "get_free_entries R n u = Ok (idx, u1)" and "0 < n" and "n < 2 ^ 24"
    and "idx < 512" and "is_pow2 al" and "rng u1 = Some r"
    and "rng_sample R (LEVEL_4_SIZE div al) r = Ok (k, r')" and "0 < k" and "k * al < LEVEL_4_SIZE"
  shows "\<exists>u'. get_free_address X R (n * LEVEL_4_SIZE) al u = Ok (p4_base idx + k * al, u') \<and>
    p4_base idx + n * LEVEL_4_SIZE < p4_base idx + k * al + n * LEVEL_4_SIZE"
proof -
  have D: "LEVEL_4_SIZE = 2 ^ 39" by (simp add: LEVEL_4_SIZE_def)
  have n: "(n * 2 ^ 39 + (2 ^ 39 - 1)) div 2 ^ 39 = n" by simp
  have "virt_add X (p4_base idx) (k * al) = Ok (p4_base idx + k * al)"
    using x86_64.virt_add_base[OF assms(1,5)] assms(10) by (simp add: D)
  with assms x86_64.page_of_p4_base[OF assms(1,5)] is_pow2_pos[OF assms(6)] show ?thesis
    by (simp add: get_free_address_def D Let_def add_w_def mul_w_def n)
qed

end
