(* ===== verification/Page_Tables.thy ===== *)
theory Page_Tables
  imports Memory_Regions Physical_Memory
begin

text \<open>
  Page tables as the bootloader uses them.  Mapping, translating and unmapping 4 KiB pages
  are operations of the \<^verbatim>\<open>x86_64\<close> crate (the traits \<open>Mapper\<close> and \<open>Translate\<close>, not under
  \<^verbatim>\<open>src/\<close>): the record \<open>mapper\<close> holds them, and the locale \<open>page_mapper\<close> states what the
  crate documents about them, over any frame allocator that keeps the contract
  \<open>frame_source\<close>.  \<open>table_mapper\<close> is a four-level page table that allocates its
  intermediate tables from the allocator; the locale is interpreted on it together with the
  bootloader's own allocator.
\<close>

section \<open>Definitions\<close>

subsection \<open>The interface\<close>

text \<open>The page table flags the bootloader uses; \<open>COPIED\<close> is \<open>BIT_9\<close>.\<close>

datatype flag = PRESENT | WRITABLE | NO_EXECUTE | COPIED

datatype mapped_frame = Size4KiB nat | Size2MiB nat | Size1GiB nat

datatype translate_result =
    Mapped mapped_frame nat "flag set"
  | NotMapped
  | InvalidFrameAddress nat

type_synonym 'fa frame_alloc = "'fa \<Rightarrow> (nat option \<times> 'fa) res"

record ('pt, 'fa) mapper =
  map_to :: "'fa frame_alloc \<Rightarrow> nat \<Rightarrow> nat \<Rightarrow> flag set \<Rightarrow> 'pt \<Rightarrow> 'fa \<Rightarrow> ('pt \<times> 'fa) res"
  unmap :: "nat \<Rightarrow> 'pt \<Rightarrow> 'pt option"
  update_flags :: "nat \<Rightarrow> flag set \<Rightarrow> 'pt \<Rightarrow> 'pt option"
  translate :: "nat \<Rightarrow> 'pt \<Rightarrow> translate_result"
  translate_page :: "nat \<Rightarrow> 'pt \<Rightarrow> nat option"

subsection \<open>A four-level page table\<close>

text \<open>
  The pages of 4 KiB and of 2 MiB that are mapped, the intermediate tables that exist (level 3, 2
  and 1 tables are named by the address bits that lead to them), and the level 4 entries that
  were written directly.
\<close>

record page_table_state =
  entries :: "nat \<rightharpoonup> nat \<times> flag set"
  tables :: "(nat \<times> nat) list"
  huge :: "nat \<rightharpoonup> nat \<times> flag set"
  level_4 :: "nat \<rightharpoonup> nat \<times> flag set"

definition ensure_table ::
    "'fa frame_alloc \<Rightarrow> nat \<times> nat \<Rightarrow> page_table_state \<times> 'fa \<Rightarrow> (page_table_state \<times> 'fa) res" where
  "ensure_table alloc t s =
     (if t \<in> set (tables (fst s)) then Ok s
      else bindR (alloc (snd s)) (\<lambda>(frame, fa).
        case frame of
          None \<Rightarrow> Err ''FrameAllocationFailed''
        | Some f \<Rightarrow> Ok ((fst s)\<lparr>tables := t # tables (fst s)\<rparr>, fa)))"

definition table_map_to ::
    "'fa frame_alloc \<Rightarrow> nat \<Rightarrow> nat \<Rightarrow> flag set \<Rightarrow> page_table_state \<Rightarrow> 'fa \<Rightarrow> (page_table_state \<times> 'fa) res" where
  "table_map_to alloc page frame flags pt fa =
     bindR (foldR (ensure_table alloc)
       [(3, page div 2 ^ 39), (2, page div 2 ^ 30), (1, page div 2 ^ 21)] (pt, fa)) (\<lambda>(pt, fa).
     case entries pt page of
       Some _ \<Rightarrow> Err ''PageAlreadyMapped''
     | None \<Rightarrow> Ok (pt\<lparr>entries := (entries pt)(page \<mapsto> (frame, flags))\<rparr>, fa))"

definition table_mapper :: "(page_table_state, 'fa) mapper" where
  "table_mapper = \<lparr>
     map_to = table_map_to,
     unmap = (\<lambda>page pt. case entries pt page of
         None \<Rightarrow> None
       | Some _ \<Rightarrow> Some (pt\<lparr>entries := (entries pt)(page := None)\<rparr>)),
     update_flags = (\<lambda>page flags pt. case entries pt page of
         None \<Rightarrow> None
       | Some (f, _) \<Rightarrow> Some (pt\<lparr>entries := (entries pt)(page \<mapsto> (f, flags))\<rparr>)),
     translate = (\<lambda>addr pt. case entries pt (addr div 4096 * 4096) of
         None \<Rightarrow> NotMapped
       | Some (f, flags) \<Rightarrow> Mapped (Size4KiB f) (addr mod 4096) flags),
     translate_page = (\<lambda>page pt. map_option fst (entries pt page))\<rparr>"

section \<open>The contract of a page table mapper\<close>

text \<open>\<open>view\<close> reads a page table as a map from its 4 KiB pages to frames and flags.\<close>

locale page_mapper = frame_source alloc inv free
  for alloc :: "'fa frame_alloc" and inv :: "'fa \<Rightarrow> bool" and free :: "'fa \<Rightarrow> nat set" +
  fixes M :: "('pt, 'fa) mapper"
    and view :: "'pt \<Rightarrow> nat \<rightharpoonup> nat \<times> flag set"
  assumes map_to_ok: "inv fa \<Longrightarrow> map_to M alloc p f fl pt fa = Ok (pt', fa') \<Longrightarrow>
      view pt p = None \<and> view pt' = (view pt)(p \<mapsto> (f, fl)) \<and> inv fa' \<and> free fa' \<subseteq> free fa"
    and unmap_view: "unmap M p pt = Some pt' \<Longrightarrow> view pt p \<noteq> None \<and> view pt' = (view pt)(p := None)"
    and unmap_total: "view pt p \<noteq> None \<Longrightarrow> unmap M p pt \<noteq> None"
    and update_flags_view: "update_flags M p fl pt = Some pt' \<Longrightarrow>
      \<exists>f fl0. view pt p = Some (f, fl0) \<and> view pt' = (view pt)(p \<mapsto> (f, fl))"
    and update_flags_total: "view pt p \<noteq> None \<Longrightarrow> update_flags M p fl pt \<noteq> None"
    and translate_view: "4096 dvd p \<Longrightarrow> translate M p pt = Mapped (Size4KiB f) off fl \<longleftrightarrow>
      view pt p = Some (f, fl) \<and> off = 0"
    and translate_page_view: "translate_page M p pt = map_option fst (view pt p)"
begin

lemma translate_mapped: "4096 dvd p \<Longrightarrow> view pt p = Some (f, fl) \<Longrightarrow> translate M p pt = Mapped (Size4KiB f) 0 fl"
  by (simp add: translate_view)

end

section \<open>The four-level page table keeps the contract\<close>

context frame_source
begin

lemma ensure_table_keeps:
  assumes "ensure_table alloc t s = Ok s'" and "inv (snd s)"
  shows "entries (fst s') = entries (fst s) \<and> inv (snd s') \<and> free (snd s') \<subseteq> free (snd s)"
  using assms alloc_some[OF assms(2)] alloc_inv[OF assms(2)]
  by (fastforce simp: ensure_table_def res_simps split: if_splits option.splits)

lemma ensure_tables_keep:
  assumes "foldR (ensure_table alloc) ts s = Ok s'" and "inv (snd s)"
  shows "entries (fst s') = entries (fst s) \<and> inv (snd s') \<and> free (snd s') \<subseteq> free (snd s)"
  using assms(1)
proof (rule foldR_preserves)
  fix z t t'
  assume "entries (fst t) = entries (fst s) \<and> inv (snd t) \<and> free (snd t) \<subseteq> free (snd s)"
    and "ensure_table alloc z t = Ok t'"
  with ensure_table_keeps[of z t t']
  show "entries (fst t') = entries (fst s) \<and> inv (snd t') \<and> free (snd t') \<subseteq> free (snd s)" by auto
qed (use assms(2) in simp)

lemma table_mapper_contract: "page_mapper alloc inv free table_mapper entries"
proof
  fix fa p f fl pt pt' fa'
  assume inv: "inv fa" and ok: "map_to table_mapper alloc p f fl pt fa = Ok (pt', fa')"
  then obtain s where s: "foldR (ensure_table alloc)
      [(3, p div 2 ^ 39), (2, p div 2 ^ 30), (1, p div 2 ^ 21)] (pt, fa) = Ok s"
    and rest: "(case entries (fst s) p of Some _ \<Rightarrow> Err ''PageAlreadyMapped''
      | None \<Rightarrow> Ok ((fst s)\<lparr>entries := (entries (fst s))(p \<mapsto> (f, fl))\<rparr>, snd s)) = Ok (pt', fa')"
    by (auto simp: table_mapper_def table_map_to_def split_def simp del: foldR.simps elim!: bindR_OkE)
  from ensure_tables_keep[OF s] inv rest
  show "entries pt p = None \<and> entries pt' = (entries pt)(p \<mapsto> (f, fl)) \<and> inv fa' \<and> free fa' \<subseteq> free fa"
    by (auto split: option.splits)
qed (auto simp: table_mapper_def split: option.splits)

end

sublocale memory_region_impl \<subseteq> tables: page_mapper "allocate_frame X T" "allocator_inv T"
    "free_frames T" table_mapper entries
  by (rule legacy.table_mapper_contract)

end
