(* ===== verification/Load_Kernel.thy ===== *)
theory Load_Kernel
  imports Level_4_Entries Page_Tables
begin

text \<open>
  The kernel loader (\<^verbatim>\<open>src/common/src/load_kernel.rs\<close>): it maps the segments of the ELF file
  into the kernel's page table, zeroes the memory beyond the file's data, applies the
  relocations, protects the relocated read-only data and computes the entry point.  \<open>Inner\<close>
  is a state record; the pages and physical memory it changes are explicit in it.
  \<open>X\<close> is the \<^verbatim>\<open>x86_64\<close> crate's address arithmetic, \<open>M\<close> its page table mapper, \<open>alloc\<close> the
  frame allocator, \<open>D\<close> the decoder of a relocation entry (\<open>xmas_elf\<close>'s \<open>Rela<u64>\<close>).
  Logging is not modelled.
\<close>

section \<open>Definitions\<close>

definition PAGE_SIZE :: nat where
  "PAGE_SIZE = 4096"

record ('pt, 'fa) inner =
  kernel_offset :: nat
  vao :: virtual_address_offset
  page_table :: 'pt
  frame_allocator :: 'fa
  mem :: memory

record rela =
  rela_offset :: nat
  rela_symbol :: nat
  rela_type :: nat
  rela_addend :: nat

subsection \<open>Mapping the segments\<close>

text \<open>\<open>map_to\<close> with the state's page table and allocator; its flush object is ignored.\<close>

definition map_page ::
    "('pt, 'fa) mapper \<Rightarrow> 'fa frame_alloc \<Rightarrow> nat \<Rightarrow> nat \<Rightarrow> flag set \<Rightarrow> ('pt, 'fa) inner \<Rightarrow>
     ('pt, 'fa) inner res" where
  "map_page M alloc page frame flags i =
     bindR (map_to M alloc page frame flags (page_table i) (frame_allocator i)) (\<lambda>(pt, fa).
       Ok (i\<lparr>page_table := pt, frame_allocator := fa\<rparr>))"

definition alloc_frame ::
    "'fa frame_alloc \<Rightarrow> ('pt, 'fa) inner \<Rightarrow> (nat \<times> ('pt, 'fa) inner) res" where
  "alloc_frame alloc i =
     bindR (alloc (frame_allocator i)) (\<lambda>(frame, fa).
     bindR (expect_some ''called `Option::unwrap()` on a `None` value'' frame) (\<lambda>f.
       Ok (f, i\<lparr>frame_allocator := fa\<rparr>)))"

definition make_mut ::
    "('pt, 'fa) mapper \<Rightarrow> 'fa frame_alloc \<Rightarrow> nat \<Rightarrow> ('pt, 'fa) inner \<Rightarrow>
     (nat \<times> ('pt, 'fa) inner) res" where
  "make_mut M alloc page i =
     (case translate M page (page_table i) of
        NotMapped \<Rightarrow> Panic (Explicit ''page is not mapped'')
      | InvalidFrameAddress _ \<Rightarrow> Panic (Explicit ''internal error: entered unreachable code'')
      | Mapped (Size4KiB frame) _ flags \<Rightarrow>
          if COPIED \<in> flags then Ok (frame, i)
          else
            bindR (alloc_frame alloc i) (\<lambda>(new_frame, i).
            let i = i\<lparr>mem := copy_bytes (mem i) frame new_frame 4096\<rparr> in
            bindR (expect_some ''called `Result::unwrap()` on an `Err` value''
                     (unmap M page (page_table i))) (\<lambda>pt.
            bindR (expect_ok ''called `Result::unwrap()` on an `Err` value''
                     (map_page M alloc page new_frame (insert COPIED flags) (i\<lparr>page_table := pt\<rparr>))) (\<lambda>i.
              Ok (new_frame, i))))
      | Mapped _ _ _ \<Rightarrow> Panic (Explicit ''internal error: entered unreachable code''))"

definition segment_flags :: "program_header \<Rightarrow> flag set" where
  "segment_flags seg =
     {PRESENT} \<union> (if \<not> is_execute seg then {NO_EXECUTE} else {}) \<union> (if is_write seg then {WRITABLE} else {})"

text \<open>The page that is partly file data and partly zeroes gets a frame of its own.\<close>

definition zero_partial_page ::
    "x86 \<Rightarrow> ('pt, 'fa) mapper \<Rightarrow> 'fa frame_alloc \<Rightarrow> nat \<Rightarrow> nat \<Rightarrow> nat \<Rightarrow> ('pt, 'fa) inner \<Rightarrow>
     ('pt, 'fa) inner res" where
  "zero_partial_page X M alloc virt_start_addr fsize zero_start i =
     (let data_bytes_before_zero = zero_start mod 4096 in
      if data_bytes_before_zero \<noteq> 0 then
        bindR (virt_add X virt_start_addr fsize) (\<lambda>e.
        bindR (virt_sub X e 1) (\<lambda>last.
        let last_page = page_containing X last in
        bindR (make_mut M alloc last_page i) (\<lambda>(new_frame, i).
          Ok (i\<lparr>mem := fill_bytes (mem i) (new_frame + data_bytes_before_zero) 0
                         (4096 - data_bytes_before_zero)\<rparr>))))
      else Ok i)"

definition map_bss_page ::
    "('pt, 'fa) mapper \<Rightarrow> 'fa frame_alloc \<Rightarrow> flag set \<Rightarrow> nat \<Rightarrow> ('pt, 'fa) inner \<Rightarrow> ('pt, 'fa) inner res" where
  "map_bss_page M alloc flags page i =
     bindR (alloc_frame alloc i) (\<lambda>(frame, i).
     let i = i\<lparr>mem := fill_bytes (mem i) frame 0 4096\<rparr> in
     map_err ''Failed to map new frame for bss memory'' (map_page M alloc page frame flags i))"

definition handle_bss_section ::
    "x86 \<Rightarrow> ('pt, 'fa) mapper \<Rightarrow> 'fa frame_alloc \<Rightarrow> program_header \<Rightarrow> flag set \<Rightarrow> ('pt, 'fa) inner \<Rightarrow>
     ('pt, 'fa) inner res" where
  "handle_bss_section X M alloc seg flags i =
     bindR (vao_add (vao i) (ph_virtual_addr seg)) (\<lambda>addr.
     bindR (virt_new X addr) (\<lambda>virt_start_addr.
     bindR (virt_add X virt_start_addr (ph_file_size seg)) (\<lambda>zero_start.
     bindR (virt_add X virt_start_addr (ph_mem_size seg)) (\<lambda>zero_end.
     bindR (zero_partial_page X M alloc virt_start_addr (ph_file_size seg) zero_start i) (\<lambda>i.
     bindR (align_up X zero_start 4096) (\<lambda>up.
     bindR (virt_new X up) (\<lambda>start_addr.
     let start_page = page_containing X start_addr in
     bindR (virt_sub X zero_end 1) (\<lambda>last.
     let end_page = page_containing X last in
     foldR (map_bss_page M alloc flags) (page_range X start_page end_page) i))))))))"

definition map_segment_frame ::
    "x86 \<Rightarrow> ('pt, 'fa) mapper \<Rightarrow> 'fa frame_alloc \<Rightarrow> flag set \<Rightarrow> nat \<Rightarrow> nat \<Rightarrow> nat \<Rightarrow> ('pt, 'fa) inner \<Rightarrow>
     ('pt, 'fa) inner res" where
  "map_segment_frame X M alloc flags start_frame start_page frame i =
     bindR (frame_sub X frame start_frame) (\<lambda>offset.
     bindR (page_add X start_page offset) (\<lambda>page.
       map_err ''map_to failed'' (map_page M alloc page frame flags i)))"

definition handle_load_segment ::
    "x86 \<Rightarrow> ('pt, 'fa) mapper \<Rightarrow> 'fa frame_alloc \<Rightarrow> program_header \<Rightarrow> ('pt, 'fa) inner \<Rightarrow>
     ('pt, 'fa) inner res" where
  "handle_load_segment X M alloc seg i =
     bindR (phys_add X (kernel_offset i) (ph_offset seg)) (\<lambda>phys_start_addr.
     let start_frame = frame_containing X phys_start_addr in
     bindR (phys_add X phys_start_addr (ph_file_size seg)) (\<lambda>phys_end.
     bindR (phys_sub X phys_end 1) (\<lambda>phys_last.
     let end_frame = frame_containing X phys_last in
     bindR (vao_add (vao i) (ph_virtual_addr seg)) (\<lambda>addr.
     bindR (virt_new X addr) (\<lambda>virt_start_addr.
     let start_page = page_containing X virt_start_addr;
         flags = segment_flags seg
     in bindR (foldR (map_segment_frame X M alloc flags start_frame start_page)
                 (frame_range X start_frame end_frame) i) (\<lambda>i.
        if ph_mem_size seg > ph_file_size seg then handle_bss_section X M alloc seg flags i
        else Ok i))))))"

definition handle_tls_segment :: "program_header \<Rightarrow> ('pt, 'fa) inner \<Rightarrow> tls_template res" where
  "handle_tls_segment seg i =
     bindR (vao_add (vao i) (ph_virtual_addr seg)) (\<lambda>start.
       Ok \<lparr>start_addr = start, file_size = ph_file_size seg, mem_size = ph_mem_size seg\<rparr>)"

subsection \<open>Reading and writing the kernel's address space\<close>

text \<open>
  The part of a page that a copy of \<open>[addr, last]\<close> touches: the offset in the frame, the
  offset in the buffer and the number of bytes.
\<close>

definition copy_window :: "x86 \<Rightarrow> nat \<Rightarrow> nat \<Rightarrow> nat \<Rightarrow> (nat \<times> nat \<times> nat) res" where
  "copy_window X addr end_inclusive_addr page =
     bindR (virt_add X page 4095) (\<lambda>page_end_inclusive.
     let start_copy_address = max addr page;
         end_inclusive_copy_address = min end_inclusive_addr page_end_inclusive
     in bindR (sub_w start_copy_address page) (\<lambda>start_offset_in_frame.
        bindR (sub_w end_inclusive_copy_address page) (\<lambda>end_inclusive_offset_in_frame.
        bindR (sub_w end_inclusive_offset_in_frame start_offset_in_frame) (\<lambda>d.
        let copy_len = d + 1 in
        bindR (expect_some ''called `Option::unwrap()` on a `None` value''
                 (virt_steps X addr start_copy_address)) (\<lambda>start_offset_in_buf.
          Ok (start_offset_in_frame, start_offset_in_buf, copy_len))))))"

definition copy_from_page ::
    "x86 \<Rightarrow> ('pt, 'fa) mapper \<Rightarrow> nat \<Rightarrow> nat \<Rightarrow> ('pt, 'fa) inner \<Rightarrow> nat \<Rightarrow> u8 list \<Rightarrow> u8 list res" where
  "copy_from_page X M addr end_inclusive_addr i page buf =
     bindR (expect_some ''address is not mapped to the kernel's memory space''
              (translate_page M page (page_table i))) (\<lambda>frame.
     bindR (copy_window X addr end_inclusive_addr page) (\<lambda>(start_offset_in_frame, start_offset_in_buf, copy_len).
     bindR (phys_add X frame start_offset_in_frame) (\<lambda>start_phys_addr.
     let src = read_bytes (mem i) start_phys_addr copy_len in
     if start_offset_in_buf + copy_len \<le> length buf
     then Ok (take start_offset_in_buf buf @ src @ drop (start_offset_in_buf + copy_len) buf)
     else Panic (Explicit ''slice index out of range''))))"

definition copy_from ::
    "x86 \<Rightarrow> ('pt, 'fa) mapper \<Rightarrow> nat \<Rightarrow> u8 list \<Rightarrow> ('pt, 'fa) inner \<Rightarrow> u8 list res" where
  "copy_from X M addr buf i =
     bindR (sub_w (length buf) 1) (\<lambda>n.
     bindR (expect_some ''end address outside of the virtual address space'' (virt_forward X addr n))
       (\<lambda>end_inclusive_addr.
     foldR (copy_from_page X M addr end_inclusive_addr i)
       (page_range X (page_containing X addr) (page_containing X end_inclusive_addr)) buf))"

definition copy_to_page ::
    "x86 \<Rightarrow> ('pt, 'fa) mapper \<Rightarrow> 'fa frame_alloc \<Rightarrow> nat \<Rightarrow> nat \<Rightarrow> u8 list \<Rightarrow> nat \<Rightarrow> ('pt, 'fa) inner \<Rightarrow>
     ('pt, 'fa) inner res" where
  "copy_to_page X M alloc addr end_inclusive_addr buf page i =
     bindR (make_mut M alloc page i) (\<lambda>(frame, i).
     bindR (copy_window X addr end_inclusive_addr page) (\<lambda>(start_offset_in_frame, start_offset_in_buf, copy_len).
     bindR (phys_add X frame start_offset_in_frame) (\<lambda>start_phys_addr.
     bindR (slice_range buf start_offset_in_buf (start_offset_in_buf + copy_len)) (\<lambda>src.
       Ok (i\<lparr>mem := write_slice (mem i) start_phys_addr src\<rparr>)))))"

definition copy_to ::
    "x86 \<Rightarrow> ('pt, 'fa) mapper \<Rightarrow> 'fa frame_alloc \<Rightarrow> nat \<Rightarrow> u8 list \<Rightarrow> ('pt, 'fa) inner \<Rightarrow>
     ('pt, 'fa) inner res" where
  "copy_to X M alloc addr buf i =
     bindR (sub_w (length buf) 1) (\<lambda>n.
     bindR (expect_some ''the end address should be in the virtual address space'' (virt_forward X addr n))
       (\<lambda>end_inclusive_addr.
     foldR (copy_to_page X M alloc addr end_inclusive_addr buf)
       (page_range X (page_containing X addr) (page_containing X end_inclusive_addr)) i))"

subsection \<open>Relocations\<close>

text \<open>The loop over the dynamic section that finds \<open>Rela\<close>, \<open>RelaSize\<close> and \<open>RelaEnt\<close>.\<close>

definition scan_dynamic_entry ::
    "dynamic_entry \<Rightarrow> nat option \<times> nat option \<times> nat option \<Rightarrow>
     (nat option \<times> nat option \<times> nat option) res" where
  "scan_dynamic_entry rel = (\<lambda>(r, rela_size, rela_ent).
     bindR (get_tag rel) (\<lambda>tag.
     case tag of
       Rela \<Rightarrow> bindR (get_ptr rel) (\<lambda>ptr.
         if r \<noteq> None then Err ''Dynamic section contains more than one Rela entry''
         else Ok (Some ptr, rela_size, rela_ent))
     | RelaSize \<Rightarrow> bindR (get_val rel) (\<lambda>val.
         if rela_size \<noteq> None then Err ''Dynamic section contains more than one RelaSize entry''
         else Ok (r, Some val, rela_ent))
     | RelaEnt \<Rightarrow> bindR (get_val rel) (\<lambda>val.
         if rela_ent \<noteq> None then Err ''Dynamic section contains more than one RelaEnt entry''
         else Ok (r, rela_size, Some val))
     | OtherTag \<Rightarrow> Ok (r, rela_size, rela_ent)))"

fun check_is_in_load :: "program_header list \<Rightarrow> nat \<Rightarrow> unit res" where
  "check_is_in_load [] virt_offset = Err ''offset is not in load segment''"
| "check_is_in_load (h # hs) virt_offset =
     bindR (get_type h) (\<lambda>t.
       if t = Load \<and> ph_virtual_addr h \<le> virt_offset \<and> virt_offset - ph_virtual_addr h < ph_mem_size h
       then Ok () else check_is_in_load hs virt_offset)"

text \<open>\<open>D\<close> decodes the 24 bytes of a \<open>Rela<u64>\<close>.\<close>

definition read_relocation ::
    "x86 \<Rightarrow> ('pt, 'fa) mapper \<Rightarrow> (u8 list \<Rightarrow> rela) \<Rightarrow> nat \<Rightarrow> nat \<Rightarrow> ('pt, 'fa) inner \<Rightarrow> rela res" where
  "read_relocation X M D relocation_table idx i =
     bindR (mul_u64 24 idx) (\<lambda>o1.
     bindR (add_u64 relocation_table o1) (\<lambda>offset.
     bindR (vao_add (vao i) offset) (\<lambda>val.
     bindR (expect_some ''relocation table is outside the address space'' (virt_try_new X val)) (\<lambda>addr.
     bindR (copy_from X M addr (replicate 24 0) i) (\<lambda>buf.
       Ok (D buf))))))"

definition apply_relocation ::
    "x86 \<Rightarrow> ('pt, 'fa) mapper \<Rightarrow> 'fa frame_alloc \<Rightarrow> program_header list \<Rightarrow> rela \<Rightarrow> ('pt, 'fa) inner \<Rightarrow>
     ('pt, 'fa) inner res" where
  "apply_relocation X M alloc headers r i =
     bindR (assertR ''relocations using the symbol table are not supported'' (rela_symbol r = 0)) (\<lambda>_.
     if rela_type r = 8 then
       bindR (check_is_in_load headers (rela_offset r)) (\<lambda>_.
       bindR (vao_add (vao i) (rela_offset r)) (\<lambda>a.
       bindR (virt_new X a) (\<lambda>addr.
       bindR (vao_add (vao i) (rela_addend r)) (\<lambda>val.
       copy_to X M alloc addr (to_le_bytes 8 val) i))))
     else Panic (Explicit ''relocation type not supported''))"

definition handle_dynamic_segment ::
    "x86 \<Rightarrow> ('pt, 'fa) mapper \<Rightarrow> 'fa frame_alloc \<Rightarrow> (u8 list \<Rightarrow> rela) \<Rightarrow> program_header list \<Rightarrow>
     program_header \<Rightarrow> ('pt, 'fa) inner \<Rightarrow> ('pt, 'fa) inner res" where
  "handle_dynamic_segment X M alloc D headers seg i =
     bindR (get_data seg) (\<lambda>data.
     case data of
       OtherData \<Rightarrow> Panic (Explicit ''expected Dynamic64 segment'')
     | Dynamic64 data \<Rightarrow>
         bindR (foldR scan_dynamic_entry data (None, None, None)) (\<lambda>(r, rela_size, rela_ent).
         case r of
           None \<Rightarrow>
             if rela_size \<noteq> None \<or> rela_ent \<noteq> None
             then Err ''Rela entry is missing but RelaSize or RelaEnt have been provided''
             else Ok i
         | Some offset \<Rightarrow>
             bindR (ok_or ''RelaSize entry is missing'' rela_size) (\<lambda>total_size.
             bindR (ok_or ''RelaEnt entry is missing'' rela_ent) (\<lambda>entry_size.
             bindR (assertR ''unsupported entry size'' (entry_size = 24)) (\<lambda>_.
             foldR (\<lambda>idx i.
               bindR (read_relocation X M D offset idx i) (\<lambda>r.
                 apply_relocation X M alloc headers r i)) [0..<total_size div entry_size] i)))))"

subsection \<open>Flags\<close>

text \<open>The loop body shared by \<open>handle_relro_segment\<close> and \<open>remove_copied_flags\<close>.\<close>

definition drop_flag ::
    "('pt, 'fa) mapper \<Rightarrow> flag \<Rightarrow> nat \<Rightarrow> ('pt, 'fa) inner \<Rightarrow> ('pt, 'fa) inner res" where
  "drop_flag M fl page i =
     (case translate M page (page_table i) of
        Mapped _ _ flags \<Rightarrow>
          if fl \<in> flags then
            bindR (expect_some ''called `Result::unwrap()` on an `Err` value''
                     (update_flags M page (flags - {fl}) (page_table i))) (\<lambda>pt.
              Ok (i\<lparr>page_table := pt\<rparr>))
          else Ok i
      | _ \<Rightarrow> Panic (Explicit ''has the elf file not been mapped correctly?''))"

definition segment_pages :: "x86 \<Rightarrow> program_header \<Rightarrow> virtual_address_offset \<Rightarrow> nat list res" where
  "segment_pages X seg v =
     bindR (vao_add v (ph_virtual_addr seg)) (\<lambda>start.
     bindR (add_u64 start (ph_mem_size seg)) (\<lambda>end_addr.
     bindR (virt_new X start) (\<lambda>start.
     bindR (virt_new X end_addr) (\<lambda>end_addr.
     bindR (virt_sub X end_addr 1) (\<lambda>last.
       Ok (page_range X (page_containing X start) (page_containing X last)))))))"

definition handle_relro_segment ::
    "x86 \<Rightarrow> ('pt, 'fa) mapper \<Rightarrow> program_header \<Rightarrow> ('pt, 'fa) inner \<Rightarrow> ('pt, 'fa) inner res" where
  "handle_relro_segment X M seg i =
     bindR (segment_pages X seg (vao i)) (\<lambda>pages. foldR (drop_flag M WRITABLE) pages i)"

definition remove_copied_flags ::
    "x86 \<Rightarrow> ('pt, 'fa) mapper \<Rightarrow> program_header list \<Rightarrow> ('pt, 'fa) inner \<Rightarrow> ('pt, 'fa) inner res" where
  "remove_copied_flags X M headers i =
     foldR (\<lambda>h i. bindR (get_type h) (\<lambda>t.
       if t = Load then bindR (segment_pages X h (vao i)) (\<lambda>pages. foldR (drop_flag M COPIED) pages i)
       else Ok i)) headers i"

subsection \<open>The loader\<close>

definition load_segment ::
    "x86 \<Rightarrow> ('pt, 'fa) mapper \<Rightarrow> 'fa frame_alloc \<Rightarrow> program_header \<Rightarrow>
     tls_template option \<times> ('pt, 'fa) inner \<Rightarrow> (tls_template option \<times> ('pt, 'fa) inner) res" where
  "load_segment X M alloc h = (\<lambda>(tls, i).
     bindR (get_type h) (\<lambda>t.
     case t of
       Load \<Rightarrow> bindR (handle_load_segment X M alloc h i) (\<lambda>i. Ok (tls, i))
     | Tls \<Rightarrow>
         if tls = None then bindR (handle_tls_segment h i) (\<lambda>tpl. Ok (Some tpl, i))
         else Err ''multiple TLS segments not supported''
     | _ \<Rightarrow> Ok (tls, i)))"

definition load_segments ::
    "x86 \<Rightarrow> ('pt, 'fa) mapper \<Rightarrow> 'fa frame_alloc \<Rightarrow> (u8 list \<Rightarrow> rela) \<Rightarrow> program_header list \<Rightarrow>
     ('pt, 'fa) inner \<Rightarrow> (tls_template option \<times> ('pt, 'fa) inner) res" where
  "load_segments X M alloc D headers i =
     bindR (foldR (load_segment X M alloc) headers (None, i)) (\<lambda>(tls, i).
     bindR (foldR (\<lambda>h i. bindR (get_type h) (\<lambda>t.
              if t = DynamicSegment then handle_dynamic_segment X M alloc D headers h i else Ok i))
              headers i) (\<lambda>i.
     bindR (foldR (\<lambda>h i. bindR (get_type h) (\<lambda>t.
              if t = GnuRelro then handle_relro_segment X M h i else Ok i)) headers i) (\<lambda>i.
     bindR (expect_ok ''called `Result::unwrap()` on an `Err` value''
              (remove_copied_flags X M headers i)) (\<lambda>i.
       Ok (tls, i)))))"

text \<open>The offset of a position independent kernel: the whole image at a free address.\<close>

definition iter_min :: "nat list \<Rightarrow> nat option" where
  "iter_min xs = (case xs of [] \<Rightarrow> None | y # ys \<Rightarrow> Some (fold min ys y))"

definition unwrap_or :: "nat \<Rightarrow> nat option \<Rightarrow> nat" where
  "unwrap_or d v = (case v of None \<Rightarrow> d | Some x \<Rightarrow> x)"

definition is_load :: "program_header \<Rightarrow> bool" where
  "is_load h \<longleftrightarrow> get_type h = Ok Load"

definition choose_offset ::
    "x86 \<Rightarrow> 'r rng_ops \<Rightarrow> elf_file \<Rightarrow> 'r used_level_4_entries \<Rightarrow>
     (virtual_address_offset \<times> 'r used_level_4_entries) res" where
  "choose_offset X R e u =
     (case elf_type e of
        Executable \<Rightarrow> Ok (vao_zero, u)
      | SharedObject \<Rightarrow>
          let loads = filter is_load (program_iter e) in
          bindR (mapR (\<lambda>h. add_u64 (ph_virtual_addr h) (ph_mem_size h)) loads) (\<lambda>ends.
          let max_addr = unwrap_or 0 (iter_max ends);
              min_addr = unwrap_or 0 (iter_min (map ph_virtual_addr loads))
          in bindR (sub_w max_addr min_addr) (\<lambda>sz.
          let align = unwrap_or 1 (iter_max (map ph_align loads)) in
          bindR (get_free_address X R sz align u) (\<lambda>(offset, u).
            Ok (int offset - int min_addr, u))))
      | _ \<Rightarrow> Panic (Explicit ''not implemented''))"

definition loader_new ::
    "x86 \<Rightarrow> 'r rng_ops \<Rightarrow> elf_file \<Rightarrow> 'pt \<Rightarrow> 'fa \<Rightarrow> memory \<Rightarrow> 'r used_level_4_entries \<Rightarrow>
     (('pt, 'fa) inner \<times> 'r used_level_4_entries) res" where
  "loader_new X R e pt fa m u =
     bindR (phys_new X (elf_input e)) (\<lambda>kernel_off.
     bindR (phys_is_aligned X kernel_off PAGE_SIZE) (\<lambda>aligned.
     if \<not> aligned then Err ''Loaded kernel ELF file is not sufficiently aligned''
     else
       bindR (foldR (\<lambda>h _. ph_sanity_check h) (program_iter e) ()) (\<lambda>_.
       bindR (choose_offset X R e u) (\<lambda>(v, u).
       bindR (mark_segments X (program_iter e) v u) (\<lambda>u.
       bindR (elf_sanity_check e) (\<lambda>_.
         Ok (\<lparr>kernel_offset = kernel_off, vao = v, page_table = pt, frame_allocator = fa, mem = m\<rparr>, u)))))))"

definition entry_point :: "x86 \<Rightarrow> elf_file \<Rightarrow> ('pt, 'fa) inner \<Rightarrow> nat res" where
  "entry_point X e i = bindR (vao_add (vao i) (elf_entry_point e)) (\<lambda>a. virt_new X a)"

text \<open>\<open>v as u64\<close> of the \<open>i128\<close> offset is its value modulo \<open>2 ^ 64\<close>.\<close>

definition load_kernel ::
    "x86 \<Rightarrow> ('pt, 'fa) mapper \<Rightarrow> 'fa frame_alloc \<Rightarrow> 'r rng_ops \<Rightarrow> (u8 list \<Rightarrow> rela) \<Rightarrow> elf_file \<Rightarrow>
     'pt \<Rightarrow> 'fa \<Rightarrow> memory \<Rightarrow> 'r used_level_4_entries \<Rightarrow>
     (nat \<times> nat \<times> tls_template option \<times> ('pt, 'fa) inner \<times> 'r used_level_4_entries) res" where
  "load_kernel X M alloc R D e pt fa m u =
     bindR (loader_new X R e pt fa m u) (\<lambda>(i, u).
     bindR (load_segments X M alloc D (program_iter e) i) (\<lambda>(tls, i).
     bindR (virt_new X (nat (vao i mod 2 ^ 64))) (\<lambda>image_offset.
     bindR (entry_point X e i) (\<lambda>entry.
       Ok (image_offset, entry, tls, i, u)))))"

end
