(* ===== verification/Kernel_Memory.thy ===== *)
theory Kernel_Memory
  imports Load_Kernel
begin

text \<open>
  What the kernel loader's primitive steps do to the kernel's virtual memory: mapping a file
  frame, mapping a zeroed frame, the copy-on-write of \<open>make_mut\<close>, reading with \<open>copy_from\<close> and
  writing with \<open>copy_to\<close>.  \<open>vread\<close> is the virtual memory a loader state describes; \<open>loader_inv\<close>
  is the loader's invariant over the set \<open>F\<close> of frames that hold the ELF file.
\<close>

section \<open>Specification vocabulary\<close>

definition vread ::
    "('pt \<Rightarrow> nat \<rightharpoonup> nat \<times> flag set) \<Rightarrow> ('pt, 'fa) inner \<Rightarrow> nat \<rightharpoonup> u8" where
  "vread view i va = (case view (page_table i) (va div 4096 * 4096) of
     None \<Rightarrow> None | Some (f, _) \<Rightarrow> Some (mem i (f + va mod 4096)))"

text \<open>The flags of a page, without the loader's own mark.\<close>

definition vflags ::
    "('pt \<Rightarrow> nat \<rightharpoonup> nat \<times> flag set) \<Rightarrow> ('pt, 'fa) inner \<Rightarrow> nat \<rightharpoonup> flag set" where
  "vflags view i p = map_option (\<lambda>(_, fl). fl - {COPIED}) (view (page_table i) p)"

definition in_frames :: "nat set \<Rightarrow> nat \<Rightarrow> bool" where
  "in_frames F a \<longleftrightarrow> a div 4096 * 4096 \<in> F"

definition loader_inv ::
    "('pt \<Rightarrow> nat \<rightharpoonup> nat \<times> flag set) \<Rightarrow> ('fa \<Rightarrow> bool) \<Rightarrow> ('fa \<Rightarrow> nat set) \<Rightarrow> nat set \<Rightarrow>
     ('pt, 'fa) inner \<Rightarrow> bool" where
  "loader_inv view ainv free F i \<longleftrightarrow>
     ainv (frame_allocator i) \<and>
     (\<forall>f \<in> F. f \<notin> free (frame_allocator i)) \<and>
     (\<forall>p f fl. view (page_table i) p = Some (f, fl) \<longrightarrow>
        4096 dvd p \<and> 4096 dvd f \<and> f \<notin> free (frame_allocator i)) \<and>
     (\<forall>p f fl q g gl. view (page_table i) p = Some (f, fl) \<and> COPIED \<in> fl \<longrightarrow>
        f \<notin> F \<and> (view (page_table i) q = Some (g, gl) \<and> q \<noteq> p \<longrightarrow> g \<noteq> f))"

text \<open>A step of the loader: it keeps the offsets, the invariant and the bytes of the file.\<close>

definition loader_step ::
    "('pt \<Rightarrow> nat \<rightharpoonup> nat \<times> flag set) \<Rightarrow> ('fa \<Rightarrow> bool) \<Rightarrow> ('fa \<Rightarrow> nat set) \<Rightarrow> nat set \<Rightarrow>
     ('pt, 'fa) inner \<Rightarrow> ('pt, 'fa) inner \<Rightarrow> bool" where
  "loader_step view ainv free F i i' \<longleftrightarrow>
     kernel_offset i' = kernel_offset i \<and> vao i' = vao i \<and> loader_inv view ainv free F i' \<and>
     (\<forall>a. in_frames F a \<longrightarrow> mem i' a = mem i a) \<and>
     free (frame_allocator i') \<subseteq> free (frame_allocator i)"

section \<open>Pages and frames\<close>

lemma page_of_offset: "4096 dvd p \<Longrightarrow> k < 4096 \<Longrightarrow> (p + k) div 4096 * 4096 = (p :: nat)"
  by (auto elim!: dvdE)

lemma page_offset_mod: "4096 dvd p \<Longrightarrow> k < 4096 \<Longrightarrow> (p + k) mod 4096 = (k :: nat)"
  by (auto elim!: dvdE)

lemma page_split: "va = va div 4096 * 4096 + va mod (4096 :: nat)"
  by simp

lemma frames_apart:
  assumes "4096 dvd f" and "4096 dvd g" and "f \<noteq> g" and "f \<le> x" and "x < f + 4096"
  shows "\<not> (g \<le> x \<and> x < g + (4096 :: nat))"
  using assms by (auto elim!: dvdE)

lemma in_frame_page: "4096 dvd f \<Longrightarrow> f \<le> a \<Longrightarrow> a < f + 4096 \<Longrightarrow> a div 4096 * 4096 = (f :: nat)"
  by (auto elim!: dvdE)

lemma in_frames_offset: "4096 dvd f \<Longrightarrow> k < 4096 \<Longrightarrow> in_frames F (f + k) \<longleftrightarrow> f \<in> F"
  by (simp add: in_frames_def page_of_offset)

section \<open>The loader's primitives\<close>

locale kernel_loader = x86_64 X + page_mapper alloc inv free M view
  for X :: x86 and alloc :: "'fa frame_alloc" and inv and free
    and M :: "('pt, 'fa) mapper" and view
begin

lemma loader_step_refl: "loader_inv view inv free F i \<Longrightarrow> loader_step view inv free F i i"
  by (simp add: loader_step_def)

lemma loader_step_trans:
  "loader_step view inv free F i j \<Longrightarrow> loader_step view inv free F j k \<Longrightarrow> loader_step view inv free F i k"
  by (auto simp: loader_step_def)

lemma loader_step_inv: "loader_step view inv free F i i' \<Longrightarrow> loader_inv view inv free F i'"
  by (simp add: loader_step_def)

lemma map_page_ok:
  assumes "map_page M alloc p f fl i = Ok i'" and "inv (frame_allocator i)"
  shows "view (page_table i) p = None" and "view (page_table i') = (view (page_table i))(p \<mapsto> (f, fl))"
    and "mem i' = mem i" and "kernel_offset i' = kernel_offset i" and "vao i' = vao i"
    and "inv (frame_allocator i')" and "free (frame_allocator i') \<subseteq> free (frame_allocator i)"
  using assms map_to_ok[OF assms(2)] by (fastforce simp: map_page_def res_simps)+

lemma alloc_frame_ok:
  assumes "alloc_frame alloc i = Ok (f, i')" and "inv (frame_allocator i)"
  shows "f \<in> free (frame_allocator i)" and "free (frame_allocator i') \<subseteq> free (frame_allocator i) - {f}"
    and "inv (frame_allocator i')" and "page_table i' = page_table i" and "mem i' = mem i"
    and "kernel_offset i' = kernel_offset i" and "vao i' = vao i" and "4096 dvd f"
proof -
  from assms(1) obtain fa where a: "alloc (frame_allocator i) = Ok (Some f, fa)"
    and i': "i' = i\<lparr>frame_allocator := fa\<rparr>"
    by (auto simp: alloc_frame_def res_simps)
  from alloc_some[OF assms(2) a] alloc_inv[OF assms(2) a] free_aligned
  show "f \<in> free (frame_allocator i)" and "free (frame_allocator i') \<subseteq> free (frame_allocator i) - {f}"
    and "inv (frame_allocator i')" and "page_table i' = page_table i" and "mem i' = mem i"
    and "kernel_offset i' = kernel_offset i" and "vao i' = vao i" and "4096 dvd f"
    by (auto simp: i')
qed

text \<open>Mapping a page to a frame of the file.\<close>

lemma map_file_page:
  assumes "map_page M alloc p f fl i = Ok i'" and "loader_inv view inv free F i"
    and "f \<in> F" and "4096 dvd f" and "4096 dvd p" and "COPIED \<notin> fl"
  shows "loader_step view inv free F i i'" and "mem i' = mem i"
    and "vread view i' va = (if va div 4096 * 4096 = p then Some (mem i (f + va mod 4096)) else vread view i va)"
    and "vflags view i' q = (if q = p then Some fl else vflags view i q)"
proof -
  have inv: "inv (frame_allocator i)" using assms(2) by (simp add: loader_inv_def)
  note m = map_page_ok[OF assms(1) inv]
  show "mem i' = mem i" by (rule m(3))
  show "loader_step view inv free F i i'"
    using assms(2-) m unfolding loader_step_def loader_inv_def
    by (auto split: if_splits; blast)
  show "vread view i' va = (if va div 4096 * 4096 = p then Some (mem i (f + va mod 4096)) else vread view i va)"
    by (simp add: vread_def m(2,3) split: option.splits)
  show "vflags view i' q = (if q = p then Some fl else vflags view i q)"
    using assms(6) by (simp add: vflags_def m(2))
qed

text \<open>
  Virtual memory is the same when the page keeps its frame and the frame its bytes.
\<close>

lemma vread_cong:
  assumes "view (page_table i') (va div 4096 * 4096) = Some (g, gl')"
    and "view (page_table i) (va div 4096 * 4096) = Some (g, gl)"
    and "mem i' (g + va mod 4096) = mem i (g + va mod 4096)"
  shows "vread view i' va = vread view i va"
  using assms by (simp add: vread_def)

lemma vread_none:
  "view (page_table i) (va div 4096 * 4096) = None \<Longrightarrow> vread view i va = None"
  by (simp add: vread_def)

lemma loader_inv_frame:
  assumes "loader_inv view inv free F i" and "view (page_table i) p = Some (f, fl)"
  shows "4096 dvd p" and "4096 dvd f" and "f \<notin> free (frame_allocator i)"
  using assms unfolding loader_inv_def by blast+

lemma loader_inv_copied:
  assumes "loader_inv view inv free F i" and "view (page_table i) p = Some (f, fl)" and "COPIED \<in> fl"
  shows "f \<notin> F" and "view (page_table i) q = Some (g, gl) \<Longrightarrow> q \<noteq> p \<Longrightarrow> g \<noteq> f"
  using assms unfolding loader_inv_def by blast+

text \<open>Taking a fresh frame \<open>f\<close>, filling it, and mapping \<open>p\<close> to it.\<close>

lemma remap_fresh:
  assumes inv: "loader_inv view inv free F i"
    and fresh: "f \<in> free (frame_allocator i)"
    and fa: "inv (frame_allocator i')" "free (frame_allocator i') \<subseteq> free (frame_allocator i) - {f}"
    and pt: "view (page_table i') = (view (page_table i))(p \<mapsto> (f, fl))"
    and mem: "\<And>x. \<not> (f \<le> x \<and> x < f + 4096) \<Longrightarrow> mem i' x = mem i x"
    and same: "kernel_offset i' = kernel_offset i" "vao i' = vao i" and p: "4096 dvd p"
  shows "loader_step view inv free F i i'"
    and "va div 4096 * 4096 \<noteq> p \<Longrightarrow> vread view i' va = vread view i va"
    and "vread view i' (p + va mod 4096) = Some (mem i' (f + va mod 4096))"
proof -
  have f: "4096 dvd f" by (rule free_aligned[OF fresh])
  have unused: "g \<noteq> f" if "view (page_table i) q = Some (g, gl)" for q g gl
    using loader_inv_frame(3)[OF inv that] fresh by auto
  have notF: "f \<notin> F" using inv fresh unfolding loader_inv_def by blast
  have bytes: "mem i' (g + k) = mem i (g + k)" if "4096 dvd g" "g \<noteq> f" "k < 4096" for g k
    using mem[of "g + k"] frames_apart[OF that(1) f that(2), of "g + k"] that(3) by auto
  have "loader_inv view inv free F i'"
    using inv fa f p notF unused unfolding loader_inv_def pt by (auto split: if_splits; blast)
  moreover have "mem i' a = mem i a" if "in_frames F a" for a
  proof (rule mem)
    show "\<not> (f \<le> a \<and> a < f + 4096)"
      using that notF in_frame_page[OF f, of a] by (auto simp: in_frames_def)
  qed
  ultimately show "loader_step view inv free F i i'"
    using same fa by (auto simp: loader_step_def)
  show "vread view i' va = vread view i va" if "va div 4096 * 4096 \<noteq> p"
  proof (cases "view (page_table i) (va div 4096 * 4096)")
    case None
    with that show ?thesis by (simp add: vread_def pt)
  next
    case (Some e)
    then obtain g gl where g: "view (page_table i) (va div 4096 * 4096) = Some (g, gl)" by (cases e) auto
    have "mem i' (g + va mod 4096) = mem i (g + va mod 4096)"
      by (rule bytes[OF loader_inv_frame(2)[OF inv g] unused[OF g]]) simp
    then show ?thesis using that g by (intro vread_cong[where g = g]) (auto simp: pt)
  qed
  show "vread view i' (p + va mod 4096) = Some (mem i' (f + va mod 4096))"
    using p by (simp add: vread_def pt page_of_offset page_offset_mod)
qed

lemma map_zero_page:
  assumes "map_bss_page M alloc fl p i = Ok i'" and inv: "loader_inv view inv free F i"
    and p: "4096 dvd p" and "COPIED \<notin> fl"
  shows "loader_step view inv free F i i'" and "view (page_table i) p = None"
    and "vread view i' va = (if va div 4096 * 4096 = p then Some 0 else vread view i va)"
    and "vflags view i' q = (if q = p then Some fl else vflags view i q)"
proof -
  from assms(1) obtain f i1 where a: "alloc_frame alloc i = Ok (f, i1)"
    and m: "map_page M alloc p f fl (i1\<lparr>mem := fill_bytes (mem i1) f 0 4096\<rparr>) = Ok i'"
    by (auto simp: map_bss_page_def res_simps Let_def)
  have i: "inv (frame_allocator i)" using inv by (simp add: loader_inv_def)
  note al = alloc_frame_ok[OF a i]
  note mp = map_page_ok[OF m, simplified, OF al(3)]
  have pt: "view (page_table i') = (view (page_table i))(p \<mapsto> (f, fl))" using mp(2) al(4) by simp
  have mem': "mem i' x = (if f \<le> x \<and> x < f + 4096 then 0 else mem i x)" for x
    using mp(3) al(5) by (simp add: fill_bytes_apply)
  have fa: "free (frame_allocator i') \<subseteq> free (frame_allocator i) - {f}" using mp(7) al(2) by blast
  note r = remap_fresh[OF inv al(1) mp(6) fa pt]
  show "loader_step view inv free F i i'"
    by (rule r(1)) (use mp al p mem' in auto)
  show "view (page_table i) p = None" using mp(1) al(4) by simp
  show "vread view i' va = (if va div 4096 * 4096 = p then Some 0 else vread view i va)"
  proof (cases "va div 4096 * 4096 = p")
    case True
    then have "vread view i' va = Some (mem i' (f + va mod 4096))" by (simp add: vread_def pt)
    with True show ?thesis by (simp add: mem')
  next
    case False
    have "vread view i' va = vread view i va"
      by (rule r(2)[OF _ _ _ p False]) (use mp al mem' in auto)
    with False show ?thesis by simp
  qed
  show "vflags view i' q = (if q = p then Some fl else vflags view i q)"
    using assms(4) by (simp add: vflags_def pt)
qed

text \<open>\<open>make_mut\<close> gives the page a frame of its own and leaves virtual memory as it was.\<close>

lemma make_mut_private:
  assumes "make_mut M alloc p i = Ok (f, i')" and inv: "loader_inv view inv free F i" and p: "4096 dvd p"
  shows "loader_step view inv free F i i'" and "\<exists>fl. view (page_table i') p = Some (f, fl) \<and> COPIED \<in> fl"
    and "vread view i' = vread view i" and "vflags view i' = vflags view i"
proof -
  from assms(1) obtain f0 off fl where t: "translate M p (page_table i) = Mapped (Size4KiB f0) off fl"
    by (auto simp: make_mut_def split: translate_result.splits mapped_frame.splits)
  then have v: "view (page_table i) p = Some (f0, fl)" using translate_view[OF p] by blast
  have "loader_step view inv free F i i' \<and> (\<exists>fl. view (page_table i') p = Some (f, fl) \<and> COPIED \<in> fl) \<and>
    vread view i' = vread view i \<and> vflags view i' = vflags view i"
  proof (cases "COPIED \<in> fl")
    case True
    with assms(1) t v inv show ?thesis by (auto simp: make_mut_def loader_step_refl)
  next
    case False
    with assms(1) t obtain i1 pt where a: "alloc_frame alloc i = Ok (f, i1)"
      and u: "unmap M p (page_table i1) = Some pt"
      and m: "map_page M alloc p f (insert COPIED fl)
        (i1\<lparr>mem := copy_bytes (mem i1) f0 f 4096, page_table := pt\<rparr>) = Ok i'"
      by (auto simp: make_mut_def res_simps Let_def)
    have i: "inv (frame_allocator i)" using inv by (simp add: loader_inv_def)
    note al = alloc_frame_ok[OF a i]
    note mp = map_page_ok[OF m, simplified, OF al(3)]
    have pt: "view (page_table i') = (view (page_table i))(p \<mapsto> (f, insert COPIED fl))"
      using mp(2) unmap_view[OF u] al(4) by simp
    have mem': "mem i' x = (if f \<le> x \<and> x < f + 4096 then mem i (f0 + (x - f)) else mem i x)" for x
      using mp(3) al(5) by (simp add: copy_bytes_apply)
    have fa: "free (frame_allocator i') \<subseteq> free (frame_allocator i) - {f}" using mp(7) al(2) by blast
    note r = remap_fresh[OF inv al(1) mp(6) fa pt]
    have step: "loader_step view inv free F i i'"
      by (rule r(1)) (use mp al p mem' in auto)
    have "vread view i' va = vread view i va" for va
    proof (cases "va div 4096 * 4096 = p")
      case True
      then have "vread view i' va = Some (mem i' (f + va mod 4096))" by (simp add: vread_def pt)
      with True v show ?thesis by (simp add: mem' vread_def)
    next
      case other: False
      show ?thesis by (rule r(2)[OF _ _ _ p other]) (use mp al mem' in auto)
    qed
    moreover have "vflags view i' = vflags view i" using v by (auto simp: vflags_def pt)
    ultimately show ?thesis using step pt by auto
  qed
  then show "loader_step view inv free F i i'" and "\<exists>fl. view (page_table i') p = Some (f, fl) \<and> COPIED \<in> fl"
    and "vread view i' = vread view i" and "vflags view i' = vflags view i" by auto
qed

text \<open>Writing into a private frame changes only the bytes of its page.\<close>

lemma write_private:
  assumes inv: "loader_inv view inv free F i" and v: "view (page_table i) p = Some (f, fl)"
    and c: "COPIED \<in> fl"
    and i': "i' = i\<lparr>mem := m\<rparr>" and m: "\<And>x. \<not> (f \<le> x \<and> x < f + 4096) \<Longrightarrow> m x = mem i x"
  shows "loader_step view inv free F i i'"
    and "vread view i' va = (if va div 4096 * 4096 = p then Some (m (f + va mod 4096)) else vread view i va)"
    and "vflags view i' = vflags view i"
proof -
  have f: "4096 dvd f" by (rule loader_inv_frame(2)[OF inv v])
  have "m a = mem i a" if "in_frames F a" for a
    using m[of a] that loader_inv_copied(1)[OF inv v c] in_frame_page[OF f, of a]
    by (auto simp: in_frames_def)
  moreover have "loader_inv view inv free F i'" using inv by (simp add: i' loader_inv_def)
  ultimately show "loader_step view inv free F i i'"
    by (simp add: i' loader_step_def)
  show "vread view i' va = (if va div 4096 * 4096 = p then Some (m (f + va mod 4096)) else vread view i va)"
  proof (cases "va div 4096 * 4096 = p")
    case True
    with v show ?thesis by (simp add: vread_def i')
  next
    case False
    show ?thesis
    proof (cases "view (page_table i) (va div 4096 * 4096)")
      case (Some e)
      then obtain g gl where g: "view (page_table i) (va div 4096 * 4096) = Some (g, gl)" by (cases e) auto
      have "m (g + va mod 4096) = mem i (g + va mod 4096)"
        using m[of "g + va mod 4096"] loader_inv_copied(2)[OF inv v c g False]
          frames_apart[OF loader_inv_frame(2)[OF inv g] f, of "g + va mod 4096"] by auto
      with g False show ?thesis by (simp add: vread_def i')
    qed (use False in \<open>simp add: vread_def i'\<close>)
  qed
  show "vflags view i' = vflags view i" by (auto simp: vflags_def i')
qed

section \<open>Copying to and from virtual memory\<close>

text \<open>The pages of \<open>[a, b]\<close>.\<close>

lemma page_range_steps:
  assumes "same_half a b" and "a \<le> b"
  shows "page_range X (page_containing X a) (page_containing X b) = steps_of (a div 4096 * 4096) (b div 4096 * 4096)"
proof -
  have "same_half (a div 4096 * 4096) (b div 4096 * 4096)"
    using assms by (auto simp: same_half_def)
  then show ?thesis by (simp add: page_containing page_range)
qed

lemma set_pages:
  "p \<in> set (steps_of (a div 4096 * 4096) (b div 4096 * 4096)) \<longleftrightarrow>
   4096 dvd p \<and> a div 4096 * 4096 \<le> p \<and> p \<le> b div 4096 * 4096"
  by (simp add: set_steps_of)

lemma page_in_range:
  fixes a b :: nat
  assumes "a \<le> va" and "va \<le> b"
  shows "a div 4096 * 4096 \<le> va div 4096 * 4096" and "va div 4096 * 4096 \<le> b div 4096 * 4096"
  using assms by (auto intro: div_le_mono)

lemma page_canonical:
  assumes "same_half a b" and "4096 dvd p" and "a \<le> p + 4095" and "p \<le> b"
  shows "k \<le> 4095 \<Longrightarrow> canonical (p + k)" and "canonical p"
proof -
  obtain j where j: "p = 4096 * j" using assms(2) by (auto elim: dvdE)
  consider "b < 2 ^ 47" | "2 ^ 64 - 2 ^ 47 \<le> a" "b < 2 ^ 64" using assms(1) by (auto simp: same_half_def)
  then have "canonical (p + k)" if "k \<le> 4095" for k
  proof cases
    case 1
    then have "j < 2 ^ 35" using assms(4) j by simp
    then show ?thesis using that by (simp add: canonical_def j)
  next
    case 2
    then have "j < 2 ^ 52" "2 ^ 52 - 2 ^ 35 \<le> j" using assms(3,4) j by simp_all
    then show ?thesis using that by (simp add: canonical_def j)
  qed
  then show "k \<le> 4095 \<Longrightarrow> canonical (p + k)" and "canonical p" by (simp, metis add_0_right le0)
qed

lemma copy_window_ok:
  assumes half: "same_half a b" and "a \<le> b"
    and p: "4096 dvd p" "a div 4096 * 4096 \<le> p" "p \<le> b div 4096 * 4096"
  shows "copy_window X a b p = Ok (max a p - p, max a p - a, min b (p + 4095) - max a p + 1)"
    and "p \<le> max a p" and "max a p \<le> min b (p + 4095)"
proof -
  obtain k where k: "p = 4096 * k" using p(1) by (auto elim: dvdE)
  have le: "p \<le> b" using p(3) div_times_less_eq_dividend[of b 4096] by linarith
  have le': "a \<le> p + 4095" using p(2) div_mult_mod_eq[of a 4096] mod_less_divisor[of 4096 a] by linarith
  show m: "p \<le> max a p" and mm: "max a p \<le> min b (p + 4095)" using \<open>a \<le> b\<close> le le' by linarith+
  have can: "canonical p" "canonical (p + 4095)"
    using page_canonical[OF half p(1) le' le] by simp_all
  have va: "virt_add X p 4095 = Ok (p + 4095)" using can by (simp add: virt_add)
  have "same_half a (max a p)"
    using half le \<open>a \<le> b\<close> unfolding same_half_def by (auto simp: max_def)
  then have st: "virt_steps X a (max a p) = Some (max a p - a)" by (simp add: virt_steps)
  have "sub_w (min b (p + 4095)) p = Ok (min b (p + 4095) - p)"
    using m mm by (simp only: sub_w_def order.trans if_True)
  moreover have "sub_w (max a p) p = Ok (max a p - p)" by (simp add: sub_w_def)
  moreover have "sub_w (min b (p + 4095) - p) (max a p - p) = Ok (min b (p + 4095) - max a p)"
  proof -
    have "max a p - p \<le> min b (p + 4095) - p" by (rule diff_le_mono[OF mm])
    moreover have "min b (p + 4095) - p - (max a p - p) = min b (p + 4095) - max a p"
      by (rule Nat.diff_diff_eq[OF order.trans[OF m mm] m])
    ultimately show ?thesis by (simp only: sub_w_def if_True)
  qed
  ultimately show "copy_window X a b p = Ok (max a p - p, max a p - a, min b (p + 4095) - max a p + 1)"
    by (simp add: copy_window_def va st Let_def)
qed

lemma window_bytes:
  fixes p :: nat
  assumes "4096 dvd p"
  shows "va div 4096 * 4096 = p \<and> a \<le> va \<and> va \<le> b \<longleftrightarrow> max a p \<le> va \<and> va \<le> min b (p + 4095)"
proof -
  obtain k where "p = 4096 * k" using assms by (auto elim: dvdE)
  then have "va div 4096 * 4096 = p \<longleftrightarrow> p \<le> va \<and> va \<le> p + 4095" by auto
  then show ?thesis by auto
qed

lemma copy_to_page_spec:
  assumes "copy_to_page X M alloc a b buf p i = Ok i'" and inv: "loader_inv view inv free F i"
    and half: "same_half a b" and ab: "a \<le> b"
    and p: "4096 dvd p" "a div 4096 * 4096 \<le> p" "p \<le> b div 4096 * 4096"
  shows "loader_step view inv free F i i'" and "vflags view i' = vflags view i"
    and "vread view i' va =
      (if va div 4096 * 4096 = p \<and> a \<le> va \<and> va \<le> b then Some (buf ! (va - a)) else vread view i va)"
proof -
  define s e where se: "s = max a p" "e = min b (p + 4095)"
  note w = copy_window_ok[OF half ab p, folded se]
  have e4095: "e \<le> p + 4095" by (simp add: se)
  from assms(1) obtain f i1 where mm: "make_mut M alloc p i = Ok (f, i1)"
    and i': "i' = i1\<lparr>mem := write_slice (mem i1) (f + (s - p)) (take (e - s + 1) (drop (s - a) buf))\<rparr>"
    and len: "s - a + (e - s + 1) \<le> length buf"
    by (auto simp: copy_to_page_def w(1) res_simps phys_add split: if_splits)
  note mut = make_mut_private[OF mm inv p(1)]
  from mut(2) obtain fl where v: "view (page_table i1) p = Some (f, fl)" "COPIED \<in> fl" by blast
  define m where "m = write_slice (mem i1) (f + (s - p)) (take (e - s + 1) (drop (s - a) buf))"
  have lenw: "length (take (e - s + 1) (drop (s - a) buf)) = e - s + 1" using len by simp
  have m: "m x = (if f + (s - p) \<le> x \<and> x \<le> f + (e - p) then buf ! (s - a + (x - (f + (s - p)))) else mem i1 x)" for x
  proof -
    have "f + (s - p) \<le> x \<and> x < f + (s - p) + (e - s + 1) \<longleftrightarrow> f + (s - p) \<le> x \<and> x \<le> f + (e - p)"
      using w(2,3) by linarith
    moreover have "take (e - s + 1) (drop (s - a) buf) ! (x - (f + (s - p))) = buf ! (s - a + (x - (f + (s - p))))"
      if "f + (s - p) \<le> x" "x \<le> f + (e - p)"
    proof -
      have "x - (f + (s - p)) < e - s + 1" using that w(2,3) by linarith
      then show ?thesis using len by simp
    qed
    ultimately show ?thesis unfolding m_def write_slice_apply lenw by presburger
  qed
  have outside: "m x = mem i1 x" if "\<not> (f \<le> x \<and> x < f + 4096)" for x
  proof -
    have "\<not> (f + (s - p) \<le> x \<and> x \<le> f + (e - p))" using that w(2,3) e4095 by linarith
    then show ?thesis by (simp only: m if_False)
  qed
  note wr = write_private[OF loader_step_inv[OF mut(1)] v i'[folded m_def] outside]
  show "loader_step view inv free F i i'" by (rule loader_step_trans[OF mut(1) wr(1)])
  show "vflags view i' = vflags view i" using wr(3) mut(4) by simp
  show "vread view i' va =
      (if va div 4096 * 4096 = p \<and> a \<le> va \<and> va \<le> b then Some (buf ! (va - a)) else vread view i va)"
  proof (cases "va div 4096 * 4096 = p")
    case True
    then have va: "va = p + va mod 4096" using div_mult_mod_eq[of va 4096] by linarith
    have "f + (s - p) \<le> f + va mod 4096 \<and> f + va mod 4096 \<le> f + (e - p) \<longleftrightarrow> s \<le> va \<and> va \<le> e"
      using w(2,3) va by linarith
    moreover have "s - a + (f + va mod 4096 - (f + (s - p))) = va - a" if "s \<le> va"
    proof -
      have "a \<le> s" by (simp add: se)
      then show ?thesis using that w(2) va by linarith
    qed
    moreover have "vread view i1 va = Some (mem i1 (f + va mod 4096))" using True v(1) by (simp add: vread_def)
    ultimately show ?thesis
      using wr(2)[of va] True window_bytes[OF p(1), of va a b, folded se] mut(3) by (auto simp: m)
  qed (use wr(2)[of va] mut(3) in simp)
qed

lemma forward_to_last:
  assumes "same_half a (a + n - 1)" and "0 < n"
  shows "virt_forward X a (n - 1) = Some (a + n - 1)"
proof -
  have c: "canonical a" "canonical (a + n - 1)" using assms(1) by (auto dest: same_half_canonical)
  moreover have "a + n - 1 < 2 ^ 64" using c(2) by (auto simp: canonical_def)
  moreover have "n - 1 \<le> 2 ^ 48" using assms by (auto simp: same_half_def)
  ultimately show ?thesis using assms(2) by (simp add: virt_forward)
qed

lemma copy_to_spec:
  assumes "copy_to X M alloc a buf i = Ok i'" and inv: "loader_inv view inv free F i"
    and half: "same_half a (a + length buf - 1)"
  shows "loader_step view inv free F i i'" and "vflags view i' = vflags view i"
    and "vread view i' va = (if a \<le> va \<and> va < a + length buf then Some (buf ! (va - a)) else vread view i va)"
proof -
  define b where b: "b = a + length buf - 1"
  note half = half[folded b]
  from assms(1) have pos: "0 < length buf" by (auto simp: copy_to_def res_simps)
  have ab: "a \<le> b" using pos b by linarith
  have last: "sub_w (length buf) 1 = Ok (length buf - 1)"
    using pos by (simp only: sub_w_def One_nat_def Suc_leI if_True)
  from assms(1) have loop: "foldR (copy_to_page X M alloc a b buf)
      (steps_of (a div 4096 * 4096) (b div 4096 * 4096)) i = Ok i'"
    by (simp only: copy_to_def last forward_to_last[OF assms(3) pos, folded b] expect_some_def option.case bindR.simps
        page_range_steps[OF half ab])
  have "loader_step view inv free F i i' \<and> vflags view i' = vflags view i \<and>
    (\<forall>va. vread view i' va = (if va div 4096 * 4096 \<in> set (steps_of (a div 4096 * 4096) (b div 4096 * 4096)) \<and>
      a \<le> va \<and> va \<le> b then Some (buf ! (va - a)) else vread view i va))"
  proof (rule foldR_invariant[OF loop])
    fix ys z zs s s'
    assume split: "steps_of (a div 4096 * 4096) (b div 4096 * 4096) = ys @ z # zs"
      and I: "loader_step view inv free F i s \<and> vflags view s = vflags view i \<and>
        (\<forall>va. vread view s va = (if va div 4096 * 4096 \<in> set ys \<and> a \<le> va \<and> va \<le> b
           then Some (buf ! (va - a)) else vread view i va))"
      and step: "copy_to_page X M alloc a b buf z s = Ok s'"
    have "z \<in> set (steps_of (a div 4096 * 4096) (b div 4096 * 4096))" by (simp add: split)
    then have z: "4096 dvd z" "a div 4096 * 4096 \<le> z" "z \<le> b div 4096 * 4096" by (auto simp: set_pages)
    have inv': "loader_inv view inv free F s" using I loader_step_inv by blast
    note c = copy_to_page_spec[OF step inv' half ab z]
    from I c show "loader_step view inv free F i s' \<and> vflags view s' = vflags view i \<and>
        (\<forall>va. vread view s' va = (if va div 4096 * 4096 \<in> set (ys @ [z]) \<and> a \<le> va \<and> va \<le> b
           then Some (buf ! (va - a)) else vread view i va))"
      by (auto intro: loader_step_trans)
  qed (simp add: loader_step_refl[OF inv])
  moreover have "va div 4096 * 4096 \<in> set (steps_of (a div 4096 * 4096) (b div 4096 * 4096))"
    if "a \<le> va" "va \<le> b" for va
    using page_in_range[OF that] by (simp add: set_pages)
  moreover have "va \<le> b \<longleftrightarrow> va < a + length buf" using pos b by linarith
  ultimately show "loader_step view inv free F i i'" and "vflags view i' = vflags view i"
    and "vread view i' va = (if a \<le> va \<and> va < a + length buf then Some (buf ! (va - a)) else vread view i va)"
    by auto
qed

end

end
