(* ===== verification/Kernel_Image.thy ===== *)
theory Kernel_Image
  imports Kernel_Memory
begin

text \<open>
  What the kernel loader (\<^verbatim>\<open>src/common/src/load_kernel.rs\<close>) leaves in memory: reading and
  writing virtual memory, the image of a \<open>LOAD\<close> segment (its file data followed by zeroes),
  relocations, and the page flags.  The lemmas are proved in the locale \<open>kernel_loader\<close>; it
  is interpreted on the four-level page table and the bootloader's own frame allocator.
\<close>

section \<open>Specification vocabulary\<close>

text \<open>The frames that hold \<open>n\<close> bytes from the physical address \<open>a\<close> on.\<close>

definition frames_of :: "nat \<Rightarrow> nat \<Rightarrow> nat set" where
  "frames_of a n = {f. 4096 dvd f \<and> a div 4096 * 4096 \<le> f \<and> f < a + n}"

text \<open>
  A segment the loader accepts: its address range stays in one half of the address space, its
  file data sits in the frames \<open>F\<close>, and file and memory offsets agree within a page.
\<close>

definition loadable :: "nat set \<Rightarrow> ('pt, 'fa) inner \<Rightarrow> program_header \<Rightarrow> bool" where
  "loadable F i h \<longleftrightarrow>
     (case vao_add (vao i) (ph_virtual_addr h) of
        Ok vs \<Rightarrow> same_half vs (vs + ph_mem_size h) \<and> ph_file_size h \<le> ph_mem_size h \<and>
          (kernel_offset i + ph_offset h) mod 4096 = vs mod 4096 \<and>
          frames_of (kernel_offset i + ph_offset h) (ph_file_size h) \<subseteq> F
      | _ \<Rightarrow> False)"

text \<open>The segment is in virtual memory: its data in the file image \<open>m\<close>, then zeroes.\<close>

definition segment_image ::
    "('pt \<Rightarrow> nat \<rightharpoonup> nat \<times> flag set) \<Rightarrow> memory \<Rightarrow> program_header \<Rightarrow> ('pt, 'fa) inner \<Rightarrow> bool" where
  "segment_image view m h i \<longleftrightarrow>
     (case vao_add (vao i) (ph_virtual_addr h) of
        Ok vs \<Rightarrow> \<forall>k < ph_mem_size h. vread view i (vs + k) =
          Some (if k < ph_file_size h then m (kernel_offset i + ph_offset h + k) else 0)
      | _ \<Rightarrow> False)"

definition segment_protected ::
    "('pt \<Rightarrow> nat \<rightharpoonup> nat \<times> flag set) \<Rightarrow> program_header \<Rightarrow> ('pt, 'fa) inner \<Rightarrow> bool" where
  "segment_protected view h i \<longleftrightarrow>
     (case vao_add (vao i) (ph_virtual_addr h) of
        Ok vs \<Rightarrow> \<forall>q. 4096 dvd q \<and> vs div 4096 * 4096 \<le> q \<and> q < vs + ph_mem_size h \<longrightarrow>
          vflags view i q = Some (segment_flags h)
      | _ \<Rightarrow> False)"

section \<open>Reading virtual memory\<close>

context kernel_loader
begin

lemma copy_from_page_spec:
  assumes v: "view (page_table i) p = Some (f, fl)" and f: "f + 4095 < 2 ^ 52"
    and half: "same_half a b" and ab: "a \<le> b" and len: "length buf = b - a + 1"
    and p: "4096 dvd p" "a div 4096 * 4096 \<le> p" "p \<le> b div 4096 * 4096"
  shows "\<exists>r. copy_from_page X M a b i p buf = Ok r \<and> length r = length buf \<and>
    (\<forall>k < length buf. r ! k = (if (a + k) div 4096 * 4096 = p then mem i (f + (a + k) mod 4096) else buf ! k))"
proof -
  define s e where se: "s = max a p" "e = min b (p + 4095)"
  note w = copy_window_ok[OF half ab p, folded se]
  have bnd: "e \<le> p + 4095" "a \<le> s" "e \<le> b" by (simp_all add: se)
  define r where "r = take (s - a) buf @ read_bytes (mem i) (f + (s - p)) (e - s + 1) @ drop (s - a + (e - s + 1)) buf"
  have fits: "s - a + (e - s + 1) \<le> length buf" using bnd w(2,3) ab len by linarith
  have "s - p \<le> 4095" using bnd w(2,3) by linarith
  then have "copy_from_page X M a b i p buf = Ok r"
    using f fits by (simp add: copy_from_page_def translate_page_view v w(1) phys_add r_def Let_def)
  moreover have "length r = length buf" using fits by (simp add: r_def)
  moreover have "r ! k = (if (a + k) div 4096 * 4096 = p then mem i (f + (a + k) mod 4096) else buf ! k)"
    if k: "k < length buf" for k
  proof -
    have in_window: "(a + k) div 4096 * 4096 = p \<longleftrightarrow> s - a \<le> k \<and> k < s - a + (e - s + 1)"
    proof -
      have "(a + k) div 4096 * 4096 = p \<longleftrightarrow> s \<le> a + k \<and> a + k \<le> e"
        using window_bytes[OF p(1), of "a + k" a b, folded se] k len ab by auto
      then show ?thesis using bnd w(2,3) by linarith
    qed
    show ?thesis
    proof (cases "(a + k) div 4096 * 4096 = p")
      case True
      then have "a + k = p + (a + k) mod 4096" using div_mult_mod_eq[of "a + k" 4096] by linarith
      moreover have k': "s - a \<le> k" "k - (s - a) < e - s + 1" using in_window True by auto
      ultimately have "f + (s - p) + (k - (s - a)) = f + (a + k) mod 4096" using bnd w(2) by linarith
      then show ?thesis using True k' fits by (simp add: r_def nth_append)
    next
      case False
      then have "k < s - a \<or> s - a + (e - s + 1) \<le> k" using in_window by linarith
      then show ?thesis using False fits k by (auto simp: r_def nth_append)
    qed
  qed
  ultimately show ?thesis by blast
qed

text \<open>\<open>copy_from\<close> returns the bytes of virtual memory when every page of the range is mapped.\<close>

lemma copy_from_spec:
  assumes half: "same_half a (a + length buf - 1)" and pos: "0 < length buf"
    and mapped: "\<And>k. k < length buf \<Longrightarrow>
      \<exists>f fl. view (page_table i) ((a + k) div 4096 * 4096) = Some (f, fl) \<and> f + 4095 < 2 ^ 52"
  shows "\<exists>r. copy_from X M a buf i = Ok r \<and> length r = length buf \<and>
    (\<forall>k < length buf. vread view i (a + k) = Some (r ! k))"
proof -
  define b where b: "b = a + length buf - 1"
  note half' = half[folded b]
  have ab: "a \<le> b" and len: "length buf = b - a + 1" using pos b by linarith+
  define ps where "ps = steps_of (a div 4096 * 4096) (b div 4096 * 4096)"
  have last: "sub_w (length buf) 1 = Ok (length buf - 1)"
    using pos by (simp only: sub_w_def One_nat_def Suc_leI if_True)
  have eq: "copy_from X M a buf i = foldR (copy_from_page X M a b i) ps buf"
    by (simp only: copy_from_def last forward_to_last[OF half pos, folded b] expect_some_def option.case
        bindR.simps page_range_steps[OF half' ab] ps_def)
  have "\<exists>r. foldR (copy_from_page X M a b i) ps buf = Ok r \<and> length r = length buf \<and>
    (\<forall>k < length buf. (a + k) div 4096 * 4096 \<in> set ps \<longrightarrow> vread view i (a + k) = Some (r ! k))"
  proof (rule foldR_total)
    fix ys z zs s
    assume split: "ps = ys @ z # zs" and I: "length s = length buf \<and>
      (\<forall>k < length buf. (a + k) div 4096 * 4096 \<in> set ys \<longrightarrow> vread view i (a + k) = Some (s ! k))"
    have z: "4096 dvd z" "a div 4096 * 4096 \<le> z" "z \<le> b div 4096 * 4096"
    proof -
      have "z \<in> set ps" by (simp add: split)
      then show "4096 dvd z" "a div 4096 * 4096 \<le> z" "z \<le> b div 4096 * 4096" by (auto simp: ps_def set_pages)
    qed
    obtain va where va: "a \<le> va" "va \<le> b" "va div 4096 * 4096 = z"
    proof
      have m: "z \<le> max a z" "max a z \<le> min b (z + 4095)" by (rule copy_window_ok[OF half' ab z])+
      then show "a \<le> max a z" "max a z \<le> b" by simp_all
      show "max a z div 4096 * 4096 = z" using window_bytes[OF z(1), of "max a z" a b] m by simp
    qed
    then have "va = a + (va - a)" "va - a < length buf" using len by simp_all
    with mapped[of "va - a"] va(3) obtain f fl where f: "view (page_table i) z = Some (f, fl)" "f + 4095 < 2 ^ 52"
      by auto
    have ls: "length s = b - a + 1" using I len by simp
    from copy_from_page_spec[OF f half' ab ls z] I f(1)
    show "\<exists>s'. copy_from_page X M a b i z s = Ok s' \<and> length s' = length buf \<and>
      (\<forall>k < length buf. (a + k) div 4096 * 4096 \<in> set (ys @ [z]) \<longrightarrow> vread view i (a + k) = Some (s' ! k))"
      by (fastforce simp: vread_def)
  qed simp
  moreover have "(a + k) div 4096 * 4096 \<in> set ps" if "k < length buf" for k
  proof -
    have "a + k \<le> b" using that len ab by linarith
    then show ?thesis using page_in_range[of a "a + k" b] by (simp add: ps_def set_pages)
  qed
  ultimately show ?thesis unfolding eq by blast
qed

end

section \<open>The image of a segment\<close>

context kernel_loader
begin

lemma unmapped_pages:
  fixes sp :: nat
  assumes "4096 dvd q" and "4096 dvd sp" and "sp \<le> q" and "q < sp + 4096 * n"
    and "\<forall>j < n. P (sp + 4096 * j)"
  shows "P q"
proof -
  have "4096 dvd q - sp" using assms(1,2) by simp
  then obtain k where "q - sp = 4096 * k" by (auto elim: dvdE)
  then have "q = sp + 4096 * k" using assms(3) by simp
  then show ?thesis using assms(4,5) by simp
qed

text \<open>The \<open>n\<close> frames from \<open>sf\<close> on, mapped to the pages from \<open>sp\<close> on.\<close>

lemma map_segment_frames:
  assumes "foldR (map_segment_frame X M alloc fl sf sp) (map (\<lambda>j. sf + 4096 * j) [0..<n]) i = Ok i'"
    and inv: "loader_inv view inv free F i" and al: "4096 dvd sf" "4096 dvd sp" and "COPIED \<notin> fl"
    and half: "\<And>j. j < n \<Longrightarrow> same_half sp (sp + 4096 * j)"
    and F: "\<And>j. j < n \<Longrightarrow> sf + 4096 * j \<in> F"
  shows "loader_step view inv free F i i' \<and> mem i' = mem i \<and>
    (\<forall>va. vread view i' va = (if sp \<le> va \<and> va < sp + 4096 * n then Some (mem i (sf + (va - sp))) else vread view i va)) \<and>
    (\<forall>q. vflags view i' q = (if 4096 dvd q \<and> sp \<le> q \<and> q < sp + 4096 * n then Some fl else vflags view i q)) \<and>
    (\<forall>j < n. vflags view i (sp + 4096 * j) = None)"
  using assms(1) half F
proof (induction n arbitrary: i')
  case 0
  then show ?case using inv by (auto simp: loader_step_refl)
next
  case (Suc n)
  from Suc.prems(1) obtain i1 where i1: "foldR (map_segment_frame X M alloc fl sf sp) (map (\<lambda>j. sf + 4096 * j) [0..<n]) i = Ok i1"
    and step: "map_segment_frame X M alloc fl sf sp (sf + 4096 * n) i1 = Ok i'"
    by (auto simp: res_simps)
  have IH: "loader_step view inv free F i i1" "mem i1 = mem i"
    "vread view i1 va = (if sp \<le> va \<and> va < sp + 4096 * n then Some (mem i (sf + (va - sp))) else vread view i va)"
    "vflags view i1 q = (if 4096 dvd q \<and> sp \<le> q \<and> q < sp + 4096 * n then Some fl else vflags view i q)"
    "j < n \<Longrightarrow> vflags view i (sp + 4096 * j) = None" for va q j
    using Suc.IH[OF i1] Suc.prems(2,3) by simp_all
  let ?p = "sp + 4096 * n"
  have can: "canonical sp" "canonical ?p" using Suc.prems(2)[of n] by (auto dest: same_half_canonical)
  have "frame_sub X (sf + 4096 * n) sf = Ok n" using al by (simp add: frame_sub)
  then have m: "map_page M alloc ?p (sf + 4096 * n) fl i1 = Ok i'"
    using step can al by (simp add: map_segment_frame_def page_add res_simps)
  have pg: "4096 dvd ?p" "4096 dvd sf + 4096 * n" using al by simp_all
  note s = map_file_page[OF m loader_step_inv[OF IH(1)] Suc.prems(3)[of n, simplified] pg(2,1) \<open>COPIED \<notin> fl\<close>]
  have range: "(sp \<le> va \<and> va < sp + 4096 * Suc n) \<longleftrightarrow> (va div 4096 * 4096 = ?p \<or> (sp \<le> va \<and> va < ?p))" for va
    using window_bytes[OF pg(1), of va 0 va] by auto
  have "vread view i' va = (if sp \<le> va \<and> va < sp + 4096 * Suc n then Some (mem i (sf + (va - sp))) else vread view i va)" for va
  proof (cases "va div 4096 * 4096 = ?p")
    case True
    then have "sf + (va - sp) = sf + 4096 * n + va mod 4096" using div_mult_mod_eq[of va 4096] by linarith
    then show ?thesis using s(3)[of va] True range[of va] IH(2) by simp
  qed (use s(3)[of va] range[of va] IH(3)[of va] in simp)
  moreover have "vflags view i' q = (if 4096 dvd q \<and> sp \<le> q \<and> q < sp + 4096 * Suc n then Some fl else vflags view i q)" for q
  proof -
    have "q div 4096 * 4096 = q" if "4096 dvd q" using that by simp
    then show ?thesis using s(4)[of q] range[of q] IH(4)[of q] pg(1) by auto
  qed
  moreover have "vflags view i ?p = None"
  proof -
    have "inv (frame_allocator i1)" using loader_step_inv[OF IH(1)] by (simp add: loader_inv_def)
    from map_page_ok(1)[OF m this] have "vflags view i1 ?p = None" by (simp add: vflags_def)
    then show ?thesis using IH(4)[of ?p] by simp
  qed
  ultimately show ?case using loader_step_trans[OF IH(1) s(1)] s(2) IH(2,5) by (simp add: less_Suc_eq)
qed

text \<open>\<open>n\<close> zeroed pages from \<open>sp\<close> on.\<close>

lemma map_zero_pages:
  assumes "foldR (map_bss_page M alloc fl) (map (\<lambda>j. sp + 4096 * j) [0..<n]) i = Ok i'"
    and inv: "loader_inv view inv free F i" and al: "4096 dvd sp" and fl: "COPIED \<notin> fl"
  shows "loader_step view inv free F i i' \<and>
    (\<forall>va. vread view i' va = (if sp \<le> va \<and> va < sp + 4096 * n then Some 0 else vread view i va)) \<and>
    (\<forall>q. vflags view i' q = (if 4096 dvd q \<and> sp \<le> q \<and> q < sp + 4096 * n then Some fl else vflags view i q)) \<and>
    (\<forall>j < n. vflags view i (sp + 4096 * j) = None)"
  using assms(1)
proof (induction n arbitrary: i')
  case 0
  then show ?case using inv by (auto simp: loader_step_refl)
next
  case (Suc n)
  from Suc.prems obtain i1 where i1: "foldR (map_bss_page M alloc fl) (map (\<lambda>j. sp + 4096 * j) [0..<n]) i = Ok i1"
    and step: "map_bss_page M alloc fl (sp + 4096 * n) i1 = Ok i'"
    by (auto simp: res_simps)
  have IH: "loader_step view inv free F i i1"
    "vread view i1 va = (if sp \<le> va \<and> va < sp + 4096 * n then Some 0 else vread view i va)"
    "vflags view i1 q = (if 4096 dvd q \<and> sp \<le> q \<and> q < sp + 4096 * n then Some fl else vflags view i q)"
    "j < n \<Longrightarrow> vflags view i (sp + 4096 * j) = None" for va q j
    using Suc.IH[OF i1] by simp_all
  let ?p = "sp + 4096 * n"
  have pg: "4096 dvd ?p" using al by simp
  note s = map_zero_page[OF step loader_step_inv[OF IH(1)] pg fl]
  have range: "(sp \<le> va \<and> va < sp + 4096 * Suc n) \<longleftrightarrow> (va div 4096 * 4096 = ?p \<or> (sp \<le> va \<and> va < ?p))" for va
    using window_bytes[OF pg(1), of va 0 va] by auto
  have "vread view i' va = (if sp \<le> va \<and> va < sp + 4096 * Suc n then Some 0 else vread view i va)" for va
    using s(3)[of va] range[of va] IH(2)[of va] by simp
  moreover have "vflags view i' q = (if 4096 dvd q \<and> sp \<le> q \<and> q < sp + 4096 * Suc n then Some fl else vflags view i q)" for q
  proof -
    have "q div 4096 * 4096 = q" if "4096 dvd q" using that by simp
    then show ?thesis using s(4)[of q] range[of q] IH(3)[of q] pg(1) by auto
  qed
  moreover have "vflags view i ?p = None"
    using s(2) IH(3)[of ?p] by (simp add: vflags_def)
  ultimately show ?case using loader_step_trans[OF IH(1) s(1)] IH(4) by (simp add: less_Suc_eq)
qed

text \<open>The tail of a page that starts with file data.\<close>

lemma zero_partial_page_spec:
  assumes "zero_partial_page X M alloc vs fs (vs + fs) i = Ok i'" and inv: "loader_inv view inv free F i"
    and half: "same_half vs (vs + fs)"
  shows "loader_step view inv free F i i'" and "vflags view i' = vflags view i"
    and "vread view i' va = (if (vs + fs) mod 4096 \<noteq> 0 \<and> va div 4096 = (vs + fs) div 4096 \<and> vs + fs \<le> va
      then Some 0 else vread view i va)"
proof -
  let ?z = "vs + fs"
  have "loader_step view inv free F i i' \<and> vflags view i' = vflags view i \<and>
    vread view i' va = (if ?z mod 4096 \<noteq> 0 \<and> va div 4096 = ?z div 4096 \<and> ?z \<le> va then Some 0 else vread view i va)"
  proof (cases "?z mod 4096 = 0")
    case True
    then have "i' = i" using assms(1) by (simp add: zero_partial_page_def)
    then show ?thesis using True inv by (simp add: loader_step_refl)
  next
    case False
    then have pos: "0 < ?z" by (cases "?z = 0") auto
    have can: "canonical vs" "canonical ?z" using half by (auto dest: same_half_canonical)
    have cl: "canonical (?z - 1)"
    proof -
      have "?z \<noteq> 2 ^ 64 - 2 ^ 47" using False by auto
      then show ?thesis using can(2) by (auto simp: canonical_def)
    qed
    have page: "(?z - 1) div 4096 = ?z div 4096" using False by (metis Suc_pred' div_Suc pos diff_Suc_1)
    have "virt_add X vs fs = Ok ?z" "virt_sub X ?z 1 = Ok (?z - 1)"
      using can cl pos by (simp_all add: virt_add virt_sub)
    with assms(1) False obtain f i1 where mm: "make_mut M alloc (?z div 4096 * 4096) i = Ok (f, i1)"
      and i': "i' = i1\<lparr>mem := fill_bytes (mem i1) (f + ?z mod 4096) 0 (4096 - ?z mod 4096)\<rparr>"
      by (auto simp: zero_partial_page_def Let_def res_simps page_containing page[simplified])
    note mut = make_mut_private[OF mm inv dvd_triv_right]
    from mut(2) obtain fl where v: "view (page_table i1) (?z div 4096 * 4096) = Some (f, fl)" "COPIED \<in> fl" by blast
    note wr = write_private[OF loader_step_inv[OF mut(1)] v i']
    have out: "fill_bytes (mem i1) (f + ?z mod 4096) 0 (4096 - ?z mod 4096) x = mem i1 x"
      if "\<not> (f \<le> x \<and> x < f + 4096)" for x using that by (auto simp: fill_bytes_apply)
    have same: "va div 4096 * 4096 = ?z div 4096 * 4096 \<longleftrightarrow> va div 4096 = ?z div 4096" by simp
    have ge: "?z \<le> va \<longleftrightarrow> ?z mod 4096 \<le> va mod 4096" if "va div 4096 = ?z div 4096"
      using that div_mult_mod_eq[of va 4096] div_mult_mod_eq[of ?z 4096] by linarith
    have "vread view i' va = (if va div 4096 = ?z div 4096 \<and> ?z \<le> va then Some 0 else vread view i va)"
    proof (cases "va div 4096 = ?z div 4096")
      case True
      have "vread view i' va = Some (fill_bytes (mem i1) (f + ?z mod 4096) 0 (4096 - ?z mod 4096) (f + va mod 4096))"
        using wr(2)[OF out, of va] True by simp
      moreover have "vread view i va = Some (mem i1 (f + va mod 4096))"
        using mut(3) v(1) True by (metis (no_types, lifting) case_prod_conv option.simps(5) vread_def)
      ultimately show ?thesis using True ge[OF True] by (simp add: fill_bytes_apply)
    qed (use wr(2)[OF out, of va] same mut(3) in simp)
    then show ?thesis
      using False wr(3)[OF out] mut(4) loader_step_trans[OF mut(1) wr(1)[OF out]] by simp
  qed
  then show "loader_step view inv free F i i'" and "vflags view i' = vflags view i"
    and "vread view i' va = (if ?z mod 4096 \<noteq> 0 \<and> va div 4096 = ?z div 4096 \<and> ?z \<le> va
      then Some 0 else vread view i va)" by auto
qed

lemma round_up_page:
  fixes z :: nat
  shows "(z + 4095) div 4096 = (if z mod 4096 = 0 then z div 4096 else z div 4096 + 1)"
proof -
  have "z + 4095 = (z mod 4096 + 4095) + z div 4096 * 4096" by simp
  then have "(z + 4095) div 4096 = (z mod 4096 + 4095) div 4096 + z div 4096"
    by (metis div_mult_self1 add.commute zero_neq_numeral)
  moreover have "(z mod 4096 + 4095) div 4096 = (if z mod 4096 = 0 then 0 else 1)"
    using mod_less_divisor[of 4096 z] by (auto intro: div_nat_eqI)
  ultimately show ?thesis by auto
qed

lemma le_page_iff:
  fixes z :: nat
  shows "z \<le> 4096 * k \<longleftrightarrow> (if z mod 4096 = 0 then z div 4096 else z div 4096 + 1) \<le> k"
proof -
  obtain d m where z: "z = 4096 * d + m" "d = z div 4096" "m = z mod 4096" "m < 4096" by simp
  have "4096 * d + m \<le> 4096 * k \<longleftrightarrow> (if m = 0 then d else d + 1) \<le> k"
    using z(4) by (cases "m = 0") (simp, simp only: if_False, linarith)
  then show ?thesis unfolding z(2,3) by simp
qed

text \<open>The whole pages of the zeroed part: those from \<open>z\<close> rounded up to the page of \<open>e\<close>.\<close>

lemma bss_pages:
  assumes half: "same_half z e" and "z \<le> e"
    and up: "align_up X z 4096 = Ok up" and st: "virt_new X up = Ok st"
  shows "page_range X (page_containing X st) (page_containing X e) =
      map (\<lambda>j. up + 4096 * j) [0..<e div 4096 + 1 - up div 4096]"
    and "4096 dvd up" and "up div 4096 = (if z mod 4096 = 0 then z div 4096 else z div 4096 + 1)"
    and "up div 4096 \<le> e div 4096 + 1"
proof -
  from up have u: "up = (z + 4095) div 4096 * 4096" by (auto simp: align_up split: if_splits)
  then show al: "4096 dvd up" by simp
  note q = round_up_page[of z]
  then show ud: "up div 4096 = (if z mod 4096 = 0 then z div 4096 else z div 4096 + 1)" by (simp add: u)
  have "z div 4096 \<le> e div 4096" using \<open>z \<le> e\<close> by (rule div_le_mono)
  then show le: "up div 4096 \<le> e div 4096 + 1" by (simp add: ud)
  have se: "sign_extend up = Some st" using st by (auto simp: virt_new split: option.splits)
  have "z \<le> up" by (simp add: u q) (use div_mult_mod_eq[of z 4096] mod_less_divisor[of 4096 z] in linarith)
  show "page_range X (page_containing X st) (page_containing X e) =
      map (\<lambda>j. up + 4096 * j) [0..<e div 4096 + 1 - up div 4096]"
  proof (cases "up \<le> e div 4096 * 4096")
    case True
    then have "up \<le> e" using div_times_less_eq_dividend[of e 4096] by linarith
    then have h: "same_half up e" using same_half_between[OF half \<open>z \<le> up\<close>] by blast
    then have "st = up" using se by (auto dest: same_half_canonical)
    moreover have "up div 4096 \<le> e div 4096" using \<open>up \<le> e\<close> by (rule div_le_mono)
    moreover have "(e div 4096 * 4096 - up) div 4096 = e div 4096 - up div 4096"
      using al by (auto elim!: dvdE simp flip: diff_mult_distrib2 simp: mult.commute[of _ 4096])
    ultimately show ?thesis
      using page_range_steps[OF h \<open>up \<le> e\<close>] al True by (simp add: steps_of_def Suc_diff_le)
  next
    case False
    have "up \<le> st" using se by (auto simp: sign_extend_def split: if_splits)
    then have "e div 4096 * 4096 < st div 4096 * 4096"
      using False al div_le_mono[of up st 4096] by (auto elim!: dvdE)
    then have "page_range X (page_containing X st) (page_containing X e) = []"
      by (simp add: page_containing page_range_empty)
    moreover have "e div 4096 + 1 - up div 4096 = 0" using False al by (auto elim!: dvdE)
    ultimately show ?thesis by simp
  qed
qed

lemma handle_bss_section_spec:
  assumes "handle_bss_section X M alloc seg fl i = Ok i'" and inv: "loader_inv view inv free F i"
    and "COPIED \<notin> fl" and vs: "vao_add (vao i) (ph_virtual_addr seg) = Ok vs"
    and half: "same_half vs (vs + ph_mem_size seg)" and lt: "ph_file_size seg < ph_mem_size seg"
  defines "z \<equiv> vs + ph_file_size seg" and "e \<equiv> vs + ph_mem_size seg - 1"
  shows "loader_step view inv free F i i'"
    and "vread view i' va = (if z \<le> va \<and> va div 4096 \<le> e div 4096 then Some 0 else vread view i va)"
    and "vflags view i' q = (if 4096 dvd q \<and> z \<le> q \<and> q \<le> e then Some fl else vflags view i q)"
    and "4096 dvd q \<Longrightarrow> z \<le> q \<Longrightarrow> q \<le> e \<Longrightarrow> vflags view i q = None"
proof -
  have ze: "z \<le> e" "vs \<le> z" "e < vs + ph_mem_size seg" using lt by (simp_all add: z_def e_def)
  have hz: "same_half vs z" "same_half z e"
    using half ze by (auto simp: same_half_def z_def e_def)
  have can: "canonical vs" "canonical z" "canonical (vs + ph_mem_size seg)" "canonical e"
    using half hz by (auto dest: same_half_canonical)
  have pre: "virt_new X vs = Ok vs" "virt_add X vs (ph_file_size seg) = Ok z"
    "virt_add X vs (ph_mem_size seg) = Ok (vs + ph_mem_size seg)" "virt_sub X (vs + ph_mem_size seg) 1 = Ok e"
    using can lt by (simp_all add: virt_new virt_add virt_sub z_def e_def)
  from assms(1) obtain i1 up st where i1: "zero_partial_page X M alloc vs (ph_file_size seg) z i = Ok i1"
    and up: "align_up X z 4096 = Ok up" and st: "virt_new X up = Ok st"
    and loop: "foldR (map_bss_page M alloc fl) (page_range X (page_containing X st) (page_containing X e)) i1 = Ok i'"
    by (auto simp: handle_bss_section_def vs pre[simplified] Let_def res_simps)
  note b = bss_pages[OF hz(2) ze(1) up st]
  note zp = zero_partial_page_spec[OF i1[unfolded z_def] inv hz(1)[unfolded z_def], folded z_def]
  define n where "n = e div 4096 + 1 - up div 4096"
  have up4: "up = up div 4096 * 4096" using b(2) by simp
  note mz = map_zero_pages[OF loop[unfolded b(1)] loader_step_inv[OF zp(1)] b(2) assms(3), folded n_def]
  have whole: "up \<le> va \<and> va < up + 4096 * n \<longleftrightarrow> up div 4096 \<le> va div 4096 \<and> va div 4096 \<le> e div 4096" for va
  proof -
    have "up + 4096 * n = (e div 4096 + 1) * 4096" using up4 b(4) by (simp add: n_def)
    then show ?thesis using up4 less_eq_div_iff_mult_less_eq[of 4096 "up div 4096" va]
        div_less_iff_less_mult[of 4096 va "e div 4096 + 1"] by auto
  qed
  show "loader_step view inv free F i i'" using mz zp(1) loader_step_trans by blast
  show "vread view i' va = (if z \<le> va \<and> va div 4096 \<le> e div 4096 then Some 0 else vread view i va)"
  proof -
    have "vread view i' va = (if up div 4096 \<le> va div 4096 \<and> va div 4096 \<le> e div 4096 then Some 0
        else if z mod 4096 \<noteq> 0 \<and> va div 4096 = z div 4096 \<and> z \<le> va then Some 0 else vread view i va)"
      using mz zp(3)[of va] whole[of va] by simp
    moreover have "z div 4096 \<le> e div 4096" using ze(1) by (rule div_le_mono)
    moreover have "z \<le> va \<longleftrightarrow> z div 4096 < va div 4096 \<or> (va div 4096 = z div 4096 \<and> z mod 4096 \<le> va mod 4096)"
      using div_mult_mod_eq[of va 4096] div_mult_mod_eq[of z 4096] mod_less_divisor[of 4096 va]
        mod_less_divisor[of 4096 z] by linarith
    ultimately show ?thesis using b(3) by (auto split: if_splits)
  qed
  have aligned: "z \<le> q \<and> q \<le> e \<longleftrightarrow> up \<le> q \<and> q < up + 4096 * n" if "4096 dvd q"
  proof -
    from that obtain k where k: "q = 4096 * k" by (auto elim: dvdE)
    have "z \<le> q \<longleftrightarrow> up div 4096 \<le> q div 4096" unfolding b(3) using le_page_iff[of z k] by (simp add: k)
    moreover have "q \<le> e \<longleftrightarrow> q div 4096 \<le> e div 4096" by (auto simp: k)
    ultimately show ?thesis using whole[of q] by simp
  qed
  then show "vflags view i' q = (if 4096 dvd q \<and> z \<le> q \<and> q \<le> e then Some fl else vflags view i q)"
    using mz zp(2) by auto
  show "vflags view i q = None" if q: "4096 dvd q" "z \<le> q" "q \<le> e"
    by (rule unmapped_pages[OF q(1) b(2), where n = n]) (use aligned mz zp(2) q in simp_all)
qed

text \<open>The pages (or frames) that hold the \<open>n\<close> bytes from \<open>a\<close> on.\<close>

lemma below_pages_iff:
  fixes a :: nat
  assumes "4096 dvd q" and "p = a div 4096 * 4096"
  shows "q < p + 4096 * ((a mod 4096 + n + 4095) div 4096) \<longleftrightarrow> q < a + n"
proof -
  obtain k where k: "q = 4096 * k" using assms(1) by (auto elim: dvdE)
  define z where "z = a + n"
  have "z + 4095 = (a mod 4096 + n + 4095) + a div 4096 * 4096" by (simp add: z_def)
  then have "(z + 4095) div 4096 = (a mod 4096 + n + 4095) div 4096 + a div 4096"
    by (metis div_mult_self1 add.commute zero_neq_numeral)
  then have "p + 4096 * ((a mod 4096 + n + 4095) div 4096) = 4096 * ((z + 4095) div 4096)"
    by (simp add: assms(2))
  then show ?thesis using le_page_iff[of z k] round_up_page[of z] by (auto simp: k z_def not_le)
qed

lemma file_frames:
  assumes pos: "0 < ps + fs"
  shows "frame_range X (frame_containing X ps) (frame_containing X (ps + fs - 1)) =
    map (\<lambda>j. ps div 4096 * 4096 + 4096 * j) [0..<(ps mod 4096 + fs + 4095) div 4096]"
proof -
  define sf c where "sf = ps div 4096 * 4096" and "c = ps mod 4096 + fs"
  have z: "ps + fs = sf + c" by (simp add: sf_def c_def)
  have al: "4096 dvd sf" by (simp add: sf_def)
  have fr: "frame_range X (frame_containing X ps) (frame_containing X (ps + fs - 1)) =
      steps_of sf ((sf + c - 1) div 4096 * 4096)"
    using al by (simp add: frame_containing frame_range flip: sf_def z)
  show ?thesis
  proof (cases "c = 0")
    case True
    then have "0 < sf" using pos z by simp
    then have "(sf - 1) div 4096 * 4096 < sf" using div_times_less_eq_dividend[of "sf - 1" 4096] by linarith
    then show ?thesis using fr True by (simp add: steps_of_def flip: sf_def c_def)
  next
    case False
    then have "sf + c - 1 = (c - 1) + sf div 4096 * 4096" using al by simp
    then have "(sf + c - 1) div 4096 = (c - 1) div 4096 + sf div 4096"
      by (metis div_mult_self1 add.commute zero_neq_numeral)
    then have "(sf + c - 1) div 4096 * 4096 = sf + (c - 1) div 4096 * 4096" using al by (simp add: distrib_right)
    moreover have "(c + 4095) div 4096 = (c - 1) div 4096 + 1"
    proof -
      have "c + 4095 = (c - 1) + 1 * 4096" using False by simp
      then show ?thesis by (metis div_mult_self1 zero_neq_numeral add.commute)
    qed
    ultimately show ?thesis using fr by (simp add: steps_of_def flip: sf_def c_def)
  qed
qed

text \<open>The pages that hold the file data of a segment: \<open>fs\<close> bytes at \<open>ps\<close>, mapped at \<open>vs\<close>.\<close>

lemma segment_file_pages:
  assumes loop: "foldR (map_segment_frame X M alloc fl (frame_containing X ps) (page_containing X vs))
        (frame_range X (frame_containing X ps) (frame_containing X (ps + fs - 1))) i = Ok i'"
    and inv: "loader_inv view inv free F i" and nc: "COPIED \<notin> fl"
    and half: "same_half vs (vs + fs)" and pos: "0 < ps + fs" and congr: "ps mod 4096 = vs mod 4096"
    and F: "frames_of ps fs \<subseteq> F"
  shows "loader_step view inv free F i i'"
    and "vs \<le> va \<Longrightarrow> va < vs + fs \<Longrightarrow> vread view i' va = Some (mem i (ps + (va - vs)))"
    and "va div 4096 * 4096 < vs div 4096 * 4096 \<or> vs + fs \<le> va div 4096 * 4096 \<Longrightarrow>
      vread view i' va = vread view i va"
    and "vflags view i' q = (if 4096 dvd q \<and> vs div 4096 * 4096 \<le> q \<and> q < vs + fs then Some fl else vflags view i q)"
    and "4096 dvd q \<Longrightarrow> vs div 4096 * 4096 \<le> q \<Longrightarrow> q < vs + fs \<Longrightarrow> vflags view i q = None"
proof -
  define sf sp n where "sf = ps div 4096 * 4096" and sp: "sp = vs div 4096 * 4096"
    and "n = (ps mod 4096 + fs + 4095) div 4096"
  have al: "4096 dvd sf" "4096 dvd sp" by (simp_all add: sf_def sp)
  have below: "q < sp + 4096 * n \<longleftrightarrow> q < vs + fs" if "4096 dvd q" for q
    using below_pages_iff[OF that sp] by (simp add: n_def congr)
  have belowF: "f < sf + 4096 * n \<longleftrightarrow> f < ps + fs" if "4096 dvd f" for f
    using below_pages_iff[OF that sf_def] by (simp add: n_def)
  have half_j: "same_half sp (sp + 4096 * j)" if "j < n" for j
  proof -
    have "sp + 4096 * j < vs + fs" using that below[of "sp + 4096 * j"] al by simp
    then show ?thesis
      using same_half_align_down[OF half] by (auto simp: same_half_def simp flip: sp)
  qed
  have Fj: "sf + 4096 * j \<in> F" if "j < n" for j
    using that belowF[of "sf + 4096 * j"] al by (intro subsetD[OF F]) (simp add: sf_def frames_of_def)
  have m: "loader_step view inv free F i i'"
    "vread view i' va = (if sp \<le> va \<and> va < sp + 4096 * n then Some (mem i (sf + (va - sp))) else vread view i va)"
    "vflags view i' q = (if 4096 dvd q \<and> sp \<le> q \<and> q < sp + 4096 * n then Some fl else vflags view i q)"
    "\<forall>j < n. vflags view i (sp + 4096 * j) = None" for va q
    using map_segment_frames[OF loop[unfolded file_frames[OF pos], unfolded frame_containing page_containing,
          folded sf_def sp n_def] inv al nc half_j Fj] by simp_all
  show "loader_step view inv free F i i'" by (rule m(1))
  have z_up: "vs + fs \<le> sp + 4096 * n"
    using below[of "sp + 4096 * n"] al by (simp add: not_less[symmetric])
  have sp_le: "sp \<le> vs" by (simp add: sp)
  show "vread view i' va = Some (mem i (ps + (va - vs)))" if "vs \<le> va" "va < vs + fs"
  proof -
    have "sf + (va - sp) = ps + (va - vs)"
      using that div_mult_mod_eq[of ps 4096] div_mult_mod_eq[of vs 4096] congr sp_le
      unfolding sf_def sp by linarith
    then show ?thesis using m(2)[of va] that sp_le z_up by simp
  qed
  show "vread view i' va = vread view i va"
    if "va div 4096 * 4096 < vs div 4096 * 4096 \<or> vs + fs \<le> va div 4096 * 4096"
  proof -
    have "va < sp \<or> sp + 4096 * n \<le> va"
      using that below[of "va div 4096 * 4096"] al div_times_less_eq_dividend[of va 4096]
      by (auto simp: not_less[symmetric] simp flip: sp intro: div_le_mono elim!: dvdE)
    then show ?thesis using m(2)[of va] by auto
  qed
  show "vflags view i' q = (if 4096 dvd q \<and> vs div 4096 * 4096 \<le> q \<and> q < vs + fs then Some fl else vflags view i q)"
    using m(3)[of q] below[of q] by (auto simp: sp)
  show "vflags view i q = None" if q: "4096 dvd q" "vs div 4096 * 4096 \<le> q" "q < vs + fs"
    by (rule unmapped_pages[OF q(1) al(2) _ _ m(4)]) (use q below[of q] in \<open>simp_all add: sp\<close>)
qed

text \<open>
  A \<open>LOAD\<close> segment at the virtual address \<open>vs\<close>, its data at \<open>ps\<close> in physical memory.
\<close>

lemma handle_load_segment_spec:
  assumes ok: "handle_load_segment X M alloc seg i = Ok i'" and inv: "loader_inv view inv free F i"
    and vs: "vao_add (vao i) (ph_virtual_addr seg) = Ok vs"
    and half: "same_half vs (vs + ph_mem_size seg)" and sizes: "ph_file_size seg \<le> ph_mem_size seg"
    and ps: "ps = kernel_offset i + ph_offset seg" and congr: "ps mod 4096 = vs mod 4096"
    and F: "frames_of ps (ph_file_size seg) \<subseteq> F"
  defines "z \<equiv> vs + ph_file_size seg" and "e \<equiv> vs + ph_mem_size seg"
  shows "loader_step view inv free F i i'"
    and "vs \<le> va \<Longrightarrow> va < z \<Longrightarrow> vread view i' va = Some (mem i (ps + (va - vs)))"
    and "z \<le> va \<Longrightarrow> va < e \<Longrightarrow> vread view i' va = Some 0"
    and "va div 4096 * 4096 < vs div 4096 * 4096 \<or> e \<le> va div 4096 * 4096 \<Longrightarrow> vread view i' va = vread view i va"
    and "vflags view i' q = (if 4096 dvd q \<and> vs div 4096 * 4096 \<le> q \<and> q < e then Some (segment_flags seg)
      else vflags view i q)"
    and "4096 dvd q \<Longrightarrow> vs div 4096 * 4096 \<le> q \<Longrightarrow> q < e \<Longrightarrow> vflags view i q = None"
proof -
  have ze: "z \<le> e" "vs \<le> z" using sizes by (simp_all add: z_def e_def)
  have nc: "COPIED \<notin> segment_flags seg" by (simp add: segment_flags_def)
  have can: "canonical vs" using half by (auto dest: same_half_canonical)
  have hz: "same_half vs z" using same_half_between[OF half[folded e_def] ze(2,1)] by blast
  from ok obtain i1 where
      pos: "1 \<le> ps + ph_file_size seg"
    and loop: "foldR (map_segment_frame X M alloc (segment_flags seg) (frame_containing X ps) (page_containing X vs))
        (frame_range X (frame_containing X ps) (frame_containing X (ps + ph_file_size seg - 1))) i = Ok i1"
    and rest: "(if ph_mem_size seg > ph_file_size seg
        then handle_bss_section X M alloc seg (segment_flags seg) i1 else Ok i1) = Ok i'"
    by (auto simp: handle_load_segment_def phys_add phys_sub vs virt_new can Let_def res_simps
        simp flip: ps split: if_splits)
  have pos': "0 < ps + ph_file_size seg" using pos by linarith
  note m = segment_file_pages[OF loop inv nc hz[unfolded z_def] pos' congr F, folded z_def]
  have vao1: "vao i1 = vao i" using m(1) by (simp add: loader_step_def)
  have bss: "loader_step view inv free F i1 i'"
    "vread view i' va = (if z < e \<and> z \<le> va \<and> va div 4096 \<le> (e - 1) div 4096 then Some 0 else vread view i1 va)"
    "vflags view i' q = (if 4096 dvd q \<and> z \<le> q \<and> q < e then Some (segment_flags seg) else vflags view i1 q)"
    "4096 dvd q \<Longrightarrow> z \<le> q \<Longrightarrow> q < e \<Longrightarrow> vflags view i1 q = None" for va q
  proof -
    have "loader_step view inv free F i1 i' \<and>
      vread view i' va = (if z < e \<and> z \<le> va \<and> va div 4096 \<le> (e - 1) div 4096 then Some 0 else vread view i1 va) \<and>
      vflags view i' q = (if 4096 dvd q \<and> z \<le> q \<and> q < e then Some (segment_flags seg) else vflags view i1 q) \<and>
      (4096 dvd q \<and> z \<le> q \<and> q < e \<longrightarrow> vflags view i1 q = None)"
    proof (cases "ph_mem_size seg > ph_file_size seg")
      case True
      then have b: "handle_bss_section X M alloc seg (segment_flags seg) i1 = Ok i'" using rest by simp
      have "z < e" using True by (simp add: z_def e_def)
      then show ?thesis
        using handle_bss_section_spec[OF b loader_step_inv[OF m(1)] nc vs[folded vao1] half True, folded z_def e_def]
        by auto
    next
      case False
      then have "z = e" "i1 = i'" using rest sizes by (simp_all add: z_def e_def)
      then show ?thesis using loader_step_refl[OF loader_step_inv[OF m(1)]] by auto
    qed
    then show "loader_step view inv free F i1 i'"
      and "vread view i' va = (if z < e \<and> z \<le> va \<and> va div 4096 \<le> (e - 1) div 4096 then Some 0 else vread view i1 va)"
      and "vflags view i' q = (if 4096 dvd q \<and> z \<le> q \<and> q < e then Some (segment_flags seg) else vflags view i1 q)"
      and "4096 dvd q \<Longrightarrow> z \<le> q \<Longrightarrow> q < e \<Longrightarrow> vflags view i1 q = None"
      by blast+
  qed
  show "loader_step view inv free F i i'" by (rule loader_step_trans[OF m(1) bss(1)])
  show "vread view i' va = Some (mem i (ps + (va - vs)))" if "vs \<le> va" "va < z"
    using bss(2)[of va] m(2)[OF that] that by simp
  show "vread view i' va = Some 0" if "z \<le> va" "va < e"
    using bss(2)[of va] that by (simp add: div_le_mono)
  show "vread view i' va = vread view i va"
    if out: "va div 4096 * 4096 < vs div 4096 * 4096 \<or> e \<le> va div 4096 * 4096"
  proof -
    have "\<not> (z < e \<and> z \<le> va \<and> va div 4096 \<le> (e - 1) div 4096)"
    proof
      assume a: "z < e \<and> z \<le> va \<and> va div 4096 \<le> (e - 1) div 4096"
      then have "vs div 4096 \<le> va div 4096" using ze by (intro div_le_mono) simp
      moreover have "(e - 1) div 4096 * 4096 < e"
        using a div_times_less_eq_dividend[of "e - 1" 4096] by linarith
      ultimately show False using a out mult_le_mono1[of "va div 4096" "(e - 1) div 4096" 4096] by simp
    qed
    then have "vread view i' va = vread view i1 va" using bss(2)[of va] by (simp only: if_False)
    also have "\<dots> = vread view i va" by (rule m(3)) (use out ze in auto)
    finally show ?thesis .
  qed
  have "vs div 4096 * 4096 \<le> vs" by simp
  then show "vflags view i' q = (if 4096 dvd q \<and> vs div 4096 * 4096 \<le> q \<and> q < e then Some (segment_flags seg)
      else vflags view i q)"
    using bss(3)[of q] m(4)[of q] ze by auto
  show "vflags view i q = None" if q: "4096 dvd q" "vs div 4096 * 4096 \<le> q" "q < e"
    using bss(4)[OF q(1) _ q(3)] m(4)[of q] m(5)[OF q(1,2)] by (cases "q < z") auto
qed

text \<open>The image of a segment depends only on its pages.\<close>

lemma segment_image_cong:
  assumes "segment_image view m h i" and "segment_protected view h i"
    and "kernel_offset i' = kernel_offset i" and "vao i' = vao i"
    and same: "\<And>va. vflags view i (va div 4096 * 4096) \<noteq> None \<Longrightarrow> vread view i' va = vread view i va"
  shows "segment_image view m h i'"
proof -
  from assms(1) obtain vs where vs: "vao_add (vao i) (ph_virtual_addr h) = Ok vs"
    by (auto simp: segment_image_def split: res.splits)
  have "vread view i' (vs + k) = vread view i (vs + k)" if "k < ph_mem_size h" for k
  proof (rule same)
    have "vs div 4096 * 4096 \<le> (vs + k) div 4096 * 4096" by (simp add: div_le_mono)
    moreover have "(vs + k) div 4096 * 4096 < vs + ph_mem_size h"
      using that div_times_less_eq_dividend[of "vs + k" 4096] by linarith
    ultimately show "vflags view i ((vs + k) div 4096 * 4096) \<noteq> None"
      using assms(2) vs by (simp add: segment_protected_def)
  qed
  then show ?thesis using assms(1,3,4) vs by (simp add: segment_image_def)
qed

lemma segment_protected_cong:
  assumes "segment_protected view h i" and "vao i' = vao i"
    and "\<And>q. vflags view i q \<noteq> None \<Longrightarrow> vflags view i' q = vflags view i q"
  shows "segment_protected view h i'"
  using assms by (auto simp: segment_protected_def split: res.splits)

text \<open>One \<open>LOAD\<close> segment: its image appears, and no page that was mapped before changes.\<close>

lemma load_segment_image:
  assumes ok: "handle_load_segment X M alloc h i = Ok i'" and inv: "loader_inv view inv free F i"
    and l: "loadable F i h"
  shows "loader_step view inv free F i i'" and "segment_image view (mem i) h i'"
    and "segment_protected view h i'"
    and "vflags view i (va div 4096 * 4096) \<noteq> None \<Longrightarrow> vread view i' va = vread view i va"
    and "vflags view i q \<noteq> None \<Longrightarrow> vflags view i' q = vflags view i q"
proof -
  define ps where "ps = kernel_offset i + ph_offset h"
  from l obtain vs where vs: "vao_add (vao i) (ph_virtual_addr h) = Ok vs"
    and half: "same_half vs (vs + ph_mem_size h)" and sizes: "ph_file_size h \<le> ph_mem_size h"
    and congr: "ps mod 4096 = vs mod 4096" and F: "frames_of ps (ph_file_size h) \<subseteq> F"
    by (auto simp: loadable_def ps_def split: res.splits)
  note s = handle_load_segment_spec[OF ok inv vs half sizes ps_def congr F]
  show step: "loader_step view inv free F i i'" by (rule s(1))
  then have same: "vao i' = vao i" "kernel_offset i' = kernel_offset i" by (simp_all add: loader_step_def)
  show "segment_image view (mem i) h i'"
    using s(2)[of "vs + k" for k] s(3)[of "vs + k" for k] vs same by (auto simp: segment_image_def ps_def)
  show "segment_protected view h i'"
    using s(5) vs same by (simp add: segment_protected_def)
  show "vread view i' va = vread view i va" if "vflags view i (va div 4096 * 4096) \<noteq> None"
    using s(4)[of va] s(6)[of "va div 4096 * 4096"] that by fastforce
  show "vflags view i' q = vflags view i q" if "vflags view i q \<noteq> None"
    using s(5)[of q] s(6)[of q] that by auto
qed

lemma loadable_cong:
  "vao i' = vao i \<Longrightarrow> kernel_offset i' = kernel_offset i \<Longrightarrow> loadable F i' h = loadable F i h"
  by (simp add: loadable_def split: res.splits)

lemma segment_image_file:
  assumes "segment_image view m h i" and "loadable F i h" and "\<And>a. in_frames F a \<Longrightarrow> m' a = m a"
  shows "segment_image view m' h i"
proof -
  have "m' (kernel_offset i + ph_offset h + k) = m (kernel_offset i + ph_offset h + k)"
    if "k < ph_file_size h" for k
  proof (rule assms(3))
    let ?a = "kernel_offset i + ph_offset h"
    have "?a div 4096 * 4096 \<le> (?a + k) div 4096 * 4096" by (simp add: div_le_mono)
    moreover have "(?a + k) div 4096 * 4096 < ?a + ph_file_size h"
      using that div_times_less_eq_dividend[of "?a + k" 4096] by linarith
    ultimately have "(?a + k) div 4096 * 4096 \<in> frames_of ?a (ph_file_size h)"
      unfolding frames_of_def by simp
    moreover have "frames_of ?a (ph_file_size h) \<subseteq> F"
      using assms(2) unfolding loadable_def by (simp split: res.splits)
    ultimately show "in_frames F (?a + k)" unfolding in_frames_def by (rule subsetD[rotated])
  qed
  then show ?thesis using assms(1) by (auto simp: segment_image_def split: res.splits)
qed

text \<open>The first loop of \<open>load_segments\<close>.\<close>

lemma load_loop_image:
  assumes ok: "foldR (load_segment X M alloc) hs (None, i) = Ok (tls, i')" and inv: "loader_inv view inv free F i"
    and l: "\<forall>h \<in> set hs. get_type h = Ok Load \<longrightarrow> loadable F i h"
  shows "loader_step view inv free F i i'"
    and "h \<in> set hs \<Longrightarrow> get_type h = Ok Load \<Longrightarrow> segment_image view (mem i) h i' \<and> segment_protected view h i'"
proof -
  let ?I = "\<lambda>ys s. loader_step view inv free F i (snd s) \<and>
    (\<forall>h \<in> set ys. get_type h = Ok Load \<longrightarrow>
       segment_image view (mem i) h (snd s) \<and> segment_protected view h (snd s))"
  have "?I hs (tls, i')"
  proof (rule foldR_invariant[OF ok])
    fix ys z zs s s'
    assume split: "hs = ys @ z # zs" and I: "?I ys s" and step: "load_segment X M alloc z s = Ok s'"
    show "?I (ys @ [z]) s'"
    proof (cases "get_type z = Ok Load")
      case True
      have inv': "loader_inv view inv free F (snd s)" using I loader_step_inv by blast
      have same: "vao (snd s) = vao i" "kernel_offset (snd s) = kernel_offset i"
        using I by (auto simp: loader_step_def)
      have lz: "loadable F (snd s) z" using l True split loadable_cong[OF same] by simp
      from step True have hl: "handle_load_segment X M alloc z (snd s) = Ok (snd s')"
        by (auto simp: load_segment_def split_def res_simps)
      note n = load_segment_image[OF hl inv' lz]
      have same': "vao (snd s') = vao (snd s)" "kernel_offset (snd s') = kernel_offset (snd s)"
        using n(1) by (auto simp: loader_step_def)
      have z: "segment_image view (mem i) z (snd s')"
      proof (rule segment_image_file[OF n(2)])
        show "loadable F (snd s') z" using lz loadable_cong[OF same'] by simp
        show "mem i a = mem (snd s) a" if "in_frames F a" for a using that I by (simp add: loader_step_def)
      qed
      have old: "segment_image view (mem i) h (snd s') \<and> segment_protected view h (snd s')"
        if "h \<in> set ys" "get_type h = Ok Load" for h
      proof -
        have h: "segment_image view (mem i) h (snd s)" "segment_protected view h (snd s)" using that I by auto
        show ?thesis
          using segment_image_cong[OF h same'(2,1) n(4)] segment_protected_cong[OF h(2) same'(1) n(5)] by blast
      qed
      have "loader_step view inv free F i (snd s')" by (rule loader_step_trans[OF conjunct1[OF I] n(1)])
      then show ?thesis using z n(3) old by simp
    next
      case False
      from step obtain t where t: "get_type z = Ok t" by (auto simp: load_segment_def split_def res_simps)
      with step False have "snd s' = snd s"
        by (cases t) (auto simp: load_segment_def split_def res_simps split: if_splits)
      then show ?thesis using I False by auto
    qed
  qed (simp add: loader_step_refl[OF inv])
  then show "loader_step view inv free F i i'"
    and "h \<in> set hs \<Longrightarrow> get_type h = Ok Load \<Longrightarrow> segment_image view (mem i) h i' \<and> segment_protected view h i'"
    by auto
qed

end

end
