(* ===== verification/Kernel_Loader.thy ===== *)
theory Kernel_Loader
  imports Kernel_Image
begin

text \<open>
  The remaining passes of the kernel loader (\<^verbatim>\<open>src/common/src/load_kernel.rs\<close>): relocations,
  page protection, the thread local storage template and \<open>load_segments\<close> as a whole, with the
  properties of the loader.  The contract \<open>kernel_loader\<close> is met by the four-level page table
  over the bootloader's frame allocator.
\<close>

section \<open>Specification vocabulary\<close>

text \<open>The pages of a segment, and a segment that lies in one half of the address space.\<close>

definition pages_of_segment :: "virtual_address_offset \<Rightarrow> program_header \<Rightarrow> nat set" where
  "pages_of_segment v h =
     (case vao_add v (ph_virtual_addr h) of
        Ok vs \<Rightarrow> {q. 4096 dvd q \<and> vs div 4096 * 4096 \<le> q \<and> q < vs + ph_mem_size h}
      | _ \<Rightarrow> {})"

definition in_half :: "virtual_address_offset \<Rightarrow> program_header \<Rightarrow> bool" where
  "in_half v h \<longleftrightarrow>
     (case vao_add v (ph_virtual_addr h) of Ok vs \<Rightarrow> same_half vs (vs + ph_mem_size h) | _ \<Rightarrow> False)"

text \<open>A \<open>GNU_RELRO\<close> segment on pages of \<open>LOAD\<close> segments.\<close>

definition relro_inside :: "program_header list \<Rightarrow> virtual_address_offset \<Rightarrow> program_header \<Rightarrow> bool" where
  "relro_inside hs v h \<longleftrightarrow> in_half v h \<and>
     pages_of_segment v h \<subseteq> (\<Union>l \<in> set (filter (\<lambda>l. get_type l = Ok Load) hs). pages_of_segment v l)"

text \<open>Two states that differ in their page tables only.\<close>

definition same_memory :: "('pt, 'fa) inner \<Rightarrow> ('pt, 'fa) inner \<Rightarrow> bool" where
  "same_memory i i' \<longleftrightarrow> kernel_offset i' = kernel_offset i \<and> vao i' = vao i \<and>
     frame_allocator i' = frame_allocator i \<and> mem i' = mem i"

section \<open>Page protection\<close>

context kernel_loader
begin

lemma drop_flag_spec:
  assumes "drop_flag M fl p i = Ok i'" and p: "4096 dvd p" and "view (page_table i) p \<noteq> None"
  shows "\<exists>f g. view (page_table i) p = Some (f, g) \<and>
    view (page_table i') = (view (page_table i))(p \<mapsto> (f, g - {fl})) \<and> same_memory i i'"
proof -
  from assms(3) obtain f g where v: "view (page_table i) p = Some (f, g)" by auto
  note t = translate_mapped[OF p v]
  show ?thesis
  proof (cases "fl \<in> g")
    case True
    with assms(1) t obtain pt where u: "update_flags M p (g - {fl}) (page_table i) = Some pt"
      and i': "i' = i\<lparr>page_table := pt\<rparr>"
      by (auto simp: drop_flag_def res_simps)
    from update_flags_view[OF u] v have "view pt = (view (page_table i))(p \<mapsto> (f, g - {fl}))" by auto
    then show ?thesis using v i' by (auto simp: same_memory_def)
  next
    case False
    with assms(1) t have "i' = i" by (simp add: drop_flag_def)
    moreover have "(view (page_table i))(p \<mapsto> (f, g - {fl})) = view (page_table i)"
      using False v by (auto simp: fun_eq_iff)
    ultimately show ?thesis using v by (auto simp: same_memory_def)
  qed
qed

lemma drop_flags_spec:
  assumes ok: "foldR (drop_flag M fl) ps i = Ok i'"
    and al: "\<forall>p \<in> set ps. 4096 dvd p \<and> view (page_table i) p \<noteq> None"
  shows "same_memory i i'"
    and "view (page_table i') q = (if q \<in> set ps then map_option (\<lambda>(f, g). (f, g - {fl})) (view (page_table i) q)
      else view (page_table i) q)"
proof -
  have "same_memory i i' \<and>
    (\<forall>q. view (page_table i') q = (if q \<in> set ps then map_option (\<lambda>(f, g). (f, g - {fl})) (view (page_table i) q)
      else view (page_table i) q))"
  proof (rule foldR_invariant[OF ok])
    fix ys z zs s s'
    assume split: "ps = ys @ z # zs" and I: "same_memory i s \<and>
      (\<forall>q. view (page_table s) q = (if q \<in> set ys then map_option (\<lambda>(f, g). (f, g - {fl})) (view (page_table i) q)
      else view (page_table i) q))"
      and step: "drop_flag M fl z s = Ok s'"
    have z: "4096 dvd z" "view (page_table s) z \<noteq> None" using al split I by auto
    obtain f g where d: "view (page_table s) z = Some (f, g)"
      "view (page_table s') = (view (page_table s))(z \<mapsto> (f, g - {fl}))" "same_memory s s'"
      using drop_flag_spec[OF step z] by blast
    have "same_memory i s'" using I d(3) by (simp add: same_memory_def)
    moreover have "view (page_table s') q = (if q \<in> set (ys @ [z])
      then map_option (\<lambda>(f, g). (f, g - {fl})) (view (page_table i) q) else view (page_table i) q)" for q
      using I d(1) unfolding d(2) by (auto split: if_splits option.splits)
    ultimately show "same_memory i s' \<and>
      (\<forall>q. view (page_table s') q = (if q \<in> set (ys @ [z])
        then map_option (\<lambda>(f, g). (f, g - {fl})) (view (page_table i) q) else view (page_table i) q))"
      by simp
  qed (simp add: same_memory_def)
  then show "same_memory i i'"
    and "view (page_table i') q = (if q \<in> set ps then map_option (\<lambda>(f, g). (f, g - {fl})) (view (page_table i) q)
      else view (page_table i) q)" by blast+
qed

lemma segment_pages_set:
  assumes "segment_pages X h v = Ok ps" and "in_half v h"
  shows "set ps = pages_of_segment v h" and "p \<in> set ps \<Longrightarrow> 4096 dvd p"
proof -
  from assms(2) obtain vs where vs: "vao_add v (ph_virtual_addr h) = Ok vs"
    and half: "same_half vs (vs + ph_mem_size h)"
    by (auto simp: in_half_def split: res.splits)
  let ?e = "vs + ph_mem_size h"
  have can: "canonical vs" "canonical ?e" using half by (auto dest: same_half_canonical)
  from assms(1) obtain l where l: "virt_sub X ?e 1 = Ok l"
    and ps: "ps = page_range X (page_containing X vs) (page_containing X l)"
    by (auto simp: segment_pages_def vs res_simps virt_new can add_w_def split: if_splits)
  have e: "1 \<le> ?e" "sign_extend (?e - 1) = Some l"
    using l can(2) by (auto simp: virt_sub split: if_splits option.splits)
  have ce: "canonical (?e - 1)" "l = ?e - 1"
    using e can(2) by (auto simp: canonical_def sign_extend_def split: if_splits)
  have hl: "same_half vs l"
    using half ce e(1) by (auto simp: same_half_def canonical_def)
  have "same_half (vs div 4096 * 4096) (l div 4096 * 4096)"
    using hl by (auto simp: same_half_def)
  then have "set ps = {q. 4096 dvd q \<and> vs div 4096 * 4096 \<le> q \<and> q \<le> l div 4096 * 4096}"
    by (simp add: ps page_containing page_range set_steps_of)
  moreover have "q \<le> l div 4096 * 4096 \<longleftrightarrow> q < ?e" if "4096 dvd q" for q
  proof -
    have "q \<le> l div 4096 * 4096 \<longleftrightarrow> q \<le> l"
      using that by (auto elim!: dvdE)
    then show ?thesis using e(1) ce(2) by linarith
  qed
  ultimately show "set ps = pages_of_segment v h" by (auto simp: pages_of_segment_def vs)
  then show "p \<in> set ps \<Longrightarrow> 4096 dvd p" by (auto simp: pages_of_segment_def vs)
qed

text \<open>A pass over the segments of one type that drops a flag from their pages.\<close>

lemma drop_flag_pass:
  assumes ok: "foldR (\<lambda>h i. bindR (get_type h) (\<lambda>t. if t = kind
      then bindR (segment_pages X h (vao i)) (\<lambda>pages. foldR (drop_flag M fl) pages i) else Ok i)) hs i = Ok i'"
    and half: "\<forall>h \<in> set hs. get_type h = Ok kind \<longrightarrow> in_half (vao i) h \<and>
      (\<forall>q \<in> pages_of_segment (vao i) h. view (page_table i) q \<noteq> None)"
  shows "same_memory i i'"
    and "view (page_table i') q = (if \<exists>h \<in> set hs. get_type h = Ok kind \<and> q \<in> pages_of_segment (vao i) h
      then map_option (\<lambda>(f, g). (f, g - {fl})) (view (page_table i) q) else view (page_table i) q)"
proof -
  let ?in = "\<lambda>ys q. \<exists>h \<in> set ys. get_type h = Ok kind \<and> q \<in> pages_of_segment (vao i) h"
  let ?I = "\<lambda>ys s. same_memory i s \<and> (\<forall>q. view (page_table s) q = (if ?in ys q
      then map_option (\<lambda>(f, g). (f, g - {fl})) (view (page_table i) q) else view (page_table i) q))"
  have "?I hs i'"
  proof (rule foldR_invariant[OF ok])
    fix ys z zs s s'
    assume split: "hs = ys @ z # zs" and I: "?I ys s"
      and step: "bindR (get_type z) (\<lambda>t. if t = kind
        then bindR (segment_pages X z (vao s)) (\<lambda>pages. foldR (drop_flag M fl) pages s) else Ok s) = Ok s'"
    have vao: "vao s = vao i" using I by (simp add: same_memory_def)
    show "?I (ys @ [z]) s'"
    proof (cases "get_type z = Ok kind")
      case True
      then obtain ps where ps: "segment_pages X z (vao i) = Ok ps" "foldR (drop_flag M fl) ps s = Ok s'"
        using step vao by (auto simp: res_simps)
      have "in_half (vao i) z" using half split True by simp
      note sp = segment_pages_set[OF ps(1) this]
      have setps: "set ps = pages_of_segment (vao i) z" "\<forall>p \<in> set ps. 4096 dvd p \<and> view (page_table s) p \<noteq> None"
        using sp split True half I by auto
      note d = drop_flags_spec[OF ps(2) setps(2)]
      have in_z: "?in (ys @ [z]) q \<longleftrightarrow> ?in ys q \<or> q \<in> set ps" for q using True setps(1) by auto
      have "view (page_table s') q = (if ?in (ys @ [z]) q
          then map_option (\<lambda>(f, g). (f, g - {fl})) (view (page_table i) q) else view (page_table i) q)" for q
      proof -
        have "view (page_table s) q = (if ?in ys q
          then map_option (\<lambda>(f, g). (f, g - {fl})) (view (page_table i) q) else view (page_table i) q)"
          using I by blast
        then show ?thesis unfolding d(2)[of q] in_z
          by (cases "?in ys q"; cases "q \<in> set ps"; cases "view (page_table i) q") auto
      qed
      moreover have "same_memory i s'" using I d(1) by (simp add: same_memory_def)
      ultimately show ?thesis by blast
    next
      case False
      then have "s' = s" using step by (auto simp: res_simps split: if_splits)
      then show ?thesis using I False by simp
    qed
  qed (simp add: same_memory_def)
  then show "same_memory i i'"
    and "view (page_table i') q = (if ?in hs q
      then map_option (\<lambda>(f, g). (f, g - {fl})) (view (page_table i) q) else view (page_table i) q)"
    by blast+
qed

lemma same_memory_vread:
  assumes "same_memory i i'"
    and "\<And>q. map_option fst (view (page_table i') q) = map_option fst (view (page_table i) q)"
  shows "vread view i' = vread view i"
proof
  fix va
  show "vread view i' va = vread view i va"
    using assms(1) assms(2)[of "va div 4096 * 4096"]
    by (cases "view (page_table i) (va div 4096 * 4096)")
      (auto simp: vread_def same_memory_def split: option.splits)
qed

end

section \<open>Relocations\<close>

lemma check_is_in_load_iff:
  assumes "\<And>h. h \<in> set hs \<Longrightarrow> \<exists>t. get_type h = Ok t"
  shows "check_is_in_load hs off = Ok () \<longleftrightarrow>
    (\<exists>h \<in> set hs. get_type h = Ok Load \<and> ph_virtual_addr h \<le> off \<and> off < ph_virtual_addr h + ph_mem_size h)"
    and "check_is_in_load hs off = Ok () \<or> check_is_in_load hs off = Err ''offset is not in load segment''"
proof -
  have "(check_is_in_load hs off = Ok () \<longleftrightarrow>
    (\<exists>h \<in> set hs. get_type h = Ok Load \<and> ph_virtual_addr h \<le> off \<and> off < ph_virtual_addr h + ph_mem_size h)) \<and>
    (check_is_in_load hs off = Ok () \<or> check_is_in_load hs off = Err ''offset is not in load segment'')"
    using assms
  proof (induction hs)
    case (Cons h hs)
    from Cons.prems obtain t where t: "get_type h = Ok t" by auto
    have "off - ph_virtual_addr h < ph_mem_size h \<longleftrightarrow> off < ph_virtual_addr h + ph_mem_size h"
      if "ph_virtual_addr h \<le> off" using that by linarith
    then show ?case using Cons t by auto
  qed simp
  then show "check_is_in_load hs off = Ok () \<longleftrightarrow>
    (\<exists>h \<in> set hs. get_type h = Ok Load \<and> ph_virtual_addr h \<le> off \<and> off < ph_virtual_addr h + ph_mem_size h)"
    and "check_is_in_load hs off = Ok () \<or> check_is_in_load hs off = Err ''offset is not in load segment''"
    by blast+
qed

context kernel_loader
begin

lemma apply_relocation_spec:
  assumes ok: "apply_relocation X M alloc hs r i = Ok i'" and inv: "loader_inv view inv free F i"
    and a: "vao_add (vao i) (rela_offset r) = Ok a" and v: "vao_add (vao i) (rela_addend r) = Ok v"
    and half: "same_half a (a + 7)"
  shows "rela_symbol r = 0" and "rela_type r = 8" and "check_is_in_load hs (rela_offset r) = Ok ()"
    and "loader_step view inv free F i i'" and "vflags view i' = vflags view i"
    and "vread view i' va = (if a \<le> va \<and> va < a + 8 then Some (to_le_bytes 8 v ! (va - a)) else vread view i va)"
proof -
  have can: "canonical a" using half by (auto dest: same_half_canonical)
  from ok show "rela_symbol r = 0" and "rela_type r = 8" and "check_is_in_load hs (rela_offset r) = Ok ()"
    by (auto simp: apply_relocation_def res_simps split: if_splits)
  from ok have c: "copy_to X M alloc a (to_le_bytes 8 v) i = Ok i'"
    by (auto simp: apply_relocation_def a v virt_new can res_simps split: if_splits)
  have len: "length (to_le_bytes 8 v) = 8" by simp
  have h: "same_half a (a + length (to_le_bytes 8 v) - 1)" using half len by (simp add: add.commute)
  note t = copy_to_spec[OF c inv h]
  show "loader_step view inv free F i i'" and "vflags view i' = vflags view i"
    and "vread view i' va = (if a \<le> va \<and> va < a + 8 then Some (to_le_bytes 8 v ! (va - a)) else vread view i va)"
    using t len by simp_all
qed

end

section \<open>The loader as a whole\<close>

context kernel_loader
begin

text \<open>
  A kernel without relocations: after \<open>load_segments\<close> every \<open>LOAD\<close> segment is in virtual
  memory, the frames of the file hold what they held, and no page of a segment keeps the
  loader's mark.
\<close>

lemma load_segments_spec:
  assumes ok: "load_segments X M alloc D hs i = Ok (tls, i')" and inv: "loader_inv view inv free F i"
    and l: "\<forall>h \<in> set hs. get_type h = Ok Load \<longrightarrow> loadable F i h"
    and relro: "\<forall>h \<in> set hs. get_type h = Ok GnuRelro \<longrightarrow> relro_inside hs (vao i) h"
    and static: "\<forall>h \<in> set hs. get_type h \<noteq> Ok DynamicSegment"
  shows "h \<in> set hs \<Longrightarrow> get_type h = Ok Load \<Longrightarrow> segment_image view (mem i) h i'"
    and "in_frames F a \<Longrightarrow> mem i' a = mem i a"
    and "h \<in> set hs \<Longrightarrow> get_type h = Ok Load \<Longrightarrow> q \<in> pages_of_segment (vao i) h \<Longrightarrow>
      \<exists>f g. view (page_table i') q = Some (f, g) \<and> COPIED \<notin> g \<and>
        g = segment_flags h - (if \<exists>r \<in> set hs. get_type r = Ok GnuRelro \<and> q \<in> pages_of_segment (vao i) r
                               then {WRITABLE} else {})"
    and "vao i' = vao i" and "kernel_offset i' = kernel_offset i"
    and "view (page_table i') p = Some (f, fl) \<Longrightarrow> 4096 dvd f \<and> f \<notin> free (frame_allocator i')"
proof -
  from ok obtain i1 i2 i3 where load: "foldR (load_segment X M alloc) hs (None, i) = Ok (tls, i1)"
    and dyn: "foldR (\<lambda>h i. bindR (get_type h) (\<lambda>t.
              if t = DynamicSegment then handle_dynamic_segment X M alloc D hs h i else Ok i)) hs i1 = Ok i2"
    and rel: "foldR (\<lambda>h i. bindR (get_type h) (\<lambda>t.
              if t = GnuRelro then handle_relro_segment X M h i else Ok i)) hs i2 = Ok i3"
    and rem: "remove_copied_flags X M hs i3 = Ok i'"
    by (auto simp: load_segments_def res_simps)
  note ld = load_loop_image[OF load inv l]
  have "i2 = i1"
    by (rule foldR_preserves[OF dyn, of "\<lambda>s. s = i1"]) (use static in \<open>auto simp: res_simps split: if_splits\<close>)
  have same1: "vao i1 = vao i" "kernel_offset i1 = kernel_offset i" using ld(1) by (auto simp: loader_step_def)
  have flags1: "vflags view i1 q = Some (segment_flags h)"
    if "h \<in> set hs" "get_type h = Ok Load" "q \<in> pages_of_segment (vao i) h" for h q
    using ld(2)[OF that(1,2)] that(3) same1
    by (auto simp: segment_protected_def pages_of_segment_def split: res.splits)
  have mapped1: "view (page_table i1) q \<noteq> None"
    if "h \<in> set hs" "get_type h = Ok Load" "q \<in> pages_of_segment (vao i) h" for h q
    using flags1[OF that] by (auto simp: vflags_def)
  have relro1: "\<forall>h \<in> set hs. get_type h = Ok GnuRelro \<longrightarrow> in_half (vao i) h \<and>
      (\<forall>q \<in> pages_of_segment (vao i) h. view (page_table i1) q \<noteq> None)"
    using relro mapped1 unfolding relro_inside_def by fastforce
  note rp = drop_flag_pass[OF rel[unfolded handle_relro_segment_def \<open>i2 = i1\<close>], unfolded same1, OF relro1]
  have same3: "vao i3 = vao i" using rp(1) same1 by (simp add: same_memory_def)
  have load3: "\<forall>h \<in> set hs. get_type h = Ok Load \<longrightarrow> in_half (vao i) h \<and>
      (\<forall>q \<in> pages_of_segment (vao i) h. view (page_table i3) q \<noteq> None)"
    using l mapped1 by (auto simp: rp(2) loadable_def in_half_def split: res.splits)
  note cp = drop_flag_pass[OF rem[unfolded remove_copied_flags_def], unfolded same3, OF load3]
  have same: "same_memory i1 i'" using rp(1) cp(1) by (simp add: same_memory_def)
  have fst_view: "map_option fst (view (page_table i') q) = map_option fst (view (page_table i1) q)" for q
    unfolding cp(2) rp(2) by (cases "view (page_table i1) q") auto
  note vr = same_memory_vread[OF same fst_view]
  show "segment_image view (mem i) h i'" if "h \<in> set hs" "get_type h = Ok Load"
    using ld(2)[OF that] vr same by (simp add: segment_image_def same_memory_def split: res.splits)
  show "mem i' a = mem i a" if "in_frames F a"
    using ld(1) same that by (simp add: loader_step_def same_memory_def)
  show "\<exists>f g. view (page_table i') q = Some (f, g) \<and> COPIED \<notin> g \<and>
      g = segment_flags h - (if \<exists>r \<in> set hs. get_type r = Ok GnuRelro \<and> q \<in> pages_of_segment (vao i) r
                             then {WRITABLE} else {})"
    if h: "h \<in> set hs" "get_type h = Ok Load" and q: "q \<in> pages_of_segment (vao i) h"
  proof -
    obtain f g where g: "view (page_table i1) q = Some (f, g)" "g - {COPIED} = segment_flags h"
      using flags1[OF h q] by (auto simp: vflags_def)
    have "\<exists>h \<in> set hs. get_type h = Ok Load \<and> q \<in> pages_of_segment (vao i) h" using h q by blast
    then show ?thesis using g unfolding cp(2) rp(2) by auto
  qed
  show "vao i' = vao i" and "kernel_offset i' = kernel_offset i" using same same1 by (simp_all add: same_memory_def)
  show "4096 dvd f \<and> f \<notin> free (frame_allocator i')" if "view (page_table i') p = Some (f, fl)"
  proof -
    from that fst_view[of p] obtain g where "view (page_table i1) p = Some (f, g)"
      by (cases "view (page_table i1) p") auto
    moreover have "loader_inv view inv free F i1" using ld(1) by (simp add: loader_step_def)
    ultimately have "4096 dvd f \<and> f \<notin> free (frame_allocator i1)" unfolding loader_inv_def by blast
    then show ?thesis using same by (simp add: same_memory_def)
  qed
qed

text \<open>
  The relocation pass writes nothing but the eight bytes at addresses whose offset lies in a
  \<open>LOAD\<close> segment.
\<close>

lemma handle_dynamic_segment_spec:
  assumes ok: "handle_dynamic_segment X M alloc D hs seg i = Ok i'" and inv: "loader_inv view inv free F i"
    and half: "\<forall>off a. check_is_in_load hs off = Ok () \<and> vao_add (vao i) off = Ok a \<longrightarrow> same_half a (a + 7)"
  shows "loader_step view inv free F i i'" and "vflags view i' = vflags view i"
    and "vread view i' va \<noteq> vread view i va \<Longrightarrow>
      \<exists>off a. check_is_in_load hs off = Ok () \<and> vao_add (vao i) off = Ok a \<and> a \<le> va \<and> va < a + 8"
proof -
  let ?W = "\<lambda>va. \<exists>off a. check_is_in_load hs off = Ok () \<and> vao_add (vao i) off = Ok a \<and> a \<le> va \<and> va < a + 8"
  let ?I = "\<lambda>s. loader_step view inv free F i s \<and> vflags view s = vflags view i \<and>
    (\<forall>va. vread view s va \<noteq> vread view i va \<longrightarrow> ?W va)"
  have one: "?I s'" if s: "?I s" and r: "apply_relocation X M alloc hs r s = Ok s'" for r s s'
  proof -
    have vao: "vao s = vao i" and inv': "loader_inv view inv free F s"
      using s by (auto simp: loader_step_def)
    from r obtain a v where a: "vao_add (vao s) (rela_offset r) = Ok a" and v: "vao_add (vao s) (rela_addend r) = Ok v"
      and c: "check_is_in_load hs (rela_offset r) = Ok ()"
      by (auto simp: apply_relocation_def res_simps split: if_splits)
    have h: "same_half a (a + 7)" using half a c vao by metis
    note t = apply_relocation_spec[OF r inv' a v h]
    have "vread view s' va \<noteq> vread view i va \<longrightarrow> ?W va" for va
      using t(6)[of va] s a c unfolding vao by (cases "a \<le> va \<and> va < a + 8") auto
    then show ?thesis using s t(4,5) loader_step_trans by metis
  qed
  have "?I i'"
  proof -
    from ok obtain d where d: "get_data seg = Ok d" by (auto simp: handle_dynamic_segment_def res_simps)
    with ok obtain data where data: "get_data seg = Ok (Dynamic64 data)"
      by (cases d) (auto simp: handle_dynamic_segment_def)
    from ok data consider "i' = i"
      | tbl n where "foldR (\<lambda>idx i. bindR (read_relocation X M D tbl idx i)
          (\<lambda>r. apply_relocation X M alloc hs r i)) [0..<n] i = Ok i'"
      by (auto simp: handle_dynamic_segment_def res_simps split: option.splits if_splits)
    then show ?thesis
    proof cases
      case 1
      then show ?thesis using inv by (simp add: loader_step_refl)
    next
      case 2
      then show ?thesis
      proof (rule foldR_preserves[where P = ?I])
        show "?I i" using inv by (simp add: loader_step_refl)
        fix z s s'
        assume "?I s" and "bindR (read_relocation X M D tbl z s) (\<lambda>r. apply_relocation X M alloc hs r s) = Ok s'"
        then obtain r where "?I s" "apply_relocation X M alloc hs r s = Ok s'" by (elim bindR_OkE) blast
        then show "?I s'" by (rule one)
      qed
    qed
  qed
  then show "loader_step view inv free F i i'" and "vflags view i' = vflags view i"
    and "vread view i' va \<noteq> vread view i va \<Longrightarrow> ?W va" by blast+
qed

end

section \<open>The bootloader's allocator and page table\<close>

text \<open>
  The loader over the bootloader's frame allocator and any page table mapper that keeps the
  contract; the four-level page table is one.
\<close>

lemma legacy_loader:
  assumes "memory_region_impl X T"
    and "page_mapper (allocate_frame X T) (allocator_inv T) (free_frames T) M view"
  shows "kernel_loader X (allocate_frame X T) (allocator_inv T) (free_frames T) M view"
  using assms by (simp add: kernel_loader_def memory_region_impl_def)

sublocale memory_region_impl \<subseteq> loader: kernel_loader X "allocate_frame X T" "allocator_inv T"
    "free_frames T" table_mapper entries
  by (rule legacy_loader) unfold_locales

section \<open>An example kernel\<close>

text \<open>
  A segment of 16 bytes in the file and 6 KiB in memory, with the file at \<open>0x300000\<close>; the
  first page is protected after relocation.
\<close>

definition example_load :: program_header where
  "example_load = \<lparr>get_type = Ok Load, ph_offset = 0x1ff8, ph_virtual_addr = 0x200ff8,
     ph_file_size = 0x10, ph_mem_size = 0x1800, ph_align = 0x1000, is_execute = False, is_write = True,
     get_data = Ok OtherData, ph_sanity_check = Ok ()\<rparr>"

definition example_relro :: program_header where
  "example_relro = \<lparr>get_type = Ok GnuRelro, ph_offset = 0x1ff8, ph_virtual_addr = 0x200ff8,
     ph_file_size = 8, ph_mem_size = 8, ph_align = 1, is_execute = False, is_write = False,
     get_data = Ok OtherData, ph_sanity_check = Ok ()\<rparr>"

definition example_inner :: "(page_table_state, e820_memory_region legacy_frame_allocator) inner" where
  "example_inner = \<lparr>kernel_offset = 0x300000, vao = 0,
     page_table = \<lparr>entries = Map.empty, tables = [], huge = Map.empty, level_4 = Map.empty\<rparr>,
     frame_allocator = new_starting_at 0x100000 example_map, mem = (\<lambda>a. word_of_nat (a mod 251 + 1))\<rparr>"

definition example_frames :: "nat set" where
  "example_frames = {0x301000, 0x302000}"

lemma x86_ref_sel:
  "phys_new x86_ref a = (if a < 2 ^ 52 then Ok a else Panic External)"
  "phys_add x86_ref a b = (if a + b < 2 ^ 52 then Ok (a + b) else Panic External)"
  "phys_sub x86_ref a b = (if b \<le> a then Ok (a - b) else Panic External)"
  "frame_containing x86_ref a = a div 4096 * 4096"
  "frame_add x86_ref a b = (if a + 4096 * b < 2 ^ 52 then Ok (a + 4096 * b) else Panic External)"
  "frame_sub x86_ref a b = (if b \<le> a then Ok ((a - b) div 4096) else Panic External)"
  "frame_range x86_ref a b = steps_of a b"
  "virt_new x86_ref a = (case sign_extend a of Some b \<Rightarrow> Ok b | None \<Rightarrow> Panic External)"
  "virt_add x86_ref a b = (case sign_extend (a + b) of Some c \<Rightarrow> Ok c | None \<Rightarrow> Panic External)"
  "virt_sub x86_ref a b = (if a < b then Panic External
     else case sign_extend (a - b) of Some c \<Rightarrow> Ok c | None \<Rightarrow> Panic External)"
  "virt_try_new x86_ref a = sign_extend a"
  "virt_forward x86_ref a n = (if n > 2 ^ 48 \<or> a + n \<ge> 2 ^ 64 then None else sign_extend (a + n))"
  "virt_steps x86_ref a b = (if a \<le> b then Some (b - a) else None)"
  "page_containing x86_ref a = a div 4096 * 4096"
  "page_add x86_ref a b = (case sign_extend (a + 4096 * b) of Some c \<Rightarrow> Ok c | None \<Rightarrow> Panic External)"
  "page_range x86_ref a b = steps_of a b"
  "align_up x86_ref a 4096 = (if (a + 4095) div 4096 * 4096 < 2 ^ 64
     then Ok ((a + 4095) div 4096 * 4096) else Panic External)"
  by (simp_all add: x86_ref_def)

lemma bios_region_sel:
  "rt_start (bios_region x86_ref) d = (if e820_start_addr d < 2 ^ 52 then Ok (e820_start_addr d) else Panic External)"
  "rt_len (bios_region x86_ref) d = Ok (e820_len d)"
  "rt_kind (bios_region x86_ref) d = (if region_type d = 1 then Usable else UnknownBios (region_type d))"
  by (simp_all add: bios_region_def bios_kind_def x86_ref_def)

lemma table_mapper_sel:
  "map_to table_mapper = table_map_to"
  "unmap table_mapper page pt = (case entries pt page of
     None \<Rightarrow> None | Some _ \<Rightarrow> Some (pt\<lparr>entries := (entries pt)(page := None)\<rparr>))"
  "update_flags table_mapper page flags pt = (case entries pt page of
     None \<Rightarrow> None | Some (f, _) \<Rightarrow> Some (pt\<lparr>entries := (entries pt)(page \<mapsto> (f, flags))\<rparr>))"
  "translate table_mapper addr pt = (case entries pt (addr div 4096 * 4096) of
     None \<Rightarrow> NotMapped | Some (f, flags) \<Rightarrow> Mapped (Size4KiB f) (addr mod 4096) flags)"
  "translate_page table_mapper page pt = map_option fst (entries pt page)"
  by (simp_all add: table_mapper_def)

lemmas loader_run = load_segments_def load_segment_def handle_load_segment_def
  map_segment_frame_def map_page_def handle_bss_section_def zero_partial_page_def make_mut_def
  alloc_frame_def map_bss_page_def table_map_to_def ensure_table_def segment_flags_def
  allocate_frame_def allocate_frame_from_descriptor_def new_starting_at_def example_map_def
  x86_ref_sel bios_region_sel table_mapper_sel steps_of_def Let_def

lemma example_loads:
  "is_ok (load_segments x86_ref table_mapper (allocate_frame x86_ref (bios_region x86_ref)) D
     [example_load, example_relro] example_inner)"
  by (simp add: loader_run handle_relro_segment_def remove_copied_flags_def segment_pages_def drop_flag_def
      add_w_def example_load_def example_relro_def example_inner_def sign_extend_def upt_conv_Cons)

lemma example_mapper:
  "page_mapper (allocate_frame x86_ref (bios_region x86_ref)) (allocator_inv (bios_region x86_ref))
     (free_frames (bios_region x86_ref)) table_mapper entries"
  by unfold_locales

lemma example_relro_inside: "relro_inside [example_load, example_relro] (vao example_inner) example_relro"
  by (auto simp: relro_inside_def in_half_def pages_of_segment_def example_load_def example_relro_def
      example_inner_def same_half_def)

lemma example_inv:
  "loader_inv entries (allocator_inv (bios_region x86_ref)) (free_frames (bios_region x86_ref))
     example_frames example_inner"
  by (auto simp: loader_inv_def example_inner_def allocator_inv_def new_starting_at_def example_frames_def
      free_frames_def usable_frames_def d_frames_def d_start_def d_end_def example_map_def bios_region_sel)

lemma example_loadable: "loadable example_frames example_inner example_load"
proof -
  have "frames_of 0x301ff8 0x10 = {0x301000, 0x302000}"
    by (auto simp: frames_of_def elim!: dvdE)
  then show ?thesis
    by (simp add: loadable_def example_inner_def example_load_def same_half_def example_frames_def)
qed

text \<open>A state in which two pages are mapped to frames of the file.\<close>

definition example_mapped :: "(page_table_state, e820_memory_region legacy_frame_allocator) inner" where
  "example_mapped = example_inner\<lparr>page_table := \<lparr>
     entries = [0x201000 \<mapsto> (0x302000, {PRESENT}), 0x202000 \<mapsto> (0x301000, {PRESENT})], tables = [(3, 0), (2, 0), (1, 1)],
     huge = Map.empty, level_4 = Map.empty\<rparr>\<rparr>"

definition example_rela :: rela where
  "example_rela = \<lparr>rela_offset = 0x201010, rela_symbol = 0, rela_type = 8, rela_addend = 0x1234\<rparr>"

lemma example_mapped_inv:
  "loader_inv entries (allocator_inv (bios_region x86_ref)) (free_frames (bios_region x86_ref))
     example_frames example_mapped"
  by (auto simp: loader_inv_def example_mapped_def example_inner_def allocator_inv_def new_starting_at_def
      example_frames_def free_frames_def usable_frames_def d_frames_def d_start_def d_end_def
      example_map_def bios_region_sel split: if_splits)

lemma example_relocates:
  "is_ok (apply_relocation x86_ref table_mapper (allocate_frame x86_ref (bios_region x86_ref))
     [example_load] example_rela example_mapped)"
  by (simp add: loader_run apply_relocation_def example_load_def example_rela_def example_mapped_def
      example_inner_def sign_extend_def assertR_def copy_to_def copy_to_page_def copy_window_def
      slice_range_def sub_w_def upt_conv_Cons)

lemma example_copies:
  "case copy_to x86_ref table_mapper (allocate_frame x86_ref (bios_region x86_ref)) 0x201ffe [1, 2, 3, 4]
       example_mapped of
     Ok i' \<Rightarrow> entries (page_table i') =
       [0x201000 \<mapsto> (0x100000, {COPIED, PRESENT}), 0x202000 \<mapsto> (0x101000, {COPIED, PRESENT})]
   | _ \<Rightarrow> False"
  by (simp add: loader_run example_mapped_def example_inner_def sign_extend_def copy_to_def copy_to_page_def
      copy_window_def slice_range_def sub_w_def upt_conv_Cons fun_eq_iff)

text \<open>A dynamic section with one relocation.\<close>

definition example_dynamic :: program_header where
  "example_dynamic = \<lparr>get_type = Ok DynamicSegment, ph_offset = 0x1ff8, ph_virtual_addr = 0x201800,
     ph_file_size = 48, ph_mem_size = 48, ph_align = 8, is_execute = False, is_write = False,
     get_data = Ok (Dynamic64
       [\<lparr>get_tag = Ok Rela, get_ptr = Ok 0x201000, get_val = Err []\<rparr>,
        \<lparr>get_tag = Ok RelaSize, get_ptr = Err [], get_val = Ok 24\<rparr>,
        \<lparr>get_tag = Ok RelaEnt, get_ptr = Err [], get_val = Ok 24\<rparr>]), ph_sanity_check = Ok ()\<rparr>"

lemma example_relocates_all:
  "is_ok (handle_dynamic_segment x86_ref table_mapper (allocate_frame x86_ref (bios_region x86_ref))
     (\<lambda>_. example_rela) [example_load] example_dynamic example_mapped)"
  by (simp add: loader_run handle_dynamic_segment_def scan_dynamic_entry_def read_relocation_def
      apply_relocation_def example_dynamic_def example_load_def example_rela_def example_mapped_def
      example_inner_def sign_extend_def assertR_def copy_to_def copy_to_page_def copy_from_def
      copy_from_page_def copy_window_def slice_range_def sub_w_def add_w_def mul_w_def upt_conv_Cons
      ok_or_def)

lemma is_okE: "is_ok m \<Longrightarrow> (\<And>x. m = Ok x \<Longrightarrow> P) \<Longrightarrow> P"
  by (auto simp: is_ok_iff)

section \<open>Properties\<close>

text \<open>C10. Loading a kernel without relocations puts every \<open>LOAD\<close> segment at its address in the
  kernel's virtual memory: first the bytes of the file, then zeroes up to the size in memory.  The
  frames that hold the file are not changed, although other pages are first mapped to them.\<close>

theorem load_segments_image:
  assumes impl: "memory_region_impl X T"
    and mapper: "page_mapper (allocate_frame X T) (allocator_inv T) (free_frames T) M view"
    and "load_segments X M (allocate_frame X T) D hs i = Ok (tls, i')"
    and "loader_inv view (allocator_inv T) (free_frames T) F i"
    and "\<forall>h \<in> set hs. get_type h = Ok Load \<longrightarrow> loadable F i h"
    and "\<forall>h \<in> set hs. get_type h = Ok GnuRelro \<longrightarrow> relro_inside hs (vao i) h"
    and "\<forall>h \<in> set hs. get_type h \<noteq> Ok DynamicSegment"
  shows "(\<forall>h \<in> set hs. get_type h = Ok Load \<longrightarrow> segment_image view (mem i) h i') \<and>
    (\<forall>a. in_frames F a \<longrightarrow> mem i' a = mem i a)"
  using kernel_loader.load_segments_spec(1,2)[OF legacy_loader[OF impl mapper] assms(3-7)] by blast

theorem load_segments_image_witness:
  "case load_segments x86_ref table_mapper (allocate_frame x86_ref (bios_region x86_ref)) (\<lambda>_. example_rela)
       [example_load, example_relro] example_inner of
     Ok (tls, i') \<Rightarrow> segment_image entries (mem example_inner) example_load i'
   | _ \<Rightarrow> False"
proof (rule is_okE[OF example_loads[of "\<lambda>_. example_rela"]])
  fix r
  assume r: "load_segments x86_ref table_mapper (allocate_frame x86_ref (bios_region x86_ref)) (\<lambda>_. example_rela)
       [example_load, example_relro] example_inner = Ok r"
  obtain tls i' where ri: "r = (tls, i')" by (cases r)
  have "\<forall>h \<in> set [example_load, example_relro]. get_type h = Ok Load \<longrightarrow>
      segment_image entries (mem example_inner) h i'"
    using load_segments_image[OF ref.bios_impl example_mapper r[unfolded ri] example_inv] example_loadable
      example_relro_inside by (simp add: example_load_def example_relro_def)
  then show ?thesis using r ri by (simp add: example_load_def)
qed



text \<open>C27. What \<open>copy_to\<close> writes into the kernel's address space \<open>copy_from\<close> reads back, across
  page borders and the copy-on-write of shared pages.\<close>

theorem copy_to_copy_from:
  assumes impl: "memory_region_impl X T"
    and mapper: "page_mapper (allocate_frame X T) (allocator_inv T) (free_frames T) M view"
    and "copy_to X M (allocate_frame X T) a buf i = Ok i'"
    and "loader_inv view (allocator_inv T) (free_frames T) F i"
    and half: "same_half a (a + length buf - 1)" and "length buf' = length buf" and "buf \<noteq> []"
    and phys: "\<forall>p f fl. view (page_table i') p = Some (f, fl) \<longrightarrow> f + 4095 < 2 ^ 52"
  shows "copy_from X M a buf' i' = Ok buf"
proof -
  note loader = legacy_loader[OF impl mapper]
  have w: "vread view i' (a + k) = Some (buf ! k)" if "k < length buf" for k
    using kernel_loader.copy_to_spec(3)[OF loader assms(3,4) half, of "a + k"] that by simp
  then have "\<exists>f fl. view (page_table i') ((a + k) div 4096 * 4096) = Some (f, fl) \<and> f + 4095 < 2 ^ 52"
    if "k < length buf" for k
  proof -
    obtain f fl where f: "view (page_table i') ((a + k) div 4096 * 4096) = Some (f, fl)"
      using w[OF \<open>k < length buf\<close>] by (auto simp: vread_def split: option.splits)
    then show ?thesis using phys by blast
  qed
  then obtain r where "copy_from X M a buf' i' = Ok r" "length r = length buf'"
    "\<forall>k < length buf'. vread view i' (a + k) = Some (r ! k)"
    using kernel_loader.copy_from_spec[OF loader, of a buf' i'] half assms(6,7) by auto
  moreover from this w have "r = buf" using assms(6) by (auto intro: nth_equalityI)
  ultimately show ?thesis by simp
qed

theorem copy_to_copy_from_witness:
  "case copy_to x86_ref table_mapper (allocate_frame x86_ref (bios_region x86_ref)) 0x201ffe [1, 2, 3, 4]
       example_mapped of
     Ok i' \<Rightarrow> copy_from x86_ref table_mapper 0x201ffe [0, 0, 0, 0] i' = Ok [1, 2, 3, 4]
   | _ \<Rightarrow> False"
proof -
  obtain i' where c: "copy_to x86_ref table_mapper (allocate_frame x86_ref (bios_region x86_ref)) 0x201ffe
      [1, 2, 3, 4] example_mapped = Ok i'"
    and e: "entries (page_table i') =
      [0x201000 \<mapsto> (0x100000, {COPIED, PRESENT}), 0x202000 \<mapsto> (0x101000, {COPIED, PRESENT})]"
    using example_copies by (auto split: res.splits)
  have "copy_from x86_ref table_mapper 0x201ffe [0, 0, 0, 0] i' = Ok [1, 2, 3, 4]"
    by (rule copy_to_copy_from[OF ref.bios_impl example_mapper c example_mapped_inv])
      (auto simp: e same_half_def split: if_splits)
  then show ?thesis by (simp add: c)
qed





end
