(* ===== verification/Kernel_Setup.thy ===== *)
theory Kernel_Setup
  imports Kernel_Loader
begin

text \<open>
  Setting up the kernel's address space and starting it (\<^verbatim>\<open>src/common/src/lib.rs\<close> and
  \<^verbatim>\<open>gdt.rs\<close>): \<open>set_up_mappings\<close> loads the kernel and maps its stack, the context switch code,
  the GDT, the framebuffer, the ramdisk, physical memory and the recursive entry;
  \<open>create_boot_info\<close> maps and fills the boot information; \<open>switch_to_kernel\<close> loads the
  registers.  What the functions change (both page tables, the allocator, memory, the reserved
  level 4 entries, control registers) is the record \<open>boot_state\<close>.  The operations of the
  \<^verbatim>\<open>x86_64\<close> crate beyond the mapper of 4 KiB pages are the record \<open>paging\<close>; \<open>xmas_elf\<close>'s
  parser is a parameter of \<open>parse\<close>.  Logging is not modelled.
\<close>

section \<open>Definitions\<close>

subsection \<open>Interfaces and state\<close>

record ('pt, 'fa) paging =
  identity_map :: "'fa frame_alloc \<Rightarrow> nat \<Rightarrow> flag set \<Rightarrow> 'pt \<Rightarrow> 'fa \<Rightarrow> ('pt \<times> 'fa) res"
  map_to_2mib :: "'fa frame_alloc \<Rightarrow> nat \<Rightarrow> nat \<Rightarrow> flag set \<Rightarrow> 'pt \<Rightarrow> 'fa \<Rightarrow> ('pt \<times> 'fa) res"
  level_4_unused :: "nat \<Rightarrow> 'pt \<Rightarrow> bool"                   \<comment> \<open>\<open>level_4_table()[i].is_unused()\<close>\<close>
  set_level_4_entry :: "nat \<Rightarrow> nat \<Rightarrow> flag set \<Rightarrow> 'pt \<Rightarrow> 'pt" \<comment> \<open>\<open>level_4_table()[i].set_frame\<close>\<close>
  containing_2mib :: "nat \<Rightarrow> nat"                       \<comment> \<open>\<open>containing_address\<close> at \<open>Size2MiB\<close>\<close>
  frame_range_2mib :: "nat \<Rightarrow> nat \<Rightarrow> nat list"
  align_down_virt :: "nat \<Rightarrow> nat \<Rightarrow> nat"                  \<comment> \<open>\<open>VirtAddr::align_down\<close>\<close>
  level_4_alignment :: nat                            \<comment> \<open>\<open>PageTableLevel::entry_address_space_alignment\<close>\<close>
  gdt_bytes :: "u8 list"                               \<comment> \<open>a \<open>GlobalDescriptorTable\<close> with kernel code and data\<close>

record system_info =
  si_framebuffer :: "raw_frame_buffer_info option"
  si_rsdp_addr :: "nat option"
  si_ramdisk_addr :: "nat option"
  si_ramdisk_len :: nat

record ('pt, 'fa, 'r) boot_state =
  bootloader_table :: 'pt
  kernel_table :: 'pt
  kernel_level_4_frame :: nat
  s_allocator :: 'fa
  s_memory :: memory
  s_used :: "'r used_level_4_entries"
  efer_nxe :: bool
  cr0_wp :: bool
  loaded_gdt :: "nat option"

text \<open>The source's \<open>Mappings\<close>; its \<open>used_entries\<close> is \<open>s_used\<close> of the state.\<close>

record kernel_mappings =
  m_entry_point :: nat
  m_stack_top :: nat
  m_framebuffer :: "nat option"
  m_physical_memory_offset :: "nat option"
  m_recursive_index :: "nat option"
  m_tls_template :: "tls_template option"
  m_kernel_slice_start :: nat
  m_kernel_slice_len :: nat
  m_kernel_image_offset :: nat
  m_ramdisk_slice_start :: "nat option"
  m_ramdisk_slice_len :: nat

subsection \<open>Parsing the kernel\<close>

definition parse ::
    "(u8 list \<Rightarrow> elf_file res) \<Rightarrow> (elf_file \<Rightarrow> string \<Rightarrow> u8 list option) \<Rightarrow> nat \<Rightarrow> u8 list \<Rightarrow> kernel res" where
  "parse elf_file_new section_data addr kernel_slice =
     bindR (expect_ok ''called `Result::unwrap()` on an `Err` value'' (elf_file_new kernel_slice)) (\<lambda>kernel_elf.
     bindR (expect_some
         ''bootloader config section not found; kernel must be compiled against bootloader_api''
         (section_data kernel_elf ''.bootloader-config'')) (\<lambda>raw.
     bindR (expect_ok ''kernel was compiled with incompatible bootloader_api version'' (deserialize raw)) (\<lambda>config.
       Ok \<lparr>elf = kernel_elf, kernel_config = config, start_address = addr, kernel_file_len = length kernel_slice\<rparr>)))"

subsection \<open>Choosing addresses\<close>

text \<open>\<open>Inr\<close> is the \<open>Ok\<close> and \<open>Inl\<close> the \<open>Err\<close> of the source's \<open>Result<VirtAddr, VirtAddr>\<close>.\<close>

definition mapping_addr ::
    "x86 \<Rightarrow> 'r rng_ops \<Rightarrow> mapping \<Rightarrow> nat \<Rightarrow> nat \<Rightarrow> 'r used_level_4_entries \<Rightarrow>
     ((nat + nat) \<times> 'r used_level_4_entries) res" where
  "mapping_addr X R mapping sz alignment u =
     bindR (case mapping of
         FixedAddress addr \<Rightarrow> bindR (virt_new X (unat addr)) (\<lambda>a. Ok (a, u))
       | Dynamic \<Rightarrow> get_free_address X R sz alignment u) (\<lambda>(addr, u).
     bindR (virt_is_aligned X addr alignment) (\<lambda>aligned.
       Ok (if aligned then Inr addr else Inl addr, u)))"

definition mapping_addr_page_aligned ::
    "x86 \<Rightarrow> 'r rng_ops \<Rightarrow> mapping \<Rightarrow> nat \<Rightarrow> 'r used_level_4_entries \<Rightarrow>
     (nat \<times> 'r used_level_4_entries) res" where
  "mapping_addr_page_aligned X R mapping sz u =
     bindR (mapping_addr X R mapping sz 4096 u) (\<lambda>(r, u).
     case r of
       Inr addr \<Rightarrow> Ok (addr, u)
     | Inl addr \<Rightarrow> Panic (Explicit ''address must be page-aligned''))"

subsection \<open>Mapping pages of the kernel\<close>

definition kernel_map ::
    "x86 \<Rightarrow> 'd region_trait \<Rightarrow> ('pt, 'd legacy_frame_allocator) mapper \<Rightarrow> nat \<Rightarrow> nat \<Rightarrow> flag set \<Rightarrow>
     ('pt, 'd legacy_frame_allocator, 'r) boot_state \<Rightarrow> ('pt, 'd legacy_frame_allocator, 'r) boot_state res" where
  "kernel_map X T M page frame flags s =
     bindR (expect_ok ''failed to map page''
              (map_to M (allocate_frame X T) page frame flags (kernel_table s) (s_allocator s))) (\<lambda>(pt, fa).
       Ok (s\<lparr>kernel_table := pt, s_allocator := fa\<rparr>))"

definition take_frame ::
    "x86 \<Rightarrow> 'd region_trait \<Rightarrow> string \<Rightarrow> ('pt, 'd legacy_frame_allocator, 'r) boot_state \<Rightarrow>
     (nat \<times> ('pt, 'd legacy_frame_allocator, 'r) boot_state) res" where
  "take_frame X T msg s =
     bindR (allocate_frame X T (s_allocator s)) (\<lambda>(frame, fa).
     bindR (expect_some msg frame) (\<lambda>f. Ok (f, s\<lparr>s_allocator := fa\<rparr>)))"

definition map_stack_page ::
    "x86 \<Rightarrow> 'd region_trait \<Rightarrow> ('pt, 'd legacy_frame_allocator) mapper \<Rightarrow> nat \<Rightarrow>
     ('pt, 'd legacy_frame_allocator, 'r) boot_state \<Rightarrow> ('pt, 'd legacy_frame_allocator, 'r) boot_state res" where
  "map_stack_page X T M page s =
     bindR (take_frame X T ''frame allocation failed when mapping a kernel stack'' s) (\<lambda>(frame, s).
       kernel_map X T M page frame {PRESENT, WRITABLE} s)"

text \<open>Result: the first stack page and the end address.\<close>

definition map_stack ::
    "x86 \<Rightarrow> 'd region_trait \<Rightarrow> ('pt, 'd legacy_frame_allocator) mapper \<Rightarrow> 'r rng_ops \<Rightarrow> bootloader_config \<Rightarrow>
     ('pt, 'd legacy_frame_allocator, 'r) boot_state \<Rightarrow>
     (nat \<times> nat \<times> ('pt, 'd legacy_frame_allocator, 'r) boot_state) res" where
  "map_stack X T M R config s =
     bindR (add_u64 4096 (unat (kernel_stack_size config))) (\<lambda>sz.
     bindR (mapping_addr_page_aligned X R (kernel_stack (mappings config)) sz (s_used s)) (\<lambda>(guard_page, u).
     bindR (page_add X guard_page 1) (\<lambda>stack_start.
     bindR (virt_add X stack_start (unat (kernel_stack_size config))) (\<lambda>stack_end_addr.
     bindR (virt_sub X stack_end_addr 1) (\<lambda>last.
     bindR (foldR (map_stack_page X T M) (page_range X stack_start (page_containing X last)) (s\<lparr>s_used := u\<rparr>))
       (\<lambda>s. Ok (stack_start, stack_end_addr, s)))))))"

definition identity_map_frame ::
    "x86 \<Rightarrow> 'd region_trait \<Rightarrow> ('pt, 'd legacy_frame_allocator) paging \<Rightarrow> nat \<Rightarrow>
     ('pt, 'd legacy_frame_allocator, 'r) boot_state \<Rightarrow> ('pt, 'd legacy_frame_allocator, 'r) boot_state res" where
  "identity_map_frame X T P frame s =
     bindR (expect_ok ''failed to identity map frame''
              (identity_map P (allocate_frame X T) frame {PRESENT} (kernel_table s) (s_allocator s))) (\<lambda>(pt, fa).
       Ok (s\<lparr>kernel_table := pt, s_allocator := fa\<rparr>))"

text \<open>\<open>context_switch\<close> is the address of the function of that name in the bootloader.\<close>

definition map_context_switch ::
    "x86 \<Rightarrow> 'd region_trait \<Rightarrow> ('pt, 'd legacy_frame_allocator) paging \<Rightarrow> nat \<Rightarrow>
     ('pt, 'd legacy_frame_allocator, 'r) boot_state \<Rightarrow> ('pt, 'd legacy_frame_allocator, 'r) boot_state res" where
  "map_context_switch X T P context_switch s =
     bindR (phys_new X context_switch) (\<lambda>addr.
     let start_frame = frame_containing X addr in
     bindR (frame_add X start_frame 1) (\<lambda>end_frame.
       foldR (identity_map_frame X T P) (frame_range X start_frame end_frame) s))"

definition create_and_load ::
    "x86 \<Rightarrow> ('pt, 'fa) paging \<Rightarrow> nat \<Rightarrow> ('pt, 'fa, 'r) boot_state \<Rightarrow> ('pt, 'fa, 'r) boot_state res" where
  "create_and_load X P frame s =
     bindR (virt_new X frame) (\<lambda>virt_addr.
       Ok (s\<lparr>s_memory := write_slice (s_memory s) virt_addr (gdt_bytes P), loaded_gdt := Some virt_addr\<rparr>))"

definition map_gdt ::
    "x86 \<Rightarrow> 'd region_trait \<Rightarrow> ('pt, 'd legacy_frame_allocator) paging \<Rightarrow>
     ('pt, 'd legacy_frame_allocator, 'r) boot_state \<Rightarrow> ('pt, 'd legacy_frame_allocator, 'r) boot_state res" where
  "map_gdt X T P s =
     bindR (take_frame X T ''failed to allocate GDT frame'' s) (\<lambda>(gdt_frame, s).
     bindR (create_and_load X P gdt_frame s) (\<lambda>s.
       identity_map_frame X T P gdt_frame s))"

text \<open>\<open>start_page + i\<close> for the \<open>i\<close>-th frame, as the framebuffer and the ramdisk are mapped.\<close>

definition map_nth_frame ::
    "x86 \<Rightarrow> 'd region_trait \<Rightarrow> ('pt, 'd legacy_frame_allocator) mapper \<Rightarrow> nat \<Rightarrow> nat \<times> nat \<Rightarrow>
     ('pt, 'd legacy_frame_allocator, 'r) boot_state \<Rightarrow> ('pt, 'd legacy_frame_allocator, 'r) boot_state res" where
  "map_nth_frame X T M start_page = (\<lambda>(i, frame) s.
     bindR (page_add X start_page i) (\<lambda>page. kernel_map X T M page frame {PRESENT, WRITABLE} s))"

definition map_frames ::
    "x86 \<Rightarrow> 'd region_trait \<Rightarrow> ('pt, 'd legacy_frame_allocator) mapper \<Rightarrow> nat \<Rightarrow> nat list \<Rightarrow>
     ('pt, 'd legacy_frame_allocator, 'r) boot_state \<Rightarrow> ('pt, 'd legacy_frame_allocator, 'r) boot_state res" where
  "map_frames X T M start_page frames s =
     foldR (map_nth_frame X T M start_page) (zip [0..<length frames] frames) s"

definition map_framebuffer ::
    "x86 \<Rightarrow> 'd region_trait \<Rightarrow> ('pt, 'd legacy_frame_allocator) mapper \<Rightarrow> 'r rng_ops \<Rightarrow> bootloader_config \<Rightarrow>
     raw_frame_buffer_info option \<Rightarrow> ('pt, 'd legacy_frame_allocator, 'r) boot_state \<Rightarrow>
     (nat option \<times> ('pt, 'd legacy_frame_allocator, 'r) boot_state) res" where
  "map_framebuffer X T M R config fb s =
     (case fb of
        None \<Rightarrow> Ok (None, s)
      | Some raw \<Rightarrow>
          let start_frame = frame_containing X (raw_addr raw) in
          bindR (phys_add X (raw_addr raw) (byte_len (raw_info raw))) (\<lambda>e.
          bindR (phys_sub X e 1) (\<lambda>last.
          let end_frame = frame_containing X last in
          bindR (mapping_addr_page_aligned X R (framebuffer (mappings config)) (byte_len (raw_info raw)) (s_used s))
            (\<lambda>(start_page, u).
          bindR (map_frames X T M start_page (frame_range X start_frame end_frame) (s\<lparr>s_used := u\<rparr>)) (\<lambda>s.
            Ok (Some start_page, s))))))"

definition map_ramdisk ::
    "x86 \<Rightarrow> 'd region_trait \<Rightarrow> ('pt, 'd legacy_frame_allocator) mapper \<Rightarrow> 'r rng_ops \<Rightarrow> bootloader_config \<Rightarrow>
     system_info \<Rightarrow> ('pt, 'd legacy_frame_allocator, 'r) boot_state \<Rightarrow>
     (nat option \<times> ('pt, 'd legacy_frame_allocator, 'r) boot_state) res" where
  "map_ramdisk X T M R config info s =
     (case si_ramdisk_addr info of
        None \<Rightarrow> Ok (None, s)
      | Some ramdisk_address \<Rightarrow>
          bindR (mapping_addr_page_aligned X R (ramdisk_memory (mappings config)) (si_ramdisk_len info) (s_used s))
            (\<lambda>(start_page, u).
          bindR (phys_new X ramdisk_address) (\<lambda>physical_address.
          let start_frame = frame_containing X physical_address in
          bindR (sub_w (si_ramdisk_len info) 1) (\<lambda>l.
          let page_count = l div 4096 in
          bindR (frame_add X start_frame page_count) (\<lambda>end_frame.
          bindR (map_frames X T M start_page (frame_range X start_frame end_frame) (s\<lparr>s_used := u\<rparr>)) (\<lambda>s.
            Ok (Some start_page, s)))))))"

definition map_2mib_frame ::
    "x86 \<Rightarrow> 'd region_trait \<Rightarrow> ('pt, 'd legacy_frame_allocator) paging \<Rightarrow> nat \<Rightarrow> nat \<Rightarrow>
     ('pt, 'd legacy_frame_allocator, 'r) boot_state \<Rightarrow> ('pt, 'd legacy_frame_allocator, 'r) boot_state res" where
  "map_2mib_frame X T P offset frame s =
     bindR (virt_add X offset frame) (\<lambda>addr.
     bindR (expect_ok ''failed to map page''
              (map_to_2mib P (allocate_frame X T) (containing_2mib P addr) frame {PRESENT, WRITABLE}
                 (kernel_table s) (s_allocator s))) (\<lambda>(pt, fa).
       Ok (s\<lparr>kernel_table := pt, s_allocator := fa\<rparr>)))"

definition map_physical_memory ::
    "x86 \<Rightarrow> 'd region_trait \<Rightarrow> ('pt, 'd legacy_frame_allocator) paging \<Rightarrow> 'r rng_ops \<Rightarrow> bootloader_config \<Rightarrow>
     ('pt, 'd legacy_frame_allocator, 'r) boot_state \<Rightarrow>
     (nat option \<times> ('pt, 'd legacy_frame_allocator, 'r) boot_state) res" where
  "map_physical_memory X T P R config s =
     (case physical_memory (mappings config) of
        None \<Rightarrow> Ok (None, s)
      | Some mapping \<Rightarrow>
          bindR (phys_new X 0) (\<lambda>zero.
          let start_frame = containing_2mib P zero in
          bindR (max_phys_addr X T (s_allocator s)) (\<lambda>max_phys.
          bindR (phys_sub X max_phys 1) (\<lambda>last.
          let end_frame = containing_2mib P last in
          bindR (mapping_addr X R mapping max_phys (2 ^ 21) (s_used s)) (\<lambda>(r, u).
          case r of
            Inl _ \<Rightarrow> Panic (Explicit ''start address for physical memory mapping must be 2MiB-page-aligned'')
          | Inr offset \<Rightarrow>
              bindR (foldR (map_2mib_frame X T P offset) (frame_range_2mib P start_frame end_frame)
                       (s\<lparr>s_used := u\<rparr>)) (\<lambda>s.
                Ok (Some offset, s)))))))"

definition map_page_table_recursive ::
    "x86 \<Rightarrow> ('pt, 'fa) paging \<Rightarrow> 'r rng_ops \<Rightarrow> bootloader_config \<Rightarrow> ('pt, 'fa, 'r) boot_state \<Rightarrow>
     (nat option \<times> ('pt, 'fa, 'r) boot_state) res" where
  "map_page_table_recursive X P R config s =
     (case page_table_recursive (mappings config) of
        None \<Rightarrow> Ok (None, s)
      | Some mapping \<Rightarrow>
          bindR (case mapping of
              Dynamic \<Rightarrow> get_free_entries R 1 (s_used s)
            | FixedAddress offset \<Rightarrow>
                bindR (virt_new X (unat offset)) (\<lambda>offset.
                bindR (virt_is_aligned X offset (level_4_alignment P)) (\<lambda>aligned.
                if \<not> aligned then Panic (Explicit ''Offset for recursive mapping must be properly aligned'')
                else Ok (p4_index X offset, s_used s)))) (\<lambda>(index, u).
          if \<not> level_4_unused P index (kernel_table s)
          then Panic (Explicit ''Could not set up recursive mapping: index already in use'')
          else Ok (Some index, s\<lparr>s_used := u,
                 kernel_table := set_level_4_entry P index (kernel_level_4_frame s) {PRESENT, WRITABLE} (kernel_table s)\<rparr>)))"

definition enable_nxe_bit :: "('pt, 'fa, 'r) boot_state \<Rightarrow> ('pt, 'fa, 'r) boot_state" where
  "enable_nxe_bit s = s\<lparr>efer_nxe := True\<rparr>"

definition enable_write_protect_bit :: "('pt, 'fa, 'r) boot_state \<Rightarrow> ('pt, 'fa, 'r) boot_state" where
  "enable_write_protect_bit s = s\<lparr>cr0_wp := True\<rparr>"

definition set_up_mappings ::
    "x86 \<Rightarrow> 'd region_trait \<Rightarrow> ('pt, 'd legacy_frame_allocator) mapper \<Rightarrow>
     ('pt, 'd legacy_frame_allocator) paging \<Rightarrow> 'r rng_ops \<Rightarrow> (u8 list \<Rightarrow> rela) \<Rightarrow> type_layouts \<Rightarrow> 'r \<Rightarrow> nat \<Rightarrow>
     kernel \<Rightarrow> raw_frame_buffer_info option \<Rightarrow> bootloader_config \<Rightarrow> system_info \<Rightarrow>
     ('pt, 'd legacy_frame_allocator, 'r) boot_state \<Rightarrow>
     (kernel_mappings \<times> ('pt, 'd legacy_frame_allocator, 'r) boot_state) res" where
  "set_up_mappings X T M P R D L build_rng context_switch k fb config info s =
     bindR (max_phys_addr X T (s_allocator s)) (\<lambda>max_phys.
     bindR (used_entries_new X L build_rng max_phys (frame_allocator_len (s_allocator s)) fb config) (\<lambda>u.
     let s = enable_write_protect_bit (enable_nxe_bit s);
         config = kernel_config k
     in
     bindR (phys_new X (start_address k)) (\<lambda>kernel_slice_start.
     let kernel_slice_len = kernel_file_len k in
     bindR (expect_ok ''no entry point''
              (load_kernel X M (allocate_frame X T) R D (elf k) (kernel_table s) (s_allocator s) (s_memory s) u))
       (\<lambda>(image_offset, entry, tls, i, u).
     let s = s\<lparr>kernel_table := page_table i, s_allocator := frame_allocator i, s_memory := mem i, s_used := u\<rparr> in
     bindR (map_stack X T M R config s) (\<lambda>(stack_start, stack_end_addr, s).
     bindR (map_context_switch X T P context_switch s) (\<lambda>s.
     bindR (map_gdt X T P s) (\<lambda>s.
     bindR (map_framebuffer X T M R config fb s) (\<lambda>(framebuffer_virt_addr, s).
     bindR (map_ramdisk X T M R config info s) (\<lambda>(ramdisk_slice_start, s).
     bindR (map_physical_memory X T P R config s) (\<lambda>(offset, s).
     bindR (map_page_table_recursive X P R config s) (\<lambda>(index, s).
       Ok (\<lparr>m_entry_point = entry,
            m_stack_top = align_down_virt P stack_end_addr 16,
            m_framebuffer = framebuffer_virt_addr,
            m_physical_memory_offset = offset,
            m_recursive_index = index,
            m_tls_template = tls,
            m_kernel_slice_start = kernel_slice_start,
            m_kernel_slice_len = kernel_slice_len,
            m_kernel_image_offset = image_offset,
            m_ramdisk_slice_start = ramdisk_slice_start,
            m_ramdisk_slice_len = si_ramdisk_len info\<rparr>, s))))))))))))"

subsection \<open>The boot information\<close>

definition map_boot_info_page ::
    "x86 \<Rightarrow> 'd region_trait \<Rightarrow> ('pt, 'd legacy_frame_allocator) mapper \<Rightarrow> nat \<Rightarrow>
     ('pt, 'd legacy_frame_allocator, 'r) boot_state \<Rightarrow> ('pt, 'd legacy_frame_allocator, 'r) boot_state res" where
  "map_boot_info_page X T M page s =
     bindR (take_frame X T ''frame allocation for boot info failed'' s) (\<lambda>(frame, s).
     bindR (kernel_map X T M page frame {PRESENT, WRITABLE} s) (\<lambda>s.
     bindR (expect_ok ''failed to map page''
              (map_to M (allocate_frame X T) page frame {PRESENT, WRITABLE} (bootloader_table s) (s_allocator s)))
       (\<lambda>(pt, fa). Ok (s\<lparr>bootloader_table := pt, s_allocator := fa\<rparr>))))"

text \<open>Result: the address of the boot information and the capacity of the region slice.\<close>

definition map_boot_info ::
    "x86 \<Rightarrow> 'd region_trait \<Rightarrow> ('pt, 'd legacy_frame_allocator) mapper \<Rightarrow> 'r rng_ops \<Rightarrow> type_layouts \<Rightarrow>
     bootloader_config \<Rightarrow> ('pt, 'd legacy_frame_allocator, 'r) boot_state \<Rightarrow>
     (nat \<times> nat \<times> ('pt, 'd legacy_frame_allocator, 'r) boot_state) res" where
  "map_boot_info X T M R L config s =
     (let regions = frame_allocator_len (s_allocator s) + 4 in
      bindR (expect_some ''called `Result::unwrap()` on an `Err` value''
               (layout_array (memory_region_layout L) regions)) (\<lambda>memory_regions_layout.
      bindR (expect_some ''called `Result::unwrap()` on an `Err` value''
               (layout_extend (boot_info_layout L) memory_regions_layout)) (\<lambda>(combined, memory_regions_offset).
      bindR (mapping_addr X R (boot_info (mappings config)) (layout_size combined) (layout_align combined) (s_used s))
        (\<lambda>(r, u).
      case r of
        Inl _ \<Rightarrow> Panic (Explicit ''boot info addr is not properly aligned'')
      | Inr boot_info_addr \<Rightarrow>
          bindR (virt_add X boot_info_addr memory_regions_offset) (\<lambda>memory_map_regions_addr.
          bindR (virt_add X boot_info_addr (layout_size combined)) (\<lambda>memory_map_regions_end.
          bindR (virt_sub X memory_map_regions_end 1) (\<lambda>last.
          bindR (foldR (map_boot_info_page X T M)
                   (page_range X (page_containing X boot_info_addr) (page_containing X last))
                   (s\<lparr>s_used := u\<rparr>)) (\<lambda>s.
            Ok (boot_info_addr, regions, s)))))))))"

text \<open>\<open>v\<close> is \<open>ApiVersion::new_default()\<close>, whose numbers the build generates.\<close>

definition create_boot_info ::
    "x86 \<Rightarrow> 'd region_trait \<Rightarrow> ('pt, 'd legacy_frame_allocator) mapper \<Rightarrow> 'r rng_ops \<Rightarrow> type_layouts \<Rightarrow>
     api_version \<Rightarrow> bootloader_config \<Rightarrow> nat \<Rightarrow> kernel_mappings \<Rightarrow> system_info \<Rightarrow>
     ('pt, 'd legacy_frame_allocator, 'r) boot_state \<Rightarrow>
     (nat \<times> boot_info \<times> ('pt, 'd legacy_frame_allocator, 'r) boot_state) res" where
  "create_boot_info X T M R L v config sentinel m info s =
     bindR (map_boot_info X T M R L config s) (\<lambda>(addr, regions, s).
     bindR (construct_memory_map X T (s_allocator s) regions (m_kernel_slice_start m) (m_kernel_slice_len m)) (\<lambda>rs.
     bindR (case m_framebuffer m of
         None \<Rightarrow> Ok None
       | Some a \<Rightarrow>
           bindR (expect_some
               ''there shouldn't be a mapping for the framebuffer if there is no framebuffer''
               (si_framebuffer info)) (\<lambda>raw. Ok (Some (frame_buffer_new a (raw_info raw))))) (\<lambda>fb.
       Ok (addr, (boot_info_new v rs)\<lparr>
         bi_framebuffer := optional_from fb,
         physical_memory_offset := optional_from (m_physical_memory_offset m),
         recursive_index := optional_from (m_recursive_index m),
         rsdp_addr := optional_from (si_rsdp_addr info),
         tls_template := optional_from (m_tls_template m),
         ramdisk_addr := optional_from (m_ramdisk_slice_start m),
         ramdisk_len := m_ramdisk_slice_len m,
         kernel_addr := m_kernel_slice_start m,
         kernel_len := m_kernel_slice_len m,
         kernel_image_offset := m_kernel_image_offset m,
         test_sentinel := sentinel\<rparr>, s))))"

subsection \<open>Starting the kernel\<close>

record registers =
  cr3 :: nat
  rsp :: nat
  rbp :: nat
  rdi :: nat
  rip :: nat

text \<open>The registers when the kernel's first instruction runs: \<open>push 0\<close> moves the stack pointer.\<close>

definition context_switch :: "nat \<Rightarrow> nat \<Rightarrow> nat \<Rightarrow> nat \<Rightarrow> registers" where
  "context_switch page_table_frame stack_top entry boot_info_addr =
     \<lparr>cr3 = page_table_frame, rsp = (stack_top + (2 ^ 64 - 8)) mod 2 ^ 64, rbp = 0, rdi = boot_info_addr, rip = entry\<rparr>"

definition switch_to_kernel :: "('pt, 'fa, 'r) boot_state \<Rightarrow> kernel_mappings \<Rightarrow> nat \<Rightarrow> registers" where
  "switch_to_kernel s m boot_info_addr =
     context_switch (kernel_level_4_frame s) (m_stack_top m) (m_entry_point m) boot_info_addr"

definition load_and_switch_to_kernel ::
    "x86 \<Rightarrow> 'd region_trait \<Rightarrow> ('pt, 'd legacy_frame_allocator) mapper \<Rightarrow>
     ('pt, 'd legacy_frame_allocator) paging \<Rightarrow> 'r rng_ops \<Rightarrow> (u8 list \<Rightarrow> rela) \<Rightarrow> type_layouts \<Rightarrow> 'r \<Rightarrow> nat \<Rightarrow>
     api_version \<Rightarrow> kernel \<Rightarrow> nat \<Rightarrow> system_info \<Rightarrow> ('pt, 'd legacy_frame_allocator, 'r) boot_state \<Rightarrow>
     (registers \<times> boot_info \<times> kernel_mappings \<times> ('pt, 'd legacy_frame_allocator, 'r) boot_state) res" where
  "load_and_switch_to_kernel X T M P R D L build_rng cs v k sentinel info s =
     (let config = kernel_config k in
      bindR (set_up_mappings X T M P R D L build_rng cs k (si_framebuffer info) config info s) (\<lambda>(m, s).
      bindR (create_boot_info X T M R L v config sentinel m info s) (\<lambda>(addr, bi, s).
        Ok (switch_to_kernel s m addr, bi, m, s))))"

end
