(* ===== verification/Kernel_Start.thy ===== *)
theory Kernel_Start
  imports Kernel_Setup
begin

text \<open>
  What \<open>set_up_mappings\<close>, \<open>create_boot_info\<close> and \<open>load_and_switch_to_kernel\<close>
  (\<^verbatim>\<open>src/common/src/lib.rs\<close>) establish: the contract of the page table operations they use,
  the effect of each step on the kernel's page table and on the frame allocator, and the
  properties of the state in which the kernel starts.
\<close>

section \<open>Every step of the loader only takes frames from the allocator\<close>

definition takes :: "('fa \<Rightarrow> bool) \<Rightarrow> ('fa \<Rightarrow> nat set) \<Rightarrow> 'fa \<Rightarrow> 'fa \<Rightarrow> bool" where
  "takes ainv free fa fa' \<longleftrightarrow> (ainv fa \<longrightarrow> ainv fa' \<and> free fa' \<subseteq> free fa)"

lemma takes_refl [simp]: "takes ainv free fa fa"
  by (simp add: takes_def)

lemma takes_trans: "takes ainv free a b \<Longrightarrow> takes ainv free b c \<Longrightarrow> takes ainv free a c"
  by (auto simp: takes_def)

lemma takes_foldR:
  assumes "foldR f xs s = Ok s'"
    and "\<And>z t t'. f z t = Ok t' \<Longrightarrow> takes ainv free (g t) (g t')"
  shows "takes ainv free (g s) (g s')"
  by (rule foldR_preserves[OF assms(1), where P = "\<lambda>t. takes ainv free (g s) (g t)"])
    (use assms(2) in \<open>auto intro: takes_trans\<close>)

context page_mapper
begin

abbreviation loader_takes :: "('pt, 'fa) inner \<Rightarrow> ('pt, 'fa) inner \<Rightarrow> bool" where
  "loader_takes i i' \<equiv> takes inv free (frame_allocator i) (frame_allocator i')"

lemma map_page_takes: "map_page M alloc p f fl i = Ok i' \<Longrightarrow> loader_takes i i'"
  using map_to_ok by (fastforce simp: map_page_def res_simps takes_def)

lemma alloc_frame_takes: "alloc_frame alloc i = Ok (f, i') \<Longrightarrow> loader_takes i i'"
  using alloc_some alloc_inv by (fastforce simp: alloc_frame_def res_simps takes_def)

lemma make_mut_takes:
  assumes "make_mut M alloc p i = Ok (f, i')"
  shows "loader_takes i i'"
proof -
  from assms consider "i' = i"
    | i1 pt m g fl where "alloc_frame alloc i = Ok (g, i1)"
      "map_page M alloc p g fl (i1\<lparr>mem := m, page_table := pt\<rparr>) = Ok i'"
    by (auto simp: make_mut_def res_simps Let_def split: translate_result.splits mapped_frame.splits if_splits)
  then show ?thesis
  proof cases
    case 2
    from map_page_takes[OF 2(2)] have "loader_takes i1 i'" by simp
    with alloc_frame_takes[OF 2(1)] show ?thesis by (rule takes_trans)
  qed simp
qed

lemma map_bss_page_takes:
  assumes "map_bss_page M alloc fl p i = Ok i'"
  shows "loader_takes i i'"
proof -
  from assms obtain f i1 where a: "alloc_frame alloc i = Ok (f, i1)"
    and m: "map_page M alloc p f fl (i1\<lparr>mem := fill_bytes (mem i1) f 0 4096\<rparr>) = Ok i'"
    by (auto simp: map_bss_page_def res_simps Let_def)
  from map_page_takes[OF m] have "loader_takes i1 i'" by simp
  with alloc_frame_takes[OF a] show ?thesis by (rule takes_trans)
qed

lemma handle_bss_section_takes:
  assumes "handle_bss_section X M alloc seg fl i = Ok i'"
  shows "loader_takes i i'"
proof -
  from assms obtain vs z i1 ps where p: "zero_partial_page X M alloc vs (ph_file_size seg) z i = Ok i1"
    and l: "foldR (map_bss_page M alloc fl) ps i1 = Ok i'"
    by (auto simp: handle_bss_section_def res_simps Let_def)
  have "loader_takes i i1"
    using p make_mut_takes by (fastforce simp: zero_partial_page_def res_simps Let_def split: if_splits)
  moreover have "loader_takes i1 i'" by (rule takes_foldR[OF l map_bss_page_takes])
  ultimately show ?thesis by (rule takes_trans)
qed

lemma map_segment_frame_takes: "map_segment_frame X M alloc fl sf sp f i = Ok i' \<Longrightarrow> loader_takes i i'"
  using map_page_takes by (auto simp: map_segment_frame_def res_simps)

lemma handle_load_segment_takes:
  assumes "handle_load_segment X M alloc seg i = Ok i'"
  shows "loader_takes i i'"
proof -
  from assms obtain sf sp fs i1 where l: "foldR (map_segment_frame X M alloc (segment_flags seg) sf sp) fs i = Ok i1"
    and r: "i' = i1 \<or> handle_bss_section X M alloc seg (segment_flags seg) i1 = Ok i'"
    by (auto simp: handle_load_segment_def res_simps Let_def split: if_splits)
  have "loader_takes i i1" by (rule takes_foldR[OF l map_segment_frame_takes])
  moreover have "loader_takes i1 i'" using r handle_bss_section_takes by auto
  ultimately show ?thesis by (rule takes_trans)
qed

lemma copy_to_takes:
  assumes "copy_to X M alloc a buf i = Ok i'"
  shows "loader_takes i i'"
proof -
  from assms obtain b ps where l: "foldR (copy_to_page X M alloc a b buf) ps i = Ok i'"
    by (auto simp: copy_to_def res_simps)
  show ?thesis
    by (rule takes_foldR[OF l]) (use make_mut_takes in \<open>fastforce simp: copy_to_page_def res_simps\<close>)
qed

lemma apply_relocation_takes: "apply_relocation X M alloc hs r i = Ok i' \<Longrightarrow> loader_takes i i'"
  using copy_to_takes by (auto simp: apply_relocation_def res_simps split: if_splits)

lemma handle_dynamic_segment_takes:
  assumes "handle_dynamic_segment X M alloc D hs seg i = Ok i'"
  shows "loader_takes i i'"
proof -
  from assms obtain d where d: "get_data seg = Ok d" by (auto simp: handle_dynamic_segment_def res_simps)
  with assms consider "i' = i"
    | tbl n where "foldR (\<lambda>idx i. bindR (read_relocation X M D tbl idx i)
        (\<lambda>r. apply_relocation X M alloc hs r i)) [0..<n] i = Ok i'"
    by (cases d) (auto simp: handle_dynamic_segment_def res_simps split: option.splits if_splits)
  then show ?thesis
  proof cases
    case 2
    then show ?thesis
      by (rule takes_foldR) (use apply_relocation_takes in \<open>auto simp: res_simps\<close>)
  qed simp
qed

lemma drop_flag_takes: "drop_flag M fl p i = Ok i' \<Longrightarrow> loader_takes i i'"
  by (auto simp: drop_flag_def res_simps split: translate_result.splits if_splits)

lemma drop_flags_takes: "foldR (drop_flag M fl) ps i = Ok i' \<Longrightarrow> loader_takes i i'"
  by (rule takes_foldR[OF _ drop_flag_takes])

lemma load_segments_takes:
  assumes "load_segments X M alloc D hs i = Ok (tls, i')"
  shows "loader_takes i i'"
proof -
  from assms obtain i1 i2 i3 where load: "foldR (load_segment X M alloc) hs (None, i) = Ok (tls, i1)"
    and dyn: "foldR (\<lambda>h i. bindR (get_type h) (\<lambda>t.
              if t = DynamicSegment then handle_dynamic_segment X M alloc D hs h i else Ok i)) hs i1 = Ok i2"
    and rel: "foldR (\<lambda>h i. bindR (get_type h) (\<lambda>t.
              if t = GnuRelro then handle_relro_segment X M h i else Ok i)) hs i2 = Ok i3"
    and rem: "remove_copied_flags X M hs i3 = Ok i'"
    by (auto simp: load_segments_def res_simps)
  have one: "loader_takes (snd s) (snd s')" if "load_segment X M alloc z s = Ok s'" for z s s'
  proof -
    from that obtain t where "get_type z = Ok t" by (auto simp: load_segment_def split_def res_simps)
    with that handle_load_segment_takes show ?thesis
      by (cases t) (auto simp: load_segment_def split_def res_simps split: if_splits)
  qed
  have "loader_takes i i1" using takes_foldR[OF load, where g = "frame_allocator \<circ> snd"] one by simp
  also have "takes inv free (frame_allocator i1) (frame_allocator i2)"
    by (rule takes_foldR[OF dyn]) (use handle_dynamic_segment_takes in \<open>auto simp: res_simps split: if_splits\<close>)
  also (takes_trans) have "takes inv free (frame_allocator i2) (frame_allocator i3)"
    by (rule takes_foldR[OF rel])
      (use drop_flags_takes in \<open>auto simp: handle_relro_segment_def res_simps split: if_splits\<close>)
  also (takes_trans) have "takes inv free (frame_allocator i3) (frame_allocator i')"
    by (rule takes_foldR[OF rem[unfolded remove_copied_flags_def]])
      (use drop_flags_takes in \<open>auto simp: res_simps split: if_splits\<close>)
  finally (takes_trans) show ?thesis .
qed

lemma load_kernel_takes:
  assumes "load_kernel X M alloc R D e pt fa m u = Ok (off, entry, tls, i, u')"
  shows "takes inv free fa (frame_allocator i)"
proof -
  from assms obtain i0 u0 where n: "loader_new X R e pt fa m u = Ok (i0, u0)"
    and l: "load_segments X M alloc D (program_iter e) i0 = Ok (tls, i)"
    by (auto simp: load_kernel_def res_simps)
  from n have "frame_allocator i0 = fa" by (auto simp: loader_new_def res_simps split: if_splits)
  with load_segments_takes[OF l] show ?thesis by simp
qed

end

section \<open>The contract of the page table operations\<close>

text \<open>
  Identity mapping and 2 MiB pages keep the 4 KiB pages that were mapped; so does writing an
  unused level 4 entry.
\<close>

locale kernel_setup = x86_64 X + page_mapper "allocate_frame X T" inv free M view
  for X :: x86 and T :: "'d region_trait" and inv and free
    and M :: "('pt, 'd legacy_frame_allocator) mapper" and view +
  fixes P :: "('pt, 'd legacy_frame_allocator) paging"
    and huge_view :: "'pt \<Rightarrow> nat \<rightharpoonup> nat \<times> flag set"
  assumes identity_map_ok: "inv fa \<Longrightarrow> identity_map P (allocate_frame X T) f fl pt fa = Ok (pt', fa') \<Longrightarrow>
      view pt \<subseteq>\<^sub>m view pt' \<and> (f < 2 ^ 47 \<longrightarrow> view pt' f = Some (f, fl)) \<and> inv fa' \<and> free fa' \<subseteq> free fa"
    and map_to_2mib_ok: "inv fa \<Longrightarrow> map_to_2mib P (allocate_frame X T) p f fl pt fa = Ok (pt', fa') \<Longrightarrow>
      view pt \<subseteq>\<^sub>m view pt' \<and> inv fa' \<and> free fa' \<subseteq> free fa \<and>
      huge_view pt p = None \<and> huge_view pt' = (huge_view pt)(p \<mapsto> (f, fl))"
    and set_level_4_entry_ok: "level_4_unused P idx pt \<Longrightarrow>
      view pt \<subseteq>\<^sub>m view (set_level_4_entry P idx f fl pt) \<and>
      huge_view pt \<subseteq>\<^sub>m huge_view (set_level_4_entry P idx f fl pt)"
    and map_to_huge: "inv fa \<Longrightarrow> map_to M (allocate_frame X T) p f fl pt fa = Ok (pt', fa') \<Longrightarrow>
      huge_view pt \<subseteq>\<^sub>m huge_view pt'"
    and containing_2mib: "containing_2mib P a = a div 2 ^ 21 * 2 ^ 21"
    and frame_range_2mib: "2 ^ 21 dvd f \<Longrightarrow> 2 ^ 21 dvd g \<Longrightarrow> f \<le> g \<Longrightarrow>
      frame_range_2mib P f g = map (\<lambda>i. f + 2 ^ 21 * i) [0..<(g - f) div 2 ^ 21 + 1]"
    and align_down_virt_16: "align_down_virt P a 16 = a div 16 * 16"
    and gdt_fits: "length (gdt_bytes P) \<le> 4096"

text \<open>
  What every step does: it takes frames, keeps the kernel's pages, and writes only to frames
  that were free.
\<close>

definition setup_step ::
    "('fa \<Rightarrow> bool) \<Rightarrow> ('fa \<Rightarrow> nat set) \<Rightarrow> ('pt \<Rightarrow> nat \<rightharpoonup> nat \<times> flag set) \<Rightarrow>
     ('pt, 'fa, 'r) boot_state \<Rightarrow> ('pt, 'fa, 'r) boot_state \<Rightarrow> bool" where
  "setup_step ainv free view s s' \<longleftrightarrow>
     ainv (s_allocator s') \<and> free (s_allocator s') \<subseteq> free (s_allocator s) \<and>
     view (kernel_table s) \<subseteq>\<^sub>m view (kernel_table s') \<and>
     (\<forall>a. s_memory s' a = s_memory s a \<or> in_frames (free (s_allocator s)) a) \<and>
     kernel_level_4_frame s' = kernel_level_4_frame s"

context kernel_setup
begin

lemma setup_step_refl: "inv (s_allocator s) \<Longrightarrow> setup_step inv free view s s"
  by (simp add: setup_step_def)

lemma setup_step_trans:
  "setup_step inv free view s t \<Longrightarrow> setup_step inv free view t u \<Longrightarrow> setup_step inv free view s u"
proof -
  assume st: "setup_step inv free view s t" and tu: "setup_step inv free view t u"
  have "s_memory u a = s_memory s a \<or> in_frames (free (s_allocator s)) a" for a
    using st tu unfolding setup_step_def in_frames_def by (metis subsetD)
  moreover have "view (kernel_table s) \<subseteq>\<^sub>m view (kernel_table u)"
    using st tu map_le_trans unfolding setup_step_def by blast
  ultimately show ?thesis using st tu by (auto simp: setup_step_def)
qed

lemma setup_step_inv: "setup_step inv free view s s' \<Longrightarrow> inv (s_allocator s')"
  by (simp add: setup_step_def)

lemma setup_step_used: "setup_step inv free view (s\<lparr>s_used := u\<rparr>) s' \<longleftrightarrow> setup_step inv free view s s'"
  by (simp add: setup_step_def)

lemma kernel_map_ok:
  assumes "kernel_map X T M p f fl s = Ok s'" and "inv (s_allocator s)"
  shows "setup_step inv free view s s'" and "view (kernel_table s) p = None"
    and "view (kernel_table s') = (view (kernel_table s))(p \<mapsto> (f, fl))"
    and "s' = s\<lparr>kernel_table := kernel_table s', s_allocator := s_allocator s'\<rparr>"
proof -
  from assms(1) obtain pt fa where m: "map_to M (allocate_frame X T) p f fl (kernel_table s) (s_allocator s) = Ok (pt, fa)"
    and s': "s' = s\<lparr>kernel_table := pt, s_allocator := fa\<rparr>"
    by (auto simp: kernel_map_def res_simps)
  from map_to_ok[OF assms(2) m] show "setup_step inv free view s s'" and "view (kernel_table s) p = None"
    and "view (kernel_table s') = (view (kernel_table s))(p \<mapsto> (f, fl))"
    and "s' = s\<lparr>kernel_table := kernel_table s', s_allocator := s_allocator s'\<rparr>"
    by (auto simp: s' setup_step_def map_le_def)
qed

lemma take_frame_ok:
  assumes "take_frame X T msg s = Ok (f, s')" and "inv (s_allocator s)"
  shows "setup_step inv free view s s'" and "f \<in> free (s_allocator s)" and "f \<notin> free (s_allocator s')"
    and "s' = s\<lparr>s_allocator := s_allocator s'\<rparr>"
proof -
  from assms(1) obtain fa where a: "allocate_frame X T (s_allocator s) = Ok (Some f, fa)"
    and s': "s' = s\<lparr>s_allocator := fa\<rparr>"
    by (auto simp: take_frame_def res_simps)
  from alloc_some[OF assms(2) a] alloc_inv[OF assms(2) a]
  show "setup_step inv free view s s'" and "f \<in> free (s_allocator s)" and "f \<notin> free (s_allocator s')"
    and "s' = s\<lparr>s_allocator := s_allocator s'\<rparr>"
    by (auto simp: s' setup_step_def)
qed

lemma setup_fold:
  assumes "foldR f xs s = Ok s'" and "inv (s_allocator s)"
    and "\<And>z t t'. f z t = Ok t' \<Longrightarrow> inv (s_allocator t) \<Longrightarrow> setup_step inv free view t t'"
  shows "setup_step inv free view s s'"
  by (rule foldR_preserves[OF assms(1), where P = "setup_step inv free view s"])
    (use assms(2,3) in \<open>auto intro: setup_step_refl setup_step_trans[OF _ assms(3)] setup_step_inv\<close>)

text \<open>Pages mapped to frames of their own.\<close>

lemma map_stack_page_ok:
  assumes "map_stack_page X T M p s = Ok s'" and inv: "inv (s_allocator s)"
  shows "setup_step inv free view s s'"
    and "\<exists>f. view (kernel_table s') = (view (kernel_table s))(p \<mapsto> (f, {PRESENT, WRITABLE})) \<and>
      f \<in> free (s_allocator s) \<and> f \<notin> free (s_allocator s')"
proof -
  from assms(1) obtain f s1 where t: "take_frame X T ''frame allocation failed when mapping a kernel stack'' s = Ok (f, s1)"
    and k: "kernel_map X T M p f {PRESENT, WRITABLE} s1 = Ok s'"
    by (auto simp: map_stack_page_def res_simps)
  note t = take_frame_ok[OF t inv]
  note k = kernel_map_ok[OF k setup_step_inv[OF t(1)]]
  show "setup_step inv free view s s'" by (rule setup_step_trans[OF t(1) k(1)])
  have "kernel_table s1 = kernel_table s" using arg_cong[OF t(4), of kernel_table] by simp
  then show "\<exists>f. view (kernel_table s') = (view (kernel_table s))(p \<mapsto> (f, {PRESENT, WRITABLE})) \<and>
      f \<in> free (s_allocator s) \<and> f \<notin> free (s_allocator s')"
    using k(1,3) t(2,3) by (auto simp: setup_step_def)
qed

lemma map_stack_pages:
  assumes ok: "foldR (map_stack_page X T M) ps s = Ok s'" and inv: "inv (s_allocator s)"
  shows "setup_step inv free view s s' \<and>
    (\<forall>p \<in> set ps. \<exists>f. view (kernel_table s') p = Some (f, {PRESENT, WRITABLE}) \<and>
      f \<in> free (s_allocator s) \<and> f \<notin> free (s_allocator s')) \<and>
    (\<forall>p \<in> set ps. \<forall>q \<in> set ps. p \<noteq> q \<longrightarrow> view (kernel_table s') p \<noteq> view (kernel_table s') q)"
proof (rule foldR_invariant[OF ok])
  fix ys z zs t t'
  assume I: "setup_step inv free view s t \<and>
    (\<forall>p \<in> set ys. \<exists>f. view (kernel_table t) p = Some (f, {PRESENT, WRITABLE}) \<and>
      f \<in> free (s_allocator s) \<and> f \<notin> free (s_allocator t)) \<and>
    (\<forall>p \<in> set ys. \<forall>q \<in> set ys. p \<noteq> q \<longrightarrow> view (kernel_table t) p \<noteq> view (kernel_table t) q)"
    and step: "map_stack_page X T M z t = Ok t'"
  have st: "setup_step inv free view s t" using I by blast
  note o = map_stack_page_ok[OF step setup_step_inv[OF st]]
  then obtain f where f: "view (kernel_table t') = (view (kernel_table t))(z \<mapsto> (f, {PRESENT, WRITABLE}))"
    "f \<in> free (s_allocator t)" "f \<notin> free (s_allocator t')" by blast
  have old: "\<exists>g. view (kernel_table t) p = Some (g, {PRESENT, WRITABLE}) \<and>
      g \<in> free (s_allocator s) \<and> g \<notin> free (s_allocator t)" if "p \<in> set ys" for p using I that by blast
  have sub: "free (s_allocator t') \<subseteq> free (s_allocator t)" "free (s_allocator t) \<subseteq> free (s_allocator s)"
    using o(1) st by (simp_all add: setup_step_def)
  have "\<exists>g. view (kernel_table t') p = Some (g, {PRESENT, WRITABLE}) \<and>
      g \<in> free (s_allocator s) \<and> g \<notin> free (s_allocator t')" if "p \<in> set (ys @ [z])" for p
  proof (cases "p = z")
    case True
    then show ?thesis using f sub by auto
  next
    case False
    then obtain g where "view (kernel_table t) p = Some (g, {PRESENT, WRITABLE})"
      "g \<in> free (s_allocator s)" "g \<notin> free (s_allocator t)" using old \<open>p \<in> set (ys @ [z])\<close> by auto
    then show ?thesis using f(1) False sub(1) by auto
  qed
  moreover have "view (kernel_table t') p \<noteq> view (kernel_table t') q"
    if "p \<in> set (ys @ [z])" "q \<in> set (ys @ [z])" "p \<noteq> q" for p q
  proof -
    have "view (kernel_table t) q \<noteq> Some (f, {PRESENT, WRITABLE})" if "q \<in> set ys" for q
      using old[OF that] f(2) by auto
    moreover have "view (kernel_table t) p \<noteq> view (kernel_table t) q" if "p \<in> set ys" "q \<in> set ys"
      using I that \<open>p \<noteq> q\<close> by blast
    ultimately show ?thesis using \<open>p \<in> set (ys @ [z])\<close> \<open>q \<in> set (ys @ [z])\<close> \<open>p \<noteq> q\<close> unfolding f(1)
      by (cases "p = z"; cases "q = z") (auto simp del: fun_upd_apply simp: fun_upd_same fun_upd_other dest: sym)
  qed
  ultimately show "setup_step inv free view s t' \<and>
    (\<forall>p \<in> set (ys @ [z]). \<exists>f. view (kernel_table t') p = Some (f, {PRESENT, WRITABLE}) \<and>
      f \<in> free (s_allocator s) \<and> f \<notin> free (s_allocator t')) \<and>
    (\<forall>p \<in> set (ys @ [z]). \<forall>q \<in> set (ys @ [z]). p \<noteq> q \<longrightarrow> view (kernel_table t') p \<noteq> view (kernel_table t') q)"
    using setup_step_trans[OF st o(1)] by blast
qed (simp add: setup_step_refl[OF inv])

end

section \<open>Placing the mappings\<close>

text \<open>A fixed range in one half of the address space, or a dynamic one smaller than a level 4 entry.\<close>

definition placed :: "mapping \<Rightarrow> nat \<Rightarrow> bool" where
  "placed mp sz \<longleftrightarrow> 0 < sz \<and>
     (case mp of FixedAddress a \<Rightarrow> same_half (unat a) (unat a + sz - 1) | Dynamic \<Rightarrow> sz < 2 ^ 39)"

context x86_64
begin

lemma mapping_addr_ok:
  assumes ok: "mapping_addr X R mp sz al u = Ok (r, u')" and rng: "rng_ok R"
    and len: "length (entry_state u) = 512" and pl: "placed mp sz"
  shows "length (entry_state u') = 512" and "extends u u'"
    and "r = Inr a \<Longrightarrow> al dvd a \<and> same_half a (a + sz - 1)"
proof -
  from ok obtain addr b where c: "(case mp of
         FixedAddress addr \<Rightarrow> bindR (virt_new X (unat addr)) (\<lambda>a. Ok (a, u))
       | Dynamic \<Rightarrow> get_free_address X R sz al u) = Ok (addr, u')"
    and b: "virt_is_aligned X addr al = Ok b" and r: "r = (if b then Inr addr else Inl addr)"
    by (auto simp: mapping_addr_def res_simps)
  have half: "same_half addr (addr + sz - 1)" and ext: "extends u u'"
  proof -
    have "same_half addr (addr + sz - 1) \<and> extends u u'"
    proof (cases mp)
      case (FixedAddress w)
      with pl have h: "same_half (unat w) (unat w + sz - 1)" by (simp add: placed_def)
      then have "canonical (unat w)" by (auto dest: same_half_canonical)
      with c FixedAddress h show ?thesis by (auto simp: virt_new extends_refl)
    next
      case Dynamic
      with c have g: "get_free_address X R sz al u = Ok (addr, u')" by simp
      have "0 < sz" "sz < 2 ^ 39" using pl Dynamic by (simp_all add: placed_def)
      with single_entry_half[OF rng g len] get_free_address_extends[OF rng g len] show ?thesis by simp
    qed
    then show "same_half addr (addr + sz - 1)" and "extends u u'" by auto
  qed
  show "extends u u'" by (rule ext)
  then show "length (entry_state u') = 512" using len by (simp add: extends_def)
  show "al dvd a \<and> same_half a (a + sz - 1)" if "r = Inr a"
    using that r b half by (auto simp: virt_is_aligned split: if_splits)
qed

lemma mapping_addr_page_aligned_ok:
  assumes "mapping_addr_page_aligned X R mp sz u = Ok (a, u')" and "rng_ok R"
    and "length (entry_state u) = 512" and "placed mp sz"
  shows "length (entry_state u') = 512" and "extends u u'" and "4096 dvd a" and "same_half a (a + sz - 1)"
proof -
  from assms(1) obtain r v where m0: "mapping_addr X R mp sz 4096 u = Ok (r, v)"
    and c: "(case r of Inr addr \<Rightarrow> Ok (addr, v)
      | Inl addr \<Rightarrow> Panic (Explicit ''address must be page-aligned'')) = Ok (a, u')"
    by (auto simp: mapping_addr_page_aligned_def res_simps)
  from c m0 have m: "mapping_addr X R mp sz 4096 u = Ok (r, u')" and r: "r = Inr a" by (cases r; simp)+
  from mapping_addr_ok[OF m assms(2-4)] r show "length (entry_state u') = 512" and "extends u u'"
    and "4096 dvd a" and "same_half a (a + sz - 1)" by auto
qed

text \<open>The end of a range that starts at \<open>a\<close>, when taking the address before it succeeds.\<close>

lemma range_end:
  assumes "same_half a (a + n - 1)" and "0 < n"
    and "virt_add X a n = Ok e" and "virt_sub X e 1 = Ok l"
  shows "e = a + n" and "l = a + n - 1"
proof -
  have can: "canonical a" "canonical (a + n - 1)" using assms(1) by (auto dest: same_half_canonical)
  have se: "sign_extend (a + n) = Some e" using assms(3) can by (auto simp: virt_add split: option.splits)
  then have ce: "canonical e" by (rule sign_extend_canonical)
  have sl: "sign_extend (e - 1) = Some l" using assms(4) ce by (auto simp: virt_sub split: if_splits option.splits)
  have "a + n \<noteq> 2 ^ 47"
  proof
    assume "a + n = 2 ^ 47"
    then have "e = 2 ^ 64 - 2 ^ 47" using se by (simp add: sign_extend_def)
    then show False using sl by (simp add: sign_extend_def)
  qed
  then have "canonical (a + n)"
    using can(2) se assms(2) by (auto simp: canonical_def sign_extend_def split: if_splits)
  then show e: "e = a + n" using se by simp
  then show "l = a + n - 1" using sl can(2) by simp
qed

end

section \<open>The kernel's stack\<close>

sublocale kernel_setup \<subseteq> ld: kernel_loader X "allocate_frame X T" inv free M view
  by unfold_locales

context kernel_setup
begin

lemma kernel_map_used: "kernel_map X T M p f fl s = Ok s' \<Longrightarrow> s_used s' = s_used s"
  by (auto simp: kernel_map_def res_simps)

lemma map_stack_page_used: "map_stack_page X T M p s = Ok s' \<Longrightarrow> s_used s' = s_used s"
  using kernel_map_used by (fastforce simp: map_stack_page_def take_frame_def res_simps)

lemma map_stack_ok:
  assumes ok: "map_stack X T M R config s = Ok (start, e, s')" and inv: "inv (s_allocator s)" and rng: "rng_ok R"
    and len: "length (entry_state (s_used s)) = 512"
    and pl: "placed (kernel_stack (mappings config)) (4096 + unat (kernel_stack_size config))"
    and pos: "0 < unat (kernel_stack_size config)"
  shows "setup_step inv free view s s'" and "length (entry_state (s_used s')) = 512"
    and "4096 dvd start" and "4096 \<le> start" and "e = start + unat (kernel_stack_size config)" and "same_half start (e - 1)"
    and "start \<le> va \<Longrightarrow> va < e \<Longrightarrow> \<exists>f. view (kernel_table s') (va div 4096 * 4096) = Some (f, {PRESENT, WRITABLE}) \<and>
      f \<in> free (s_allocator s) \<and> f \<notin> free (s_allocator s')"
    and "start \<le> va \<Longrightarrow> va < e \<Longrightarrow> start \<le> vb \<Longrightarrow> vb < e \<Longrightarrow> va div 4096 \<noteq> vb div 4096 \<Longrightarrow>
      view (kernel_table s') (va div 4096 * 4096) \<noteq> view (kernel_table s') (vb div 4096 * 4096)"
proof -
  let ?n = "unat (kernel_stack_size config)"
  from ok obtain g u l where g: "mapping_addr_page_aligned X R (kernel_stack (mappings config)) (4096 + ?n) (s_used s) = Ok (g, u)"
    and st: "page_add X g 1 = Ok start" and e: "virt_add X start ?n = Ok e" and l: "virt_sub X e 1 = Ok l"
    and loop: "foldR (map_stack_page X T M) (page_range X start (page_containing X l)) (s\<lparr>s_used := u\<rparr>) = Ok s'"
    by (auto simp: map_stack_def res_simps add_w_def split: if_splits)
  note gp = mapping_addr_page_aligned_ok[OF g rng len pl]
  have half: "same_half (g + 4096) (g + 4096 + ?n - 1)"
    using same_half_between[OF gp(4), of "g + 4096"] pos by (simp add: add.assoc)
  have can: "canonical g" "canonical (g + 4096)" using gp(4) half by (auto dest: same_half_canonical)
  then have start: "start = g + 4096" using st gp(3) by (simp add: page_add)
  show al: "4096 dvd start" and "4096 \<le> start" using gp(3) by (simp_all add: start)
  note re = range_end[OF half[folded start] pos e l]
  show "e = start + ?n" by (rule re(1))
  show hl: "same_half start (e - 1)" using half re(1) by (simp add: start)
  have le: "start \<le> l" using re(2) pos by simp
  have hsl: "same_half start l" using hl re by simp
  have range: "page_range X start (page_containing X l) = steps_of start (l div 4096 * 4096)"
    using ld.page_range_steps[OF hsl le] al by (simp add: page_containing)
  note m = map_stack_pages[OF loop[unfolded range]]
  have inv': "inv (s_allocator (s\<lparr>s_used := u\<rparr>))" using inv by simp
  show "setup_step inv free view s s'" using m[OF inv'] by (simp add: setup_step_used)
  have pg: "va div 4096 * 4096 \<in> set (steps_of start (l div 4096 * 4096))" if "start \<le> va" "va < e" for va
  proof -
    have "va \<le> l" using that re pos by simp
    then show ?thesis using ld.page_in_range[OF that(1), of l] ld.set_pages[of _ start l] al by simp
  qed
  have "s_used s' = u"
    by (rule foldR_preserves[OF loop, where P = "\<lambda>t. s_used t = u"]) (auto dest: map_stack_page_used)
  then show "length (entry_state (s_used s')) = 512" using gp(1) by simp
  show "\<exists>f. view (kernel_table s') (va div 4096 * 4096) = Some (f, {PRESENT, WRITABLE}) \<and>
      f \<in> free (s_allocator s) \<and> f \<notin> free (s_allocator s')" if "start \<le> va" "va < e"
    using m[OF inv'] pg[OF that] by simp
  show "view (kernel_table s') (va div 4096 * 4096) \<noteq> view (kernel_table s') (vb div 4096 * 4096)"
    if "start \<le> va" "va < e" "start \<le> vb" "vb < e" "va div 4096 \<noteq> vb div 4096"
    using m[OF inv'] pg[OF that(1,2)] pg[OF that(3,4)] that(5) by simp
qed

end

section \<open>Mapping the code, the GDT, devices and physical memory\<close>

context kernel_setup
begin

lemma identity_map_frame_ok:
  assumes "identity_map_frame X T P f s = Ok s'" and "inv (s_allocator s)"
  shows "setup_step inv free view s s'" and "s_used s' = s_used s"
    and "f < 2 ^ 47 \<Longrightarrow> view (kernel_table s') f = Some (f, {PRESENT})"
  using assms identity_map_ok[OF assms(2)]
  by (fastforce simp: identity_map_frame_def res_simps setup_step_def)+

lemma map_context_switch_ok:
  assumes "map_context_switch X T P cs s = Ok s'" and inv: "inv (s_allocator s)"
  shows "setup_step inv free view s s'" and "s_used s' = s_used s"
proof -
  from assms(1) obtain fs where l: "foldR (identity_map_frame X T P) fs s = Ok s'"
    by (auto simp: map_context_switch_def res_simps Let_def)
  show "setup_step inv free view s s'" by (rule setup_fold[OF l inv identity_map_frame_ok(1)])
  show "s_used s' = s_used s"
    by (rule foldR_preserves[OF l, where P = "\<lambda>t. s_used t = s_used s"])
      (auto simp: identity_map_frame_def res_simps)
qed

lemma map_gdt_ok:
  assumes "map_gdt X T P s = Ok s'" and inv: "inv (s_allocator s)"
    and low: "free (s_allocator s) \<subseteq> {f. f < 2 ^ 47}"
  shows "setup_step inv free view s s'" and "s_used s' = s_used s"
proof -
  from assms(1) obtain f s1 s2 where t: "take_frame X T ''failed to allocate GDT frame'' s = Ok (f, s1)"
    and c: "create_and_load X P f s1 = Ok s2" and m: "identity_map_frame X T P f s2 = Ok s'"
    by (auto simp: map_gdt_def res_simps)
  note t = take_frame_ok[OF t inv]
  have "f < 2 ^ 47" using t(2) low by auto
  then have s2: "s2 = s1\<lparr>s_memory := write_slice (s_memory s1) f (gdt_bytes P), loaded_gdt := Some f\<rparr>"
    using c by (auto simp: create_and_load_def virt_new sign_extend_def)
  have al: "4096 dvd f" by (rule free_aligned[OF t(2)])
  have mem1: "s_memory s1 = s_memory s" using arg_cong[OF t(4), of s_memory] by simp
  have "s_memory s2 a = s_memory s a \<or> in_frames (free (s_allocator s)) a" for a
    using in_frame_page[OF al, of a] t(2) gdt_fits
    by (auto simp: s2 write_slice_apply mem1 in_frames_def)
  then have "setup_step inv free view s s2" using t(1) by (auto simp: s2 setup_step_def)
  moreover note identity_map_frame_ok[OF m setup_step_inv[OF calculation]]
  ultimately show "setup_step inv free view s s'" by (blast intro: setup_step_trans)
  show "s_used s' = s_used s"
    using identity_map_frame_ok(2)[OF m setup_step_inv[OF \<open>setup_step inv free view s s2\<close>]]
      arg_cong[OF t(4), of s_used] by (simp add: s2)
qed

lemma map_frames_ok:
  assumes "map_frames X T M sp fs s = Ok s'" and inv: "inv (s_allocator s)"
  shows "setup_step inv free view s s'" and "s_used s' = s_used s"
proof -
  note l = assms(1)[unfolded map_frames_def]
  show "setup_step inv free view s s'"
    by (rule setup_fold[OF l inv]) (auto simp: map_nth_frame_def res_simps intro: kernel_map_ok(1))
  show "s_used s' = s_used s"
    by (rule foldR_preserves[OF l, where P = "\<lambda>t. s_used t = s_used s"])
      (auto simp: map_nth_frame_def res_simps, metis kernel_map_used)
qed

text \<open>The frames from \<open>sf\<close> on appear at the pages from \<open>sp\<close> on.\<close>

lemma map_frames_view:
  assumes "map_frames X T M sp (map (\<lambda>i. sf + 4096 * i) [0..<n]) s = Ok s'" and inv: "inv (s_allocator s)"
    and al: "4096 dvd sp" and half: "\<And>i. i < n \<Longrightarrow> same_half sp (sp + 4096 * i)" and i: "i < n"
  shows "view (kernel_table s') (sp + 4096 * i) = Some (sf + 4096 * i, {PRESENT, WRITABLE})"
proof -
  have zip: "zip [0..<n] (map (\<lambda>i. sf + 4096 * i) [0..<n]) = map (\<lambda>i. (i, sf + 4096 * i)) [0..<n]" for n
    by (rule nth_equalityI) simp_all
  have "setup_step inv free view s s' \<and>
    (\<forall>i < n. view (kernel_table s') (sp + 4096 * i) = Some (sf + 4096 * i, {PRESENT, WRITABLE}))"
    using assms(1) half unfolding map_frames_def length_map length_upt diff_zero zip
  proof (induction n arbitrary: s')
    case 0
    then show ?case using inv by (simp add: setup_step_refl)
  next
    case (Suc n)
    from Suc.prems(1) obtain s1 where s1: "foldR (map_nth_frame X T M sp) (map (\<lambda>i. (i, sf + 4096 * i)) [0..<n]) s = Ok s1"
      and step: "map_nth_frame X T M sp (n, sf + 4096 * n) s1 = Ok s'"
      by (auto simp: res_simps)
    from Suc.IH[OF s1] Suc.prems(2) have IH: "setup_step inv free view s s1"
      "\<forall>i < n. view (kernel_table s1) (sp + 4096 * i) = Some (sf + 4096 * i, {PRESENT, WRITABLE})" by simp_all
    have can: "canonical sp" "canonical (sp + 4096 * n)" using Suc.prems(2)[of n] by (auto dest: same_half_canonical)
    with step al have k: "kernel_map X T M (sp + 4096 * n) (sf + 4096 * n) {PRESENT, WRITABLE} s1 = Ok s'"
      by (simp add: map_nth_frame_def page_add)
    note k = kernel_map_ok[OF k setup_step_inv[OF IH(1)]]
    show ?case using setup_step_trans[OF IH(1) k(1)] IH(2) k(3) by (auto simp: less_Suc_eq)
  qed
  then show ?thesis using i by blast
qed

lemma map_frames_bytes:
  assumes m: "map_frames X T M v (map (\<lambda>i. a + 4096 * i) [0..<(n - 1) div 4096 + 1]) s = Ok s'"
    and inv: "inv (s_allocator s)" and al: "4096 dvd v" "4096 dvd a" and half: "same_half v (v + n - 1)"
    and pos: "0 < n" and k: "k < n"
  shows "view (kernel_table s') ((v + k) div 4096 * 4096) = Some ((a + k) div 4096 * 4096, {PRESENT, WRITABLE})"
proof -
  define c where "c = (n - 1) div 4096 + 1"
  have bound: "4096 * i \<le> n - 1" if "i < c" for i
    using that div_times_less_eq_dividend[of "n - 1" 4096] by (simp add: c_def)
  have half_i: "same_half v (v + 4096 * i)" if "i < c" for i
    using same_half_between[OF half, of "v + 4096 * i"] bound[OF that] pos by simp
  have "k div 4096 < c" using k div_le_mono[of k "n - 1" 4096] by (simp add: c_def)
  from map_frames_view[OF m[folded c_def] inv al(1) half_i this] al
  show ?thesis by (auto elim!: dvdE simp: distrib_right mult.commute)
qed

text \<open>
  The framebuffer and the ramdisk: the bytes at the virtual address are those of the frames from
  the physical address on.
\<close>

lemma map_framebuffer_ok:
  assumes ok: "map_framebuffer X T M R config fb s = Ok (r, s')" and inv: "inv (s_allocator s)" and rng: "rng_ok R"
    and len: "length (entry_state (s_used s)) = 512"
    and pl: "\<forall>raw. fb = Some raw \<longrightarrow> placed (framebuffer (mappings config)) (byte_len (raw_info raw))"
  shows "setup_step inv free view s s'" and "length (entry_state (s_used s')) = 512"
    and "fb = Some raw \<Longrightarrow> 4096 dvd raw_addr raw \<Longrightarrow> \<exists>v. r = Some v \<and> 4096 dvd v \<and>
      (\<forall>k < byte_len (raw_info raw). view (kernel_table s') ((v + k) div 4096 * 4096) =
         Some ((raw_addr raw + k) div 4096 * 4096, {PRESENT, WRITABLE}))"
proof -
  have "setup_step inv free view s s' \<and> length (entry_state (s_used s')) = 512 \<and>
    (\<forall>raw. fb = Some raw \<and> 4096 dvd raw_addr raw \<longrightarrow> (\<exists>v. r = Some v \<and> 4096 dvd v \<and>
      (\<forall>k < byte_len (raw_info raw). view (kernel_table s') ((v + k) div 4096 * 4096) =
         Some ((raw_addr raw + k) div 4096 * 4096, {PRESENT, WRITABLE}))))"
  proof (cases fb)
    case None
    then show ?thesis using ok inv len by (simp add: map_framebuffer_def setup_step_refl)
  next
    case (Some raw)
    let ?a = "raw_addr raw" and ?n = "byte_len (raw_info raw)"
    from ok Some obtain v u where v: "mapping_addr_page_aligned X R (framebuffer (mappings config)) ?n (s_used s) = Ok (v, u)"
      and m: "map_frames X T M v (frame_range X (?a div 4096 * 4096) ((?a + ?n - 1) div 4096 * 4096)) (s\<lparr>s_used := u\<rparr>) = Ok s'"
      and r: "r = Some v"
      by (auto simp: map_framebuffer_def res_simps Let_def frame_containing phys_add phys_sub split: if_splits)
    have pl': "placed (framebuffer (mappings config)) ?n" using pl Some by simp
    then have pos: "0 < ?n" by (simp add: placed_def)
    note a = mapping_addr_page_aligned_ok[OF v rng len pl']
    have inv': "inv (s_allocator (s\<lparr>s_used := u\<rparr>))" using inv by simp
    note mf = map_frames_ok[OF m inv']
    have "\<forall>k < ?n. view (kernel_table s') ((v + k) div 4096 * 4096) = Some ((?a + k) div 4096 * 4096, {PRESENT, WRITABLE})"
      if al: "4096 dvd ?a"
    proof (intro allI impI)
      fix k assume k: "k < ?n"
      obtain q where q: "?a = 4096 * q" using al by (auto elim: dvdE)
      have "(?a + ?n - 1) div 4096 = q + (?n - 1) div 4096" using pos by (simp add: q Nat.add_diff_assoc)
      then have fr: "frame_range X (?a div 4096 * 4096) ((?a + ?n - 1) div 4096 * 4096) =
          map (\<lambda>i. ?a + 4096 * i) [0..<(?n - 1) div 4096 + 1]"
        by (simp add: frame_range steps_of_def q distrib_right)
      show "view (kernel_table s') ((v + k) div 4096 * 4096) = Some ((?a + k) div 4096 * 4096, {PRESENT, WRITABLE})"
        by (rule map_frames_bytes[OF m[unfolded fr] inv' a(3) al a(4) pos k])
    qed
    then show ?thesis using mf a r Some by (auto simp: setup_step_used)
  qed
  then show "setup_step inv free view s s'" and "length (entry_state (s_used s')) = 512"
    and "fb = Some raw \<Longrightarrow> 4096 dvd raw_addr raw \<Longrightarrow> \<exists>v. r = Some v \<and> 4096 dvd v \<and>
      (\<forall>k < byte_len (raw_info raw). view (kernel_table s') ((v + k) div 4096 * 4096) =
         Some ((raw_addr raw + k) div 4096 * 4096, {PRESENT, WRITABLE}))" by blast+
qed

lemma map_ramdisk_ok:
  assumes ok: "map_ramdisk X T M R config info s = Ok (r, s')" and inv: "inv (s_allocator s)" and rng: "rng_ok R"
    and len: "length (entry_state (s_used s)) = 512"
    and pl: "si_ramdisk_addr info \<noteq> None \<longrightarrow> placed (ramdisk_memory (mappings config)) (si_ramdisk_len info)"
  shows "setup_step inv free view s s'" and "length (entry_state (s_used s')) = 512"
    and "si_ramdisk_addr info = Some a \<Longrightarrow> \<exists>v. r = Some v \<and> 4096 dvd v \<and>
      (\<forall>k < si_ramdisk_len info. view (kernel_table s') ((v + k) div 4096 * 4096) =
         Some ((a div 4096 * 4096 + k) div 4096 * 4096, {PRESENT, WRITABLE}))"
proof -
  have "setup_step inv free view s s' \<and> length (entry_state (s_used s')) = 512 \<and>
    (\<forall>a. si_ramdisk_addr info = Some a \<longrightarrow> (\<exists>v. r = Some v \<and> 4096 dvd v \<and>
      (\<forall>k < si_ramdisk_len info. view (kernel_table s') ((v + k) div 4096 * 4096) =
         Some ((a div 4096 * 4096 + k) div 4096 * 4096, {PRESENT, WRITABLE}))))"
  proof (cases "si_ramdisk_addr info")
    case None
    then show ?thesis using ok inv len by (simp add: map_ramdisk_def setup_step_refl)
  next
    case (Some a)
    let ?n = "si_ramdisk_len info" and ?f = "a div 4096 * 4096"
    have pl': "placed (ramdisk_memory (mappings config)) ?n" using pl Some by simp
    then have pos: "0 < ?n" by (simp add: placed_def)
    from ok Some pos obtain v u where v: "mapping_addr_page_aligned X R (ramdisk_memory (mappings config)) ?n (s_used s) = Ok (v, u)"
      and m: "map_frames X T M v (frame_range X ?f (?f + 4096 * ((?n - 1) div 4096))) (s\<lparr>s_used := u\<rparr>) = Ok s'"
      and r: "r = Some v"
      by (auto simp: map_ramdisk_def res_simps Let_def frame_containing phys_new frame_add sub_w_def split: if_splits)
    note ad = mapping_addr_page_aligned_ok[OF v rng len pl']
    have inv': "inv (s_allocator (s\<lparr>s_used := u\<rparr>))" using inv by simp
    note mf = map_frames_ok[OF m inv']
    have fr: "frame_range X ?f (?f + 4096 * ((?n - 1) div 4096)) = map (\<lambda>i. ?f + 4096 * i) [0..<(?n - 1) div 4096 + 1]"
      by (simp add: frame_range steps_of_def)
    have al: "4096 dvd ?f" by simp
    show ?thesis using map_frames_bytes[OF m[unfolded fr] inv' ad(3) al ad(4) pos] mf ad r Some
      by (auto simp: setup_step_used)
  qed
  then show "setup_step inv free view s s'" and "length (entry_state (s_used s')) = 512"
    and "si_ramdisk_addr info = Some a \<Longrightarrow> \<exists>v. r = Some v \<and> 4096 dvd v \<and>
      (\<forall>k < si_ramdisk_len info. view (kernel_table s') ((v + k) div 4096 * 4096) =
         Some ((a div 4096 * 4096 + k) div 4096 * 4096, {PRESENT, WRITABLE}))" by blast+
qed

lemma map_2mib_frame_ok:
  assumes "map_2mib_frame X T P off f s = Ok s'" and "inv (s_allocator s)"
  shows "setup_step inv free view s s'" and "s_used s' = s_used s"
    and "virt_add X off f = Ok a \<Longrightarrow> huge_view (kernel_table s') =
      (huge_view (kernel_table s))(a div 2 ^ 21 * 2 ^ 21 \<mapsto> (f, {PRESENT, WRITABLE}))"
proof -
  from assms(1) obtain b pt fa where b: "virt_add X off f = Ok b"
    and m: "map_to_2mib P (allocate_frame X T) (b div 2 ^ 21 * 2 ^ 21) f {PRESENT, WRITABLE} (kernel_table s) (s_allocator s) = Ok (pt, fa)"
    and s': "s' = s\<lparr>kernel_table := pt, s_allocator := fa\<rparr>"
    by (auto simp: map_2mib_frame_def res_simps containing_2mib)
  from map_to_2mib_ok[OF assms(2) m] b
  show "setup_step inv free view s s'" and "s_used s' = s_used s"
    and "virt_add X off f = Ok a \<Longrightarrow> huge_view (kernel_table s') =
      (huge_view (kernel_table s))(a div 2 ^ 21 * 2 ^ 21 \<mapsto> (f, {PRESENT, WRITABLE}))"
    by (auto simp: s' setup_step_def)
qed

lemma map_2mib_frames:
  assumes "foldR (map_2mib_frame X T P off) (map (\<lambda>i. 2 ^ 21 * i) [0..<n]) s = Ok s'" and inv: "inv (s_allocator s)"
    and al: "2 ^ 21 dvd off" and half: "\<And>i. i < n \<Longrightarrow> same_half off (off + 2 ^ 21 * i)"
  shows "setup_step inv free view s s' \<and> s_used s' = s_used s \<and>
    (\<forall>i < n. huge_view (kernel_table s') (off + 2 ^ 21 * i) = Some (2 ^ 21 * i, {PRESENT, WRITABLE}))"
  using assms(1) half
proof (induction n arbitrary: s')
  case 0
  then show ?case using inv by (simp add: setup_step_refl)
next
  case (Suc n)
  from Suc.prems(1) obtain s1 where s1: "foldR (map_2mib_frame X T P off) (map (\<lambda>i. 2 ^ 21 * i) [0..<n]) s = Ok s1"
    and step: "map_2mib_frame X T P off (2 ^ 21 * n) s1 = Ok s'"
    by (auto simp: res_simps)
  from Suc.IH[OF s1] Suc.prems(2) have IH: "setup_step inv free view s s1" "s_used s1 = s_used s"
    "\<forall>i < n. huge_view (kernel_table s1) (off + 2 ^ 21 * i) = Some (2 ^ 21 * i, {PRESENT, WRITABLE})" by simp_all
  have "canonical off" "canonical (off + 2 ^ 21 * n)" using Suc.prems(2)[of n] by (auto dest: same_half_canonical)
  then have va: "virt_add X off (2 ^ 21 * n) = Ok (off + 2 ^ 21 * n)" by (simp add: virt_add)
  note o = map_2mib_frame_ok[OF step setup_step_inv[OF IH(1)]]
  have "(off + 2 ^ 21 * n) div 2 ^ 21 * 2 ^ 21 = off + 2 ^ 21 * n" using al by (auto elim!: dvdE)
  then have "huge_view (kernel_table s') = (huge_view (kernel_table s1))(off + 2 ^ 21 * n \<mapsto> (2 ^ 21 * n, {PRESENT, WRITABLE}))"
    using o(3)[OF va] by metis
  then show ?case using setup_step_trans[OF IH(1) o(1)] o(2) IH(2,3) by (auto simp: less_Suc_eq)
qed

text \<open>Physical memory appears at its offset, in 2 MiB pages.\<close>

lemma map_physical_memory_ok:
  assumes ok: "map_physical_memory X T P R config s = Ok (r, s')" and inv: "inv (s_allocator s)" and rng: "rng_ok R"
    and len: "length (entry_state (s_used s)) = 512"
    and mp: "max_phys_addr X T (s_allocator s) = Ok mp"
    and pl: "\<forall>c. physical_memory (mappings config) = Some c \<longrightarrow> placed c mp"
  shows "setup_step inv free view s s'" and "length (entry_state (s_used s')) = 512"
    and "physical_memory (mappings config) \<noteq> None \<Longrightarrow> \<exists>off. r = Some off \<and> 2 ^ 21 dvd off \<and>
      (\<forall>a < mp. huge_view (kernel_table s') ((off + a) div 2 ^ 21 * 2 ^ 21) =
         Some (a div 2 ^ 21 * 2 ^ 21, {PRESENT, WRITABLE}))"
proof -
  have "setup_step inv free view s s' \<and> length (entry_state (s_used s')) = 512 \<and>
    (physical_memory (mappings config) \<noteq> None \<longrightarrow> (\<exists>off. r = Some off \<and> 2 ^ 21 dvd off \<and>
      (\<forall>a < mp. huge_view (kernel_table s') ((off + a) div 2 ^ 21 * 2 ^ 21) =
         Some (a div 2 ^ 21 * 2 ^ 21, {PRESENT, WRITABLE}))))"
  proof (cases "physical_memory (mappings config)")
    case None
    then show ?thesis using ok inv len by (simp add: map_physical_memory_def setup_step_refl)
  next
    case (Some c)
    have pl': "placed c mp" using pl Some by simp
    then have pos: "0 < mp" by (simp add: placed_def)
    from ok Some mp pos obtain x u where x: "mapping_addr X R c mp (2 ^ 21) (s_used s) = Ok (x, u)"
      and rest: "(case x of Inl _ \<Rightarrow> Panic (Explicit ''start address for physical memory mapping must be 2MiB-page-aligned'')
        | Inr off \<Rightarrow> bindR (foldR (map_2mib_frame X T P off)
              (frame_range_2mib P (containing_2mib P 0) (containing_2mib P (mp - Suc 0)))
            (s\<lparr>s_used := u\<rparr>)) (\<lambda>s. Ok (Some off, s))) = Ok (r, s')"
      by (auto simp: map_physical_memory_def res_simps Let_def phys_new phys_sub split: if_splits)
    define n where "n = (mp - 1) div 2 ^ 21 + 1"
    have fr: "frame_range_2mib P (containing_2mib P 0) (containing_2mib P (mp - Suc 0)) = map (\<lambda>i. 2 ^ 21 * i) [0..<n]"
      using frame_range_2mib[of 0 "(mp - 1) div 2 ^ 21 * 2 ^ 21"] by (simp add: n_def containing_2mib)
    note ma = mapping_addr_ok[OF x rng len pl']
    obtain off where off: "x = Inr off" "r = Some off"
      and m: "foldR (map_2mib_frame X T P off) (map (\<lambda>i. 2 ^ 21 * i) [0..<n]) (s\<lparr>s_used := u\<rparr>) = Ok s'"
      using rest unfolding fr by (cases x) (auto simp: res_simps)
    have al: "2 ^ 21 dvd off" and half: "same_half off (off + mp - 1)" using ma(3)[OF off(1)] by auto
    have half_i: "same_half off (off + 2 ^ 21 * i)" if "i < n" for i
    proof -
      have "2 ^ 21 * i \<le> mp - 1" using that div_times_less_eq_dividend[of "mp - 1" "2 ^ 21"] by (simp add: n_def)
      then show ?thesis using same_half_between[OF half, of "off + 2 ^ 21 * i"] pos by simp
    qed
    have inv': "inv (s_allocator (s\<lparr>s_used := u\<rparr>))" using inv by simp
    note mm = map_2mib_frames[OF m inv' al half_i]
    have "huge_view (kernel_table s') ((off + a) div 2 ^ 21 * 2 ^ 21) = Some (a div 2 ^ 21 * 2 ^ 21, {PRESENT, WRITABLE})"
      if "a < mp" for a
    proof -
      have "a div 2 ^ 21 < n" using that div_le_mono[of a "mp - 1" "2 ^ 21"] by (simp add: n_def)
      with mm have "huge_view (kernel_table s') (off + 2 ^ 21 * (a div 2 ^ 21)) =
          Some (2 ^ 21 * (a div 2 ^ 21), {PRESENT, WRITABLE})" by blast
      moreover have "(off + a) div 2 ^ 21 * 2 ^ 21 = off + 2 ^ 21 * (a div 2 ^ 21)" using al by (auto elim!: dvdE)
      ultimately show ?thesis by (simp only: mult.commute[of "a div 2 ^ 21"])
    qed
    then show ?thesis using mm ma(1) off al Some by (auto simp: setup_step_used)
  qed
  then show "setup_step inv free view s s'" and "length (entry_state (s_used s')) = 512"
    and "physical_memory (mappings config) \<noteq> None \<Longrightarrow> \<exists>off. r = Some off \<and> 2 ^ 21 dvd off \<and>
      (\<forall>a < mp. huge_view (kernel_table s') ((off + a) div 2 ^ 21 * 2 ^ 21) =
         Some (a div 2 ^ 21 * 2 ^ 21, {PRESENT, WRITABLE}))" by blast+
qed

lemma map_page_table_recursive_ok:
  assumes "map_page_table_recursive X P R config s = Ok (r, s')" and "inv (s_allocator s)"
  shows "setup_step inv free view s s'" and "huge_view (kernel_table s) \<subseteq>\<^sub>m huge_view (kernel_table s')"
proof -
  have "setup_step inv free view s s' \<and> huge_view (kernel_table s) \<subseteq>\<^sub>m huge_view (kernel_table s')"
  proof (cases "page_table_recursive (mappings config)")
    case None
    then show ?thesis using assms by (simp add: map_page_table_recursive_def setup_step_refl)
  next
    case (Some c)
    let ?pt = "\<lambda>idx. set_level_4_entry P idx (kernel_level_4_frame s) {PRESENT, WRITABLE} (kernel_table s)"
    from assms(1)[unfolded map_page_table_recursive_def Some option.case] obtain y where
      y: "(case y of (idx, u) \<Rightarrow> if \<not> level_4_unused P idx (kernel_table s)
          then Panic (Explicit ''Could not set up recursive mapping: index already in use'')
          else Ok (Some idx, s\<lparr>s_used := u, kernel_table := ?pt idx\<rparr>)) = Ok (r, s')"
      by (rule bindR_OkE)
    obtain idx u where "y = (idx, u)" by (cases y)
    with y have "level_4_unused P idx (kernel_table s)" "s' = s\<lparr>s_used := u, kernel_table := ?pt idx\<rparr>"
      by (auto split: if_splits)
    then show ?thesis using assms(2) set_level_4_entry_ok by (simp add: setup_step_def)
  qed
  then show "setup_step inv free view s s'" and "huge_view (kernel_table s) \<subseteq>\<^sub>m huge_view (kernel_table s')"
    by auto
qed

lemma map_page_table_recursive_length:
  assumes ok: "map_page_table_recursive X P R config s = Ok (r, s')" and rng: "rng_ok R"
  shows "length (entry_state (s_used s')) = length (entry_state (s_used s))"
proof (cases "page_table_recursive (mappings config)")
  case (Some c)
  then show ?thesis using ok get_free_entries_spec(6)[OF rng]
    by (cases c) (auto simp: map_page_table_recursive_def res_simps split: if_splits)
qed (use ok in \<open>simp add: map_page_table_recursive_def\<close>)

end

section \<open>\<open>set_up_mappings\<close>\<close>

lemma set_up_mappings_steps:
  assumes "set_up_mappings X T M P R D L r cs k fb config info s = Ok (m, s')"
  obtains mp u0 off entry tls i u1 s1 start e s2 s3 s4 fba s5 rd s6 pm s7 idx where
    "max_phys_addr X T (s_allocator s) = Ok mp"
    and "used_entries_new X L r mp (frame_allocator_len (s_allocator s)) fb config = Ok u0"
    and "load_kernel X M (allocate_frame X T) R D (elf k) (kernel_table s) (s_allocator s) (s_memory s) u0 =
      Ok (off, entry, tls, i, u1)"
    and "s1 = s\<lparr>efer_nxe := True, cr0_wp := True, kernel_table := page_table i, s_allocator := frame_allocator i,
      s_memory := mem i, s_used := u1\<rparr>"
    and "map_stack X T M R (kernel_config k) s1 = Ok (start, e, s2)"
    and "map_context_switch X T P cs s2 = Ok s3" and "map_gdt X T P s3 = Ok s4"
    and "map_framebuffer X T M R (kernel_config k) fb s4 = Ok (fba, s5)"
    and "map_ramdisk X T M R (kernel_config k) info s5 = Ok (rd, s6)"
    and "map_physical_memory X T P R (kernel_config k) s6 = Ok (pm, s7)"
    and "map_page_table_recursive X P R (kernel_config k) s7 = Ok (idx, s')"
    and "phys_new X (start_address k) = Ok (m_kernel_slice_start m)"
    and "m = \<lparr>m_entry_point = entry, m_stack_top = align_down_virt P e 16, m_framebuffer = fba,
      m_physical_memory_offset = pm, m_recursive_index = idx, m_tls_template = tls,
      m_kernel_slice_start = m_kernel_slice_start m, m_kernel_slice_len = kernel_file_len k,
      m_kernel_image_offset = off, m_ramdisk_slice_start = rd, m_ramdisk_slice_len = si_ramdisk_len info\<rparr>"
  using assms
  by (auto simp: set_up_mappings_def Let_def enable_nxe_bit_def enable_write_protect_bit_def
      elim!: bindR_OkE split: prod.splits simp: expect_ok_eq_Ok)

text \<open>
  The bytes from \<open>v\<close> on are those of physical memory from \<open>p\<close> on, page by page; all of
  physical memory below \<open>n\<close> is at \<open>v\<close> in pages of 2 MiB.
\<close>

definition maps_range :: "(nat \<rightharpoonup> nat \<times> flag set) \<Rightarrow> nat \<Rightarrow> nat \<Rightarrow> nat \<Rightarrow> bool" where
  "maps_range pages v p n \<longleftrightarrow>
     (\<forall>j < n. pages ((v + j) div 4096 * 4096) = Some ((p + j) div 4096 * 4096, {PRESENT, WRITABLE}))"

definition maps_physical :: "(nat \<rightharpoonup> nat \<times> flag set) \<Rightarrow> nat \<Rightarrow> nat \<Rightarrow> bool" where
  "maps_physical pages v n \<longleftrightarrow>
     (\<forall>a < n. pages ((v + a) div 2 ^ 21 * 2 ^ 21) = Some (a div 2 ^ 21 * 2 ^ 21, {PRESENT, WRITABLE}))"

lemma map_le_Some: "f \<subseteq>\<^sub>m g \<Longrightarrow> f x = Some y \<Longrightarrow> g x = Some y"
  by (metis domI map_le_def)

lemma maps_range_mono: "maps_range pages v p n \<Longrightarrow> pages \<subseteq>\<^sub>m pages' \<Longrightarrow> maps_range pages' v p n"
  unfolding maps_range_def by (blast intro: map_le_Some)

lemma maps_physical_mono: "maps_physical pages v n \<Longrightarrow> pages \<subseteq>\<^sub>m pages' \<Longrightarrow> maps_physical pages' v n"
  unfolding maps_physical_def by (blast intro: map_le_Some)

text \<open>The sizes and fixed addresses of a boot that fit the address space; \<open>mp\<close> ends physical memory.\<close>

definition layout_fits :: "kernel \<Rightarrow> raw_frame_buffer_info option \<Rightarrow> system_info \<Rightarrow> nat \<Rightarrow> bool" where
  "layout_fits k fb info mp \<longleftrightarrow>
     (let c = mappings (kernel_config k); n = unat (kernel_stack_size (kernel_config k)) in
      0 < n \<and> placed (kernel_stack c) (4096 + n) \<and>
      (case fb of None \<Rightarrow> True | Some raw \<Rightarrow> placed (framebuffer c) (byte_len (raw_info raw))) \<and>
      (si_ramdisk_addr info = None \<or> placed (ramdisk_memory c) (si_ramdisk_len info)) \<and>
      (case physical_memory c of None \<Rightarrow> True | Some p \<Rightarrow> placed p mp))"

context x86_64
begin

lemma load_kernel_used:
  assumes "load_kernel X M alloc R D e pt fa m u = Ok (off, entry, tls, i, u')" and rng: "rng_ok R"
    and len: "length (entry_state u) = 512"
  shows "extends u u'" and "length (entry_state u') = 512"
proof -
  from assms(1) obtain i0 where "loader_new X R e pt fa m u = Ok (i0, u')"
    by (auto simp: load_kernel_def res_simps)
  then obtain v u1 where c: "choose_offset X R e u = Ok (v, u1)" and ms: "mark_segments X (program_iter e) v u1 = Ok u'"
    by (auto simp: loader_new_def res_simps split: if_splits)
  have "extends u u1"
    using c get_free_address_extends[OF rng _ len] extends_refl
    by (cases "elf_type e") (auto simp: choose_offset_def res_simps Let_def)
  with extends_trans mark_segments_extends[OF ms] show e: "extends u u'" by blast
  then show "length (entry_state u') = 512" using len by (simp add: extends_def)
qed

end

context kernel_setup
begin

lemma set_up_mappings_spec:
  assumes ok: "set_up_mappings X T M P R D L r cs k fb config info s = Ok (m, s')"
    and inv: "inv (s_allocator s)" and rng: "rng_ok R"
    and low: "free (s_allocator s) \<subseteq> {f. f < 2 ^ 47}"
    and mp: "\<forall>fa. inv fa \<longrightarrow> max_phys_addr X T fa = Ok mp" and fits: "layout_fits k fb info mp"
  obtains s1 s2 start e off entry tls i u0 u1 where
    "load_kernel X M (allocate_frame X T) R D (elf k) (kernel_table s) (s_allocator s) (s_memory s) u0 =
      Ok (off, entry, tls, i, u1)"
    and "s1 = s\<lparr>efer_nxe := True, cr0_wp := True, kernel_table := page_table i, s_allocator := frame_allocator i,
      s_memory := mem i, s_used := u1\<rparr>"
    and "m_entry_point m = entry" and "m_stack_top m = e div 16 * 16"
    and "free (s_allocator s1) \<subseteq> free (s_allocator s)" and "inv (s_allocator s1)"
    and "map_stack X T M R (kernel_config k) s1 = Ok (start, e, s2)" and "length (entry_state (s_used s1)) = 512"
    and "setup_step inv free view s1 s2" and "setup_step inv free view s2 s'"
    and "length (entry_state (s_used s')) = 512"
    and "\<And>raw. fb = Some raw \<Longrightarrow> 4096 dvd raw_addr raw \<Longrightarrow> \<exists>v. m_framebuffer m = Some v \<and> 4096 dvd v \<and>
      maps_range (view (kernel_table s')) v (raw_addr raw) (byte_len (raw_info raw))"
    and "\<And>a. si_ramdisk_addr info = Some a \<Longrightarrow> \<exists>v. m_ramdisk_slice_start m = Some v \<and> 4096 dvd v \<and>
      maps_range (view (kernel_table s')) v (a div 4096 * 4096) (si_ramdisk_len info)"
    and "physical_memory (mappings (kernel_config k)) \<noteq> None \<Longrightarrow> \<exists>po. m_physical_memory_offset m = Some po \<and>
      2 ^ 21 dvd po \<and> maps_physical (huge_view (kernel_table s')) po mp"
proof (rule set_up_mappings_steps[OF ok])
  fix mp' u0 off entry tls i u1 s1 start e s2 s3 s4 fba s5 rd s6 pm s7 idx
  assume new: "used_entries_new X L r mp' (frame_allocator_len (s_allocator s)) fb config = Ok u0"
    and lk: "load_kernel X M (allocate_frame X T) R D (elf k) (kernel_table s) (s_allocator s) (s_memory s) u0 =
      Ok (off, entry, tls, i, u1)"
    and s1: "s1 = s\<lparr>efer_nxe := True, cr0_wp := True, kernel_table := page_table i, s_allocator := frame_allocator i,
      s_memory := mem i, s_used := u1\<rparr>"
    and st: "map_stack X T M R (kernel_config k) s1 = Ok (start, e, s2)"
    and cs: "map_context_switch X T P cs s2 = Ok s3" and gd: "map_gdt X T P s3 = Ok s4"
    and fbm: "map_framebuffer X T M R (kernel_config k) fb s4 = Ok (fba, s5)"
    and rdm: "map_ramdisk X T M R (kernel_config k) info s5 = Ok (rd, s6)"
    and pmm: "map_physical_memory X T P R (kernel_config k) s6 = Ok (pm, s7)"
    and rec: "map_page_table_recursive X P R (kernel_config k) s7 = Ok (idx, s')"
    and m: "m = \<lparr>m_entry_point = entry, m_stack_top = align_down_virt P e 16, m_framebuffer = fba,
      m_physical_memory_offset = pm, m_recursive_index = idx, m_tls_template = tls,
      m_kernel_slice_start = m_kernel_slice_start m, m_kernel_slice_len = kernel_file_len k,
      m_kernel_image_offset = off, m_ramdisk_slice_start = rd, m_ramdisk_slice_len = si_ramdisk_len info\<rparr>"
  have pl: "placed (kernel_stack (mappings (kernel_config k))) (4096 + unat (kernel_stack_size (kernel_config k)))"
    "0 < unat (kernel_stack_size (kernel_config k))"
    "\<forall>raw. fb = Some raw \<longrightarrow> placed (framebuffer (mappings (kernel_config k))) (byte_len (raw_info raw))"
    "si_ramdisk_addr info \<noteq> None \<longrightarrow> placed (ramdisk_memory (mappings (kernel_config k))) (si_ramdisk_len info)"
    "\<forall>c. physical_memory (mappings (kernel_config k)) = Some c \<longrightarrow> placed c mp"
    using fits by (auto simp: layout_fits_def Let_def)
  have tk: "inv (s_allocator s1)" "free (s_allocator s1) \<subseteq> free (s_allocator s)"
    using load_kernel_takes[OF lk] inv by (auto simp: s1 takes_def)
  have l1: "length (entry_state (s_used s1)) = 512"
    using load_kernel_used[OF lk rng used_entries_new_basic(1)[OF new]] by (simp add: s1)
  note a2 = map_stack_ok(1,2)[OF st tk(1) rng l1 pl(1,2)]
  note a3 = map_context_switch_ok[OF cs setup_step_inv[OF a2(1)]]
  note t13 = setup_step_trans[OF a2(1) a3(1)]
  have low3: "free (s_allocator s3) \<subseteq> {f. f < 2 ^ 47}" using t13 tk(2) low by (auto simp: setup_step_def)
  note a4 = map_gdt_ok[OF gd setup_step_inv[OF t13] low3]
  have l4: "length (entry_state (s_used s4)) = 512" using a2(2) a3(2) a4(2) by simp
  note a5 = map_framebuffer_ok[OF fbm setup_step_inv[OF a4(1)] rng l4 pl(3)]
  note a6 = map_ramdisk_ok[OF rdm setup_step_inv[OF a5(1)] rng a5(2) pl(4)]
  note a7 = map_physical_memory_ok[OF pmm setup_step_inv[OF a6(1)] rng a6(2) mp[rule_format, OF setup_step_inv[OF a6(1)]] pl(5)]
  note a8 = map_page_table_recursive_ok[OF rec setup_step_inv[OF a7(1)]]
  note r78 = a8(1)
  note r68 = setup_step_trans[OF a7(1) r78]
  note r58 = setup_step_trans[OF a6(1) r68]
  note r48 = setup_step_trans[OF a5(1) r58]
  have r28: "setup_step inv free view s2 s'" by (intro setup_step_trans[OF a3(1)] setup_step_trans[OF a4(1)] r48)
  have keep: "view (kernel_table t) \<subseteq>\<^sub>m view (kernel_table s')" if "setup_step inv free view t s'" for t
    using that by (simp add: setup_step_def)
  have ms: "m_entry_point m = entry" "m_stack_top m = e div 16 * 16" "m_framebuffer m = fba"
    "m_physical_memory_offset m = pm" "m_ramdisk_slice_start m = rd"
    by (subst m, simp add: align_down_virt_16)+
  show thesis
  proof (rule that[OF lk s1 _ _ tk(2,1) st l1 a2(1) r28])
    show "length (entry_state (s_used s')) = 512"
      using map_page_table_recursive_length[OF rec rng] a7(2) by simp
    show "m_entry_point m = entry" and "m_stack_top m = e div 16 * 16" by (fact ms)+
    show "\<exists>v. m_framebuffer m = Some v \<and> 4096 dvd v \<and>
      maps_range (view (kernel_table s')) v (raw_addr raw) (byte_len (raw_info raw))" if "fb = Some raw" "4096 dvd raw_addr raw" for raw
      using a5(3)[OF that] map_le_Some[OF keep[OF r58]] unfolding ms maps_range_def by blast
    show "\<exists>v. m_ramdisk_slice_start m = Some v \<and> 4096 dvd v \<and>
      maps_range (view (kernel_table s')) v (a div 4096 * 4096) (si_ramdisk_len info)" if "si_ramdisk_addr info = Some a" for a
      using a6(3)[OF that] map_le_Some[OF keep[OF r68]] unfolding ms maps_range_def by blast
    show "\<exists>po. m_physical_memory_offset m = Some po \<and>
      2 ^ 21 dvd po \<and> maps_physical (huge_view (kernel_table s')) po mp" if "physical_memory (mappings (kernel_config k)) \<noteq> None"
      using a7(3)[OF that] map_le_Some[OF a8(2)] unfolding ms maps_physical_def by blast
  qed
qed

end

section \<open>The boot information\<close>

context kernel_setup
begin

lemma map_boot_info_page_ok:
  assumes "map_boot_info_page X T M p s = Ok s'" and inv: "inv (s_allocator s)"
  shows "setup_step inv free view s s'"
    and "\<exists>f. view (kernel_table s') = (view (kernel_table s))(p \<mapsto> (f, {PRESENT, WRITABLE})) \<and>
      view (bootloader_table s') = (view (bootloader_table s))(p \<mapsto> (f, {PRESENT, WRITABLE})) \<and>
      f \<in> free (s_allocator s) \<and> f \<notin> free (s_allocator s')"
proof -
  from assms(1) obtain f s1 s2 pt fa where
    t: "take_frame X T ''frame allocation for boot info failed'' s = Ok (f, s1)"
    and k: "kernel_map X T M p f {PRESENT, WRITABLE} s1 = Ok s2"
    and b: "map_to M (allocate_frame X T) p f {PRESENT, WRITABLE} (bootloader_table s2) (s_allocator s2) = Ok (pt, fa)"
    and s': "s' = s2\<lparr>bootloader_table := pt, s_allocator := fa\<rparr>"
    by (auto simp: map_boot_info_page_def res_simps)
  note t = take_frame_ok[OF t inv]
  note k = kernel_map_ok[OF k setup_step_inv[OF t(1)]]
  note b = map_to_ok[OF setup_step_inv[OF k(1)] b]
  have s2: "setup_step inv free view s2 s'" using b by (simp add: s' setup_step_def)
  show "setup_step inv free view s s'" by (intro setup_step_trans[OF t(1)] setup_step_trans[OF k(1)] s2)
  have "kernel_table s1 = kernel_table s" "bootloader_table s2 = bootloader_table s"
    using arg_cong[OF t(4), of kernel_table] arg_cong[OF t(4), of bootloader_table]
      arg_cong[OF k(4), of bootloader_table] by simp_all
  then show "\<exists>f. view (kernel_table s') = (view (kernel_table s))(p \<mapsto> (f, {PRESENT, WRITABLE})) \<and>
      view (bootloader_table s') = (view (bootloader_table s))(p \<mapsto> (f, {PRESENT, WRITABLE})) \<and>
      f \<in> free (s_allocator s) \<and> f \<notin> free (s_allocator s')"
    using k(1,3) b t(2,3) by (auto simp: s' setup_step_def)
qed

lemma map_boot_info_pages:
  assumes ok: "foldR (map_boot_info_page X T M) ps s = Ok s'" and inv: "inv (s_allocator s)"
  shows "setup_step inv free view s s' \<and>
    (\<forall>p \<in> set ps. \<exists>f. view (kernel_table s') p = Some (f, {PRESENT, WRITABLE}) \<and>
      view (bootloader_table s') p = Some (f, {PRESENT, WRITABLE}) \<and>
      f \<in> free (s_allocator s) \<and> f \<notin> free (s_allocator s'))"
proof (rule foldR_invariant[OF ok])
  fix ys z zs t t'
  assume I: "setup_step inv free view s t \<and>
    (\<forall>p \<in> set ys. \<exists>f. view (kernel_table t) p = Some (f, {PRESENT, WRITABLE}) \<and>
      view (bootloader_table t) p = Some (f, {PRESENT, WRITABLE}) \<and>
      f \<in> free (s_allocator s) \<and> f \<notin> free (s_allocator t))"
    and step: "map_boot_info_page X T M z t = Ok t'"
  have st: "setup_step inv free view s t" using I by blast
  note o = map_boot_info_page_ok[OF step setup_step_inv[OF st]]
  then obtain f where f: "view (kernel_table t') = (view (kernel_table t))(z \<mapsto> (f, {PRESENT, WRITABLE}))"
    "view (bootloader_table t') = (view (bootloader_table t))(z \<mapsto> (f, {PRESENT, WRITABLE}))"
    "f \<in> free (s_allocator t)" "f \<notin> free (s_allocator t')" by blast
  have sub: "free (s_allocator t') \<subseteq> free (s_allocator t)" "free (s_allocator t) \<subseteq> free (s_allocator s)"
    using o(1) st by (simp_all add: setup_step_def)
  have "\<exists>g. view (kernel_table t') p = Some (g, {PRESENT, WRITABLE}) \<and>
      view (bootloader_table t') p = Some (g, {PRESENT, WRITABLE}) \<and>
      g \<in> free (s_allocator s) \<and> g \<notin> free (s_allocator t')" if "p \<in> set (ys @ [z])" for p
  proof (cases "p = z")
    case False
    then have "p \<in> set ys" using that by simp
    with I obtain g where "view (kernel_table t) p = Some (g, {PRESENT, WRITABLE})"
      "view (bootloader_table t) p = Some (g, {PRESENT, WRITABLE})"
      "g \<in> free (s_allocator s)" "g \<notin> free (s_allocator t)" by blast
    then show ?thesis using f(1,2) False sub(1) by auto
  qed (use f sub in auto)
  then show "setup_step inv free view s t' \<and>
    (\<forall>p \<in> set (ys @ [z]). \<exists>f. view (kernel_table t') p = Some (f, {PRESENT, WRITABLE}) \<and>
      view (bootloader_table t') p = Some (f, {PRESENT, WRITABLE}) \<and>
      f \<in> free (s_allocator s) \<and> f \<notin> free (s_allocator t'))"
    using setup_step_trans[OF st o(1)] by blast
qed (simp add: setup_step_refl[OF inv])

lemma map_boot_info_page_huge:
  assumes "map_boot_info_page X T M p s = Ok s'" and inv: "inv (s_allocator s)"
  shows "huge_view (kernel_table s) \<subseteq>\<^sub>m huge_view (kernel_table s')"
proof -
  from assms(1) obtain f s1 pt fa where
    t: "take_frame X T ''frame allocation for boot info failed'' s = Ok (f, s1)"
    and k: "map_to M (allocate_frame X T) p f {PRESENT, WRITABLE} (kernel_table s1) (s_allocator s1) = Ok (pt, fa)"
    and s': "kernel_table s' = pt"
    by (auto simp: map_boot_info_page_def kernel_map_def res_simps)
  note t = take_frame_ok[OF t inv]
  have "kernel_table s1 = kernel_table s" using arg_cong[OF t(4), of kernel_table] by simp
  with map_to_huge[OF setup_step_inv[OF t(1)] k] show ?thesis by (simp add: s')
qed

lemma map_boot_info_pages_huge:
  assumes ok: "foldR (map_boot_info_page X T M) ps s = Ok s'" and inv: "inv (s_allocator s)"
  shows "huge_view (kernel_table s) \<subseteq>\<^sub>m huge_view (kernel_table s')"
proof -
  have "inv (s_allocator s') \<and> huge_view (kernel_table s) \<subseteq>\<^sub>m huge_view (kernel_table s')"
    by (rule foldR_preserves[OF ok, where P = "\<lambda>t. inv (s_allocator t) \<and> huge_view (kernel_table s) \<subseteq>\<^sub>m huge_view (kernel_table t)"])
      (use inv in \<open>auto dest: setup_step_inv[OF map_boot_info_page_ok(1)] intro: map_le_trans map_boot_info_page_huge\<close>)
  then show ?thesis by blast
qed

text \<open>\<open>n\<close> is the number of bytes of the boot information and the region slice.\<close>

lemma map_boot_info_ok:
  assumes ok: "map_boot_info X T M R L config s = Ok (addr, regions, s')"
    and inv: "inv (s_allocator s)" and rng: "rng_ok R" and len: "length (entry_state (s_used s)) = 512"
    and lay: "layout_array (memory_region_layout L) (frame_allocator_len (s_allocator s) + 4) = Some rl"
      "layout_extend (boot_info_layout L) rl = Some (cl, off)"
    and pl: "placed (boot_info (mappings config)) (layout_size cl)"
  shows "setup_step inv free view s s'" and "regions = frame_allocator_len (s_allocator s) + 4"
    and "layout_align cl dvd addr" and "huge_view (kernel_table s) \<subseteq>\<^sub>m huge_view (kernel_table s')"
    and "j < layout_size cl \<Longrightarrow> \<exists>f. view (kernel_table s') ((addr + j) div 4096 * 4096) = Some (f, {PRESENT, WRITABLE}) \<and>
      view (bootloader_table s') ((addr + j) div 4096 * 4096) = Some (f, {PRESENT, WRITABLE}) \<and>
      f \<in> free (s_allocator s) \<and> f \<notin> free (s_allocator s')"
proof -
  from ok lay obtain y u where y: "mapping_addr X R (boot_info (mappings config)) (layout_size cl) (layout_align cl)
      (s_used s) = Ok (y, u)"
    by (auto simp: map_boot_info_def Let_def res_simps)
  with ok lay obtain e l where
    a: "mapping_addr X R (boot_info (mappings config)) (layout_size cl) (layout_align cl) (s_used s) = Ok (Inr addr, u)"
    and e: "virt_add X addr (layout_size cl) = Ok e" and l: "virt_sub X e 1 = Ok l"
    and loop: "foldR (map_boot_info_page X T M) (page_range X (page_containing X addr) (page_containing X l))
      (s\<lparr>s_used := u\<rparr>) = Ok s'"
    and r: "regions = frame_allocator_len (s_allocator s) + 4"
    by (cases y) (auto simp: map_boot_info_def Let_def res_simps)
  note ap = mapping_addr_ok[OF a rng len pl]
  have ad: "layout_align cl dvd addr" and half: "same_half addr (addr + layout_size cl - 1)" using ap(3) by auto
  have pos: "0 < layout_size cl" using pl by (simp add: placed_def)
  note re = range_end[OF half pos e l]
  have le: "addr \<le> l" and hl: "same_half addr l" using re(2) pos half by simp_all
  have range: "page_range X (page_containing X addr) (page_containing X l) =
      steps_of (addr div 4096 * 4096) (l div 4096 * 4096)"
    using ld.page_range_steps[OF hl le] by (simp add: page_containing)
  have inv': "inv (s_allocator (s\<lparr>s_used := u\<rparr>))" using inv by simp
  note m = map_boot_info_pages[OF loop[unfolded range] inv']
  show "setup_step inv free view s s'" using m by (simp add: setup_step_used)
  show "regions = frame_allocator_len (s_allocator s) + 4" by (rule r)
  show "layout_align cl dvd addr" by (rule ad)
  show "huge_view (kernel_table s) \<subseteq>\<^sub>m huge_view (kernel_table s')"
    using map_boot_info_pages_huge[OF loop inv'] by simp
  show "\<exists>f. view (kernel_table s') ((addr + j) div 4096 * 4096) = Some (f, {PRESENT, WRITABLE}) \<and>
      view (bootloader_table s') ((addr + j) div 4096 * 4096) = Some (f, {PRESENT, WRITABLE}) \<and>
      f \<in> free (s_allocator s) \<and> f \<notin> free (s_allocator s')" if "j < layout_size cl"
  proof -
    have "addr + j \<le> l" using that re by simp
    then have "(addr + j) div 4096 * 4096 \<in> set (steps_of (addr div 4096 * 4096) (l div 4096 * 4096))"
      using ld.page_in_range[of addr "addr + j" l] ld.set_pages[of _ addr l] by simp
    with m show ?thesis by simp
  qed
qed

end

section \<open>Starting the kernel\<close>

text \<open>The bytes of the boot information and of a slice for \<open>n\<close> memory regions.\<close>

definition boot_info_bytes :: "type_layouts \<Rightarrow> nat \<Rightarrow> nat" where
  "boot_info_bytes L n =
     (case layout_array (memory_region_layout L) n of
        None \<Rightarrow> 0
      | Some rl \<Rightarrow> (case layout_extend (boot_info_layout L) rl of None \<Rightarrow> 0 | Some (cl, _) \<Rightarrow> layout_size cl))"

definition boot_fits :: "kernel \<Rightarrow> system_info \<Rightarrow> type_layouts \<Rightarrow> nat \<Rightarrow> nat \<Rightarrow> bool" where
  "boot_fits k info L n mp \<longleftrightarrow>
     layout_fits k (si_framebuffer info) info mp \<and>
     placed (boot_info (mappings (kernel_config k))) (boot_info_bytes L (n + 4))"

lemma pushed_pointer:
  assumes "4096 \<le> e" and "e \<le> 2 ^ 64"
  shows "(e div 16 * 16 + (2 ^ 64 - 8)) mod 2 ^ 64 + 8 = (e :: nat) div 16 * 16"
proof -
  define t where "t = e div 16 * 16"
  have t: "8 \<le> t" "t \<le> 2 ^ 64" using assms div_times_less_eq_dividend[of e 16] by (simp_all add: t_def)
  then have "t + (2 ^ 64 - 8) = (t - 8) + 2 ^ 64" and "t - 8 < 2 ^ 64" by simp_all
  then have "(t + (2 ^ 64 - 8)) mod 2 ^ 64 = t - 8" by (simp only: mod_add_self2 mod_less)
  then show ?thesis unfolding t_def[symmetric] using t(1) by simp
qed

lemma create_boot_info_steps:
  assumes "create_boot_info X T M R L v config sentinel m info s = Ok (addr, bi, s')"
  obtains regions where "map_boot_info X T M R L config s = Ok (addr, regions, s')"
    and "construct_memory_map X T (s_allocator s') regions (m_kernel_slice_start m) (m_kernel_slice_len m) =
      Ok (memory_regions bi)"
    and "\<And>a. m_framebuffer m = Some a \<Longrightarrow> \<exists>raw. si_framebuffer info = Some raw \<and>
      bi_framebuffer bi = OptSome (frame_buffer_new a (raw_info raw))"
    and "physical_memory_offset bi = optional_from (m_physical_memory_offset m)"
    and "ramdisk_addr bi = optional_from (m_ramdisk_slice_start m)"
    and "ramdisk_len bi = m_ramdisk_slice_len m"
  using assms unfolding create_boot_info_def
  by (auto simp: boot_info_new_def expect_some_eq_Ok elim!: bindR_OkE split: option.split_asm)

lemma layouts_of_bytes:
  assumes "boot_info_bytes L n \<noteq> 0"
  obtains rl cl off where "layout_array (memory_region_layout L) n = Some rl"
    and "layout_extend (boot_info_layout L) rl = Some (cl, off)" and "layout_size cl = boot_info_bytes L n"
  using assms by (auto simp: boot_info_bytes_def split: option.splits)

context kernel_setup
begin

lemma set_up_mappings_taken:
  assumes ok: "set_up_mappings X T M P R D L r cs k fb config info s = Ok (m, s')"
    and inv: "inv (s_allocator s)" and rng: "rng_ok R"
    and low: "free (s_allocator s) \<subseteq> {f. f < 2 ^ 47}"
    and mp: "\<forall>fa. inv fa \<longrightarrow> max_phys_addr X T fa = Ok mp" and fits: "layout_fits k fb info mp"
  shows "inv (s_allocator s')" and "free (s_allocator s') \<subseteq> free (s_allocator s)"
    and "kernel_level_4_frame s' = kernel_level_4_frame s" and "length (entry_state (s_used s')) = 512"
proof -
  have "inv (s_allocator s') \<and> free (s_allocator s') \<subseteq> free (s_allocator s) \<and>
    kernel_level_4_frame s' = kernel_level_4_frame s \<and> length (entry_state (s_used s')) = 512"
  proof (rule set_up_mappings_spec[OF assms])
    fix s1 i u1 s2
    assume "s1 = s\<lparr>efer_nxe := True, cr0_wp := True, kernel_table := page_table i,
      s_allocator := frame_allocator i, s_memory := mem i, s_used := u1\<rparr>"
    "free (s_allocator s1) \<subseteq> free (s_allocator s)"
    "setup_step inv free view s1 s2" "setup_step inv free view s2 s'" "length (entry_state (s_used s')) = 512"
    then show ?thesis by (auto simp: setup_step_def)
  qed
  then show "inv (s_allocator s')" and "free (s_allocator s') \<subseteq> free (s_allocator s)"
    and "kernel_level_4_frame s' = kernel_level_4_frame s" and "length (entry_state (s_used s')) = 512"
    by auto
qed

lemma load_and_switch_spec:
  assumes ok: "load_and_switch_to_kernel X T M P R D L r cs v k sentinel info s = Ok (regs, bi, m, s')"
    and inv: "inv (s_allocator s)" and rng: "rng_ok R" and low: "free (s_allocator s) \<subseteq> {f. f < 2 ^ 47}"
    and fixed: "\<forall>fa. inv fa \<longrightarrow> max_phys_addr X T fa = Ok mp \<and> frame_allocator_len fa = n"
    and fits: "boot_fits k info L n mp"
  obtains sm where
    "set_up_mappings X T M P R D L r cs k (si_framebuffer info) (kernel_config k) info s = Ok (m, sm)"
    and "setup_step inv free view sm s'"
    and "create_boot_info X T M R L v (kernel_config k) sentinel m info sm = Ok (rdi regs, bi, s')"
    and "construct_memory_map X T (s_allocator s') (n + 4) (m_kernel_slice_start m) (m_kernel_slice_len m) =
      Ok (memory_regions bi)"
    and "regs = context_switch (kernel_level_4_frame s) (m_stack_top m) (m_entry_point m) (rdi regs)"
    and "inv (s_allocator s')" and "free (s_allocator sm) \<subseteq> free (s_allocator s)"
    and "huge_view (kernel_table sm) \<subseteq>\<^sub>m huge_view (kernel_table s')"
    and "\<And>j. j < boot_info_bytes L (n + 4) \<Longrightarrow> \<exists>f.
      view (kernel_table s') ((rdi regs + j) div 4096 * 4096) = Some (f, {PRESENT, WRITABLE}) \<and>
      view (bootloader_table s') ((rdi regs + j) div 4096 * 4096) = Some (f, {PRESENT, WRITABLE}) \<and>
      f \<in> free (s_allocator sm) \<and> f \<notin> free (s_allocator s')"
proof -
  from ok obtain sm addr where
    sm: "set_up_mappings X T M P R D L r cs k (si_framebuffer info) (kernel_config k) info s = Ok (m, sm)"
    and cb: "create_boot_info X T M R L v (kernel_config k) sentinel m info sm = Ok (addr, bi, s')"
    and regs: "regs = switch_to_kernel s' m addr"
    unfolding load_and_switch_to_kernel_def Let_def by (auto elim!: bindR_OkE)
  have lf: "layout_fits k (si_framebuffer info) info mp" and pb: "placed (boot_info (mappings (kernel_config k)))
      (boot_info_bytes L (n + 4))" using fits by (simp_all add: boot_fits_def)
  have mp: "\<forall>fa. inv fa \<longrightarrow> max_phys_addr X T fa = Ok mp" using fixed by blast
  note t = set_up_mappings_taken[OF sm inv rng low mp lf]
  have nm: "frame_allocator_len (s_allocator sm) = n" using fixed t(1) by blast
  from pb have "boot_info_bytes L (n + 4) \<noteq> 0" by (simp add: placed_def)
  then obtain rl cl off where lay: "layout_array (memory_region_layout L) (frame_allocator_len (s_allocator sm) + 4) = Some rl"
    "layout_extend (boot_info_layout L) rl = Some (cl, off)" and sz: "layout_size cl = boot_info_bytes L (n + 4)"
    unfolding nm by (rule layouts_of_bytes)
  from create_boot_info_steps[OF cb] obtain regions where
    mb: "map_boot_info X T M R L (kernel_config k) sm = Ok (addr, regions, s')"
    and cm: "construct_memory_map X T (s_allocator s') regions (m_kernel_slice_start m) (m_kernel_slice_len m) =
      Ok (memory_regions bi)" .
  note b = map_boot_info_ok[OF mb t(1) rng t(4) lay pb[folded sz]]
  have rd: "rdi regs = addr" by (simp add: regs switch_to_kernel_def context_switch_def)
  show thesis
  proof (rule that[OF sm b(1)])
    show "create_boot_info X T M R L v (kernel_config k) sentinel m info sm = Ok (rdi regs, bi, s')"
      using cb by (simp add: rd)
    show "construct_memory_map X T (s_allocator s') (n + 4) (m_kernel_slice_start m) (m_kernel_slice_len m) =
      Ok (memory_regions bi)" using cm b(2) nm by simp
    have "kernel_level_4_frame s' = kernel_level_4_frame s"
      using b(1) t(3) by (simp add: setup_step_def)
    then show "regs = context_switch (kernel_level_4_frame s) (m_stack_top m) (m_entry_point m) (rdi regs)"
      by (simp add: rd) (simp add: regs switch_to_kernel_def)
    show "free (s_allocator sm) \<subseteq> free (s_allocator s)" by (rule t(2))
    show "inv (s_allocator s')" by (rule setup_step_inv[OF b(1)])
    show "huge_view (kernel_table sm) \<subseteq>\<^sub>m huge_view (kernel_table s')" by (rule b(4))
    show "\<exists>f. view (kernel_table s') ((rdi regs + j) div 4096 * 4096) = Some (f, {PRESENT, WRITABLE}) \<and>
      view (bootloader_table s') ((rdi regs + j) div 4096 * 4096) = Some (f, {PRESENT, WRITABLE}) \<and>
      f \<in> free (s_allocator sm) \<and> f \<notin> free (s_allocator s')" if "j < boot_info_bytes L (n + 4)" for j
      using b(5)[of j] that by (simp add: sz rd)
  qed
qed

lemma load_and_switch_steps:
  assumes ok: "load_and_switch_to_kernel X T M P R D L r cs v k sentinel info s = Ok (regs, bi, m, s')"
    and inv: "inv (s_allocator s)" and rng: "rng_ok R" and low: "free (s_allocator s) \<subseteq> {f. f < 2 ^ 47}"
    and fixed: "\<forall>fa. inv fa \<longrightarrow> max_phys_addr X T fa = Ok mp \<and> frame_allocator_len fa = n"
    and fits: "boot_fits k info L n mp"
  obtains s1 s2 start e off tls i u0 u1 where
    "load_kernel X M (allocate_frame X T) R D (elf k) (kernel_table s) (s_allocator s) (s_memory s) u0 =
      Ok (off, rip regs, tls, i, u1)"
    and "s1 = s\<lparr>efer_nxe := True, cr0_wp := True, kernel_table := page_table i, s_allocator := frame_allocator i,
      s_memory := mem i, s_used := u1\<rparr>"
    and "rsp regs = (e div 16 * 16 + (2 ^ 64 - 8)) mod 2 ^ 64"
    and "free (s_allocator s1) \<subseteq> free (s_allocator s)" and "inv (s_allocator s1)"
    and "map_stack X T M R (kernel_config k) s1 = Ok (start, e, s2)" and "length (entry_state (s_used s1)) = 512"
    and "setup_step inv free view s1 s2" and "setup_step inv free view s2 s'"
proof (rule load_and_switch_spec[OF assms])
  fix sm
  assume sm: "set_up_mappings X T M P R D L r cs k (si_framebuffer info) (kernel_config k) info s = Ok (m, sm)"
    and last: "setup_step inv free view sm s'"
    and regs: "regs = context_switch (kernel_level_4_frame s) (m_stack_top m) (m_entry_point m) (rdi regs)"
  have mp: "\<forall>fa. inv fa \<longrightarrow> max_phys_addr X T fa = Ok mp" and lf: "layout_fits k (si_framebuffer info) info mp"
    using fixed fits by (auto simp: boot_fits_def)
  have rs: "rip regs = m_entry_point m" "rsp regs = (m_stack_top m + (2 ^ 64 - 8)) mod 2 ^ 64"
    by (subst regs, simp add: context_switch_def)+
  show thesis
    by (rule set_up_mappings_spec[OF sm inv rng low mp lf]) (rule that; (assumption | (rule setup_step_trans[OF _ last], assumption) | simp add: rs))
qed

lemma start_stack:
  assumes ok: "load_and_switch_to_kernel X T M P R D L r cs v k sentinel info s = Ok (regs, bi, m, s')"
    and inv: "inv (s_allocator s)" and rng: "rng_ok R" and low: "free (s_allocator s) \<subseteq> {f. f < 2 ^ 47}"
    and fixed: "\<forall>fa. inv fa \<longrightarrow> max_phys_addr X T fa = Ok mp \<and> frame_allocator_len fa = n"
    and fits: "boot_fits k info L n mp"
  obtains start where "4096 dvd start"
    and "rsp regs + 8 = (start + unat (kernel_stack_size (kernel_config k))) div 16 * 16"
    and "\<And>va. start \<le> va \<Longrightarrow> va < start + unat (kernel_stack_size (kernel_config k)) \<Longrightarrow> \<exists>f.
      view (kernel_table s') (va div 4096 * 4096) = Some (f, {PRESENT, WRITABLE}) \<and>
      f \<in> free (s_allocator s) \<and> f \<notin> free (s_allocator s')"
    and "\<And>va vb. start \<le> va \<Longrightarrow> va < start + unat (kernel_stack_size (kernel_config k)) \<Longrightarrow>
      start \<le> vb \<Longrightarrow> vb < start + unat (kernel_stack_size (kernel_config k)) \<Longrightarrow> va div 4096 \<noteq> vb div 4096 \<Longrightarrow>
      view (kernel_table s') (va div 4096 * 4096) \<noteq> view (kernel_table s') (vb div 4096 * 4096)"
proof (rule load_and_switch_steps[OF assms])
  let ?n = "unat (kernel_stack_size (kernel_config k))"
  fix s1 s2 start e
  assume top: "rsp regs = (e div 16 * 16 + (2 ^ 64 - 8)) mod 2 ^ 64"
    and s1: "free (s_allocator s1) \<subseteq> free (s_allocator s)" "inv (s_allocator s1)"
    and st: "map_stack X T M R (kernel_config k) s1 = Ok (start, e, s2)" and len: "length (entry_state (s_used s1)) = 512"
    and fin: "setup_step inv free view s2 s'"
  have pl: "placed (kernel_stack (mappings (kernel_config k))) (4096 + ?n)" "0 < ?n"
    using fits by (simp_all add: boot_fits_def layout_fits_def Let_def)
  note k = map_stack_ok[OF st s1(2) rng len pl]
  have keep: "view (kernel_table s2) \<subseteq>\<^sub>m view (kernel_table s')" "free (s_allocator s') \<subseteq> free (s_allocator s2)"
    using fin by (simp_all add: setup_step_def)
  have e: "e = start + ?n" by (rule k(5))
  show thesis
  proof (rule that[OF k(3)])
    have "4096 \<le> e" using k(4) e by simp
    moreover have "e \<le> 2 ^ 64" using k(6) by (auto simp: same_half_def canonical_def)
    ultimately have "(e div 16 * 16 + (2 ^ 64 - 8)) mod 2 ^ 64 + 8 = e div 16 * 16" by (rule pushed_pointer)
    then show "rsp regs + 8 = (start + ?n) div 16 * 16" by (simp only: top e)
    show "\<exists>f. view (kernel_table s') (va div 4096 * 4096) = Some (f, {PRESENT, WRITABLE}) \<and>
      f \<in> free (s_allocator s) \<and> f \<notin> free (s_allocator s')" if "start \<le> va" "va < start + ?n" for va
      using k(7)[OF that[folded e]] map_le_Some[OF keep(1)] keep(2) s1(1) by blast
    show "view (kernel_table s') (va div 4096 * 4096) \<noteq> view (kernel_table s') (vb div 4096 * 4096)"
      if "start \<le> va" "va < start + ?n" "start \<le> vb" "vb < start + ?n" "va div 4096 \<noteq> vb div 4096" for va vb
    proof -
      from k(7)[OF that(1,2)[folded e]] k(7)[OF that(3,4)[folded e]] obtain f g where
        "view (kernel_table s2) (va div 4096 * 4096) = Some (f, {PRESENT, WRITABLE})"
        "view (kernel_table s2) (vb div 4096 * 4096) = Some (g, {PRESENT, WRITABLE})" by blast
      with k(8)[OF that[folded e]] map_le_Some[OF keep(1)] show ?thesis by metis
    qed
  qed
qed

lemma start_devices:
  assumes ok: "load_and_switch_to_kernel X T M P R D L r cs v k sentinel info s = Ok (regs, bi, m, s')"
    and inv: "inv (s_allocator s)" and rng: "rng_ok R" and low: "free (s_allocator s) \<subseteq> {f. f < 2 ^ 47}"
    and fixed: "\<forall>fa. inv fa \<longrightarrow> max_phys_addr X T fa = Ok mp \<and> frame_allocator_len fa = n"
    and fits: "boot_fits k info L n mp"
  shows "si_framebuffer info = Some raw \<Longrightarrow> 4096 dvd raw_addr raw \<Longrightarrow>
      \<exists>a. bi_framebuffer bi = OptSome (frame_buffer_new a (raw_info raw)) \<and> 4096 dvd a \<and>
        maps_range (view (kernel_table s')) a (raw_addr raw) (byte_len (raw_info raw))"
    and "si_ramdisk_addr info = Some p \<Longrightarrow>
      \<exists>a. ramdisk_addr bi = OptSome a \<and> 4096 dvd a \<and>
        maps_range (view (kernel_table s')) a (p div 4096 * 4096) (si_ramdisk_len info)"
    and "physical_memory (mappings (kernel_config k)) \<noteq> None \<Longrightarrow>
      \<exists>a. physical_memory_offset bi = OptSome a \<and> 2 ^ 21 dvd a \<and>
        maps_physical (huge_view (kernel_table s')) a mp"
proof -
  obtain sm where
    sm: "set_up_mappings X T M P R D L r cs k (si_framebuffer info) (kernel_config k) info s = Ok (m, sm)"
    and last: "setup_step inv free view sm s'"
    and cb: "create_boot_info X T M R L v (kernel_config k) sentinel m info sm = Ok (rdi regs, bi, s')"
    and hg: "huge_view (kernel_table sm) \<subseteq>\<^sub>m huge_view (kernel_table s')"
  proof (rule load_and_switch_spec[OF assms])
    fix sm
    assume "set_up_mappings X T M P R D L r cs k (si_framebuffer info) (kernel_config k) info s = Ok (m, sm)"
      and "setup_step inv free view sm s'"
      and "create_boot_info X T M R L v (kernel_config k) sentinel m info sm = Ok (rdi regs, bi, s')"
      and "huge_view (kernel_table sm) \<subseteq>\<^sub>m huge_view (kernel_table s')"
    then show thesis by (rule that)
  qed
  have mp: "\<forall>fa. inv fa \<longrightarrow> max_phys_addr X T fa = Ok mp" and lf: "layout_fits k (si_framebuffer info) info mp"
    using fixed fits by (auto simp: boot_fits_def)
  have keep: "view (kernel_table sm) \<subseteq>\<^sub>m view (kernel_table s')" using last by (simp add: setup_step_def)
  from create_boot_info_steps[OF cb] have
    bi: "\<And>a. m_framebuffer m = Some a \<Longrightarrow> \<exists>raw. si_framebuffer info = Some raw \<and>
      bi_framebuffer bi = OptSome (frame_buffer_new a (raw_info raw))"
    "physical_memory_offset bi = optional_from (m_physical_memory_offset m)"
    "ramdisk_addr bi = optional_from (m_ramdisk_slice_start m)" by metis+
  note sp = set_up_mappings_spec[OF sm inv rng low mp lf]
  show "\<exists>a. bi_framebuffer bi = OptSome (frame_buffer_new a (raw_info raw)) \<and> 4096 dvd a \<and>
      maps_range (view (kernel_table s')) a (raw_addr raw) (byte_len (raw_info raw))"
    if raw: "si_framebuffer info = Some raw" "4096 dvd raw_addr raw"
    by (rule sp) (use raw bi(1) maps_range_mono[OF _ keep] in fastforce)
  show "\<exists>a. ramdisk_addr bi = OptSome a \<and> 4096 dvd a \<and>
      maps_range (view (kernel_table s')) a (p div 4096 * 4096) (si_ramdisk_len info)"
    if rd: "si_ramdisk_addr info = Some p"
    by (rule sp) (use rd bi(3) maps_range_mono[OF _ keep] in fastforce)
  show "\<exists>a. physical_memory_offset bi = OptSome a \<and> 2 ^ 21 dvd a \<and>
      maps_physical (huge_view (kernel_table s')) a mp"
    if ph: "physical_memory (mappings (kernel_config k)) \<noteq> None"
    by (rule sp) (use ph bi(2) maps_physical_mono[OF _ hg] in fastforce)
qed

end

text \<open>The loader's state for an executable, before any segment is mapped.\<close>

definition kernel_inner :: "elf_file \<Rightarrow> ('pt, 'fa, 'r) boot_state \<Rightarrow> ('pt, 'fa) inner" where
  "kernel_inner e s = \<lparr>kernel_offset = elf_input e, vao = vao_zero, page_table = kernel_table s,
     frame_allocator = s_allocator s, mem = s_memory s\<rparr>"

text \<open>
  A statically linked executable whose file occupies the frames \<open>F\<close>, which the allocator does not
  hand out, and a kernel page table that is still empty.
\<close>

definition static_kernel ::
    "('pt \<Rightarrow> nat \<rightharpoonup> nat \<times> flag set) \<Rightarrow> ('fa \<Rightarrow> nat set) \<Rightarrow> nat set \<Rightarrow> elf_file \<Rightarrow> ('pt, 'fa, 'r) boot_state \<Rightarrow> bool" where
  "static_kernel view free F e s \<longleftrightarrow>
     elf_type e = Executable \<and> view (kernel_table s) = Map.empty \<and> F \<inter> free (s_allocator s) = {} \<and>
     (\<forall>h \<in> set (program_iter e).
        (get_type h = Ok Load \<longrightarrow> loadable F (kernel_inner e s) h) \<and>
        (get_type h = Ok GnuRelro \<longrightarrow> relro_inside (program_iter e) 0 h) \<and>
        get_type h \<noteq> Ok DynamicSegment)"

context kernel_setup
begin

lemma load_kernel_run:
  assumes lk: "load_kernel X M (allocate_frame X T) R D e (kernel_table s) (s_allocator s) (s_memory s) u0 =
      Ok (off, entry, tls, i, u1)"
    and inv: "inv (s_allocator s)" and st: "static_kernel view free F e s"
  shows "load_segments X M (allocate_frame X T) D (program_iter e) (kernel_inner e s) = Ok (tls, i)"
    and "loader_inv view inv free F (kernel_inner e s)"
    and "\<forall>h \<in> set (program_iter e). get_type h = Ok Load \<longrightarrow> loadable F (kernel_inner e s) h"
    and "\<forall>h \<in> set (program_iter e). get_type h = Ok GnuRelro \<longrightarrow> relro_inside (program_iter e) (vao (kernel_inner e s)) h"
    and "\<forall>h \<in> set (program_iter e). get_type h \<noteq> Ok DynamicSegment"
    and "virt_new X (nat (vao i mod 2 ^ 64)) = Ok off" and "entry_point X e i = Ok entry"
proof -
  from lk obtain i0 where new: "loader_new X R e (kernel_table s) (s_allocator s) (s_memory s) u0 = Ok (i0, u1)"
    and ls: "load_segments X M (allocate_frame X T) D (program_iter e) i0 = Ok (tls, i)"
    and off: "virt_new X (nat (vao i mod 2 ^ 64)) = Ok off" and en: "entry_point X e i = Ok entry"
    by (auto simp: load_kernel_def res_simps)
  have i0: "i0 = kernel_inner e s"
    using new st by (auto simp: loader_new_def choose_offset_def static_kernel_def kernel_inner_def res_simps phys_new
      split: if_splits)
  show "load_segments X M (allocate_frame X T) D (program_iter e) (kernel_inner e s) = Ok (tls, i)" using ls i0 by simp
  show "loader_inv view inv free F (kernel_inner e s)"
    using inv st by (auto simp: loader_inv_def kernel_inner_def static_kernel_def)
  show "\<forall>h \<in> set (program_iter e). get_type h = Ok Load \<longrightarrow> loadable F (kernel_inner e s) h"
    "\<forall>h \<in> set (program_iter e). get_type h = Ok GnuRelro \<longrightarrow> relro_inside (program_iter e) (vao (kernel_inner e s)) h"
    "\<forall>h \<in> set (program_iter e). get_type h \<noteq> Ok DynamicSegment"
    using st by (auto simp: static_kernel_def kernel_inner_def vao_zero_def)
  show "virt_new X (nat (vao i mod 2 ^ 64)) = Ok off" "entry_point X e i = Ok entry" by (fact off en)+
qed

lemma load_kernel_keeps:
  assumes "load_kernel X M (allocate_frame X T) R D e (kernel_table s) (s_allocator s) (s_memory s) u0 =
      Ok (off, entry, tls, i, u1)"
    and "inv (s_allocator s)" and "static_kernel view free F e s" and "in_frames F a"
  shows "mem i a = s_memory s a"
  using ld.load_segments_spec(2)[OF load_kernel_run(1-5)[OF assms(1-3)] assms(4)] by (simp add: kernel_inner_def)

lemma load_kernel_image:
  assumes lk: "load_kernel X M (allocate_frame X T) R D e (kernel_table s) (s_allocator s) (s_memory s) u0 =
      Ok (off, entry, tls, i, u1)"
    and inv: "inv (s_allocator s)" and st: "static_kernel view free F e s"
    and h: "h \<in> set (program_iter e)" "get_type h = Ok Load"
  shows "sign_extend (elf_entry_point e) = Some entry" and "off = 0"
    and "j < ph_mem_size h \<Longrightarrow> \<exists>f g. view (page_table i) ((ph_virtual_addr h + j) div 4096 * 4096) = Some (f, g) \<and>
      4096 dvd f \<and> f \<notin> free (frame_allocator i) \<and>
      mem i (f + (ph_virtual_addr h + j) mod 4096) =
        (if j < ph_file_size h then s_memory s (elf_input e + ph_offset h + j) else 0)"
proof -
  define i0 where i0: "i0 = kernel_inner e s"
  note run = load_kernel_run[OF lk inv st, folded i0]
  note off = run(6) and en = run(7) and sp = ld.load_segments_spec[OF run(1-5)]
  have v: "vao i = 0" and ko: "kernel_offset i = elf_input e" and m0: "mem i0 = s_memory s"
    using sp(4,5) by (simp_all add: i0 kernel_inner_def vao_zero_def)
  have vz: "a = b" if "vao_add 0 b = Ok a" for a b using that by (simp add: vao_add_eq_Ok)
  show "sign_extend (elf_entry_point e) = Some entry"
    using en vz by (auto simp: entry_point_def res_simps v virt_new split: if_splits option.splits)
  show "off = 0" using off by (simp add: v virt_new sign_extend_def)
  show "\<exists>f g. view (page_table i) ((ph_virtual_addr h + j) div 4096 * 4096) = Some (f, g) \<and>
      4096 dvd f \<and> f \<notin> free (frame_allocator i) \<and>
      mem i (f + (ph_virtual_addr h + j) mod 4096) =
        (if j < ph_file_size h then s_memory s (elf_input e + ph_offset h + j) else 0)" if j: "j < ph_mem_size h"
  proof -
    obtain vs where vs: "vao_add (vao i) (ph_virtual_addr h) = Ok vs"
      using sp(1)[OF h] by (auto simp: segment_image_def split: res.splits)
    then have "vs = ph_virtual_addr h" using vz v by simp
    with sp(1)[OF h] vs j have r: "vread view i (ph_virtual_addr h + j) =
        Some (if j < ph_file_size h then s_memory s (elf_input e + ph_offset h + j) else 0)"
      by (simp add: segment_image_def ko m0)
    then obtain f g where fg: "view (page_table i) ((ph_virtual_addr h + j) div 4096 * 4096) = Some (f, g)"
      by (auto simp: vread_def split: option.splits)
    then show ?thesis using r sp(6)[OF fg] by (auto simp: vread_def)
  qed
qed

lemma start_image:
  assumes ok: "load_and_switch_to_kernel X T M P R D L r cs v k sentinel info s = Ok (regs, bi, m, s')"
    and inv: "inv (s_allocator s)" and rng: "rng_ok R" and low: "free (s_allocator s) \<subseteq> {f. f < 2 ^ 47}"
    and fixed: "\<forall>fa. inv fa \<longrightarrow> max_phys_addr X T fa = Ok mp \<and> frame_allocator_len fa = n"
    and fits: "boot_fits k info L n mp"
    and st: "static_kernel view free F (elf k) s"
    and h: "h \<in> set (program_iter (elf k))" "get_type h = Ok Load"
  shows "sign_extend (elf_entry_point (elf k)) = Some (rip regs)"
    and "j < ph_mem_size h \<Longrightarrow> \<exists>f g. view (kernel_table s') ((ph_virtual_addr h + j) div 4096 * 4096) = Some (f, g) \<and>
      s_memory s' (f + (ph_virtual_addr h + j) mod 4096) =
        (if j < ph_file_size h then s_memory s (elf_input (elf k) + ph_offset h + j) else 0)"
proof -
  have "sign_extend (elf_entry_point (elf k)) = Some (rip regs) \<and>
    (j < ph_mem_size h \<longrightarrow> (\<exists>f g. view (kernel_table s') ((ph_virtual_addr h + j) div 4096 * 4096) = Some (f, g) \<and>
      s_memory s' (f + (ph_virtual_addr h + j) mod 4096) =
        (if j < ph_file_size h then s_memory s (elf_input (elf k) + ph_offset h + j) else 0)))"
  proof (rule load_and_switch_steps[OF ok inv rng low fixed fits])
    fix s1 s2 off tls i u0 u1
    assume lk: "load_kernel X M (allocate_frame X T) R D (elf k) (kernel_table s) (s_allocator s) (s_memory s) u0 =
        Ok (off, rip regs, tls, i, u1)"
      and s1: "s1 = s\<lparr>efer_nxe := True, cr0_wp := True, kernel_table := page_table i,
        s_allocator := frame_allocator i, s_memory := mem i, s_used := u1\<rparr>"
      and steps: "setup_step inv free view s1 s2" "setup_step inv free view s2 s'"
    note im = load_kernel_image[OF lk inv st h]
    have step: "setup_step inv free view s1 s'" by (rule setup_step_trans[OF steps])
    have keep: "view (page_table i) \<subseteq>\<^sub>m view (kernel_table s')" using step by (simp add: setup_step_def s1)
    have same: "s_memory s' (f + d) = mem i (f + d)" if "4096 dvd f" "f \<notin> free (frame_allocator i)" "d < 4096" for f d
      using step page_of_offset[OF that(1,3)] that(2) by (auto simp: setup_step_def s1 in_frames_def)
    have "\<exists>f g. view (kernel_table s') ((ph_virtual_addr h + j) div 4096 * 4096) = Some (f, g) \<and>
      s_memory s' (f + (ph_virtual_addr h + j) mod 4096) =
        (if j < ph_file_size h then s_memory s (elf_input (elf k) + ph_offset h + j) else 0)" if "j < ph_mem_size h"
      using im(3)[OF that] map_le_Some[OF keep] same by (metis mod_less_divisor zero_less_numeral)
    then show ?thesis using im(1) by simp
  qed
  then show "sign_extend (elf_entry_point (elf k)) = Some (rip regs)"
    and "j < ph_mem_size h \<Longrightarrow> \<exists>f g. view (kernel_table s') ((ph_virtual_addr h + j) div 4096 * 4096) = Some (f, g) \<and>
      s_memory s' (f + (ph_virtual_addr h + j) mod 4096) =
        (if j < ph_file_size h then s_memory s (elf_input (elf k) + ph_offset h + j) else 0)" by auto
qed

end

end
