(* ===== verification/Kernel_Entry.thy ===== *)
theory Kernel_Entry
  imports Kernel_Start
begin

text \<open>
  What holds when the kernel's first instruction runs.  The contract \<open>kernel_setup\<close> is met by
  the bootloader's own frame allocator together with a four-level page table; the theorems state,
  for every implementation of the contract, where the kernel's image, its stack, the boot
  information and the devices are, and that the memory map does not offer their frames.
\<close>

section \<open>The bootloader's allocator and a four-level page table\<close>

text \<open>The allocator during a boot: it works through the firmware's map \<open>m0\<close>.\<close>

definition boot_alloc :: "'d region_trait \<Rightarrow> 'd list \<Rightarrow> 'd legacy_frame_allocator \<Rightarrow> bool" where
  "boot_alloc T m0 fa \<longleftrightarrow> allocator_inv T fa \<and> original fa = m0"

sublocale memory_region_impl \<subseteq> boot: frame_source "allocate_frame X T" "boot_alloc T m0" "free_frames T" for m0
proof unfold_locales
  show "f \<in> free_frames T fa \<and> free_frames T fa' \<subseteq> free_frames T fa - {f}"
    if "boot_alloc T m0 fa" "allocate_frame X T fa = Ok (Some f, fa')" for fa f fa'
    using legacy.alloc_some that by (simp add: boot_alloc_def)
  show "free_frames T fa' \<subseteq> free_frames T fa"
    if "boot_alloc T m0 fa" "allocate_frame X T fa = Ok (None, fa')" for fa fa'
    using legacy.alloc_none that by (simp add: boot_alloc_def)
  show "boot_alloc T m0 fa'" if "boot_alloc T m0 fa" "allocate_frame X T fa = Ok (r, fa')" for fa r fa'
    using allocate_frame_inv[of fa r fa'] that by (simp add: boot_alloc_def)
qed (rule free_frames_aligned)

definition table_map_2mib ::
    "'fa frame_alloc \<Rightarrow> nat \<Rightarrow> nat \<Rightarrow> flag set \<Rightarrow> page_table_state \<Rightarrow> 'fa \<Rightarrow> (page_table_state \<times> 'fa) res" where
  "table_map_2mib alloc page frame flags pt fa =
     bindR (foldR (ensure_table alloc) [(3, page div 2 ^ 39), (2, page div 2 ^ 30)] (pt, fa)) (\<lambda>(pt, fa).
     if huge pt page \<noteq> None \<or> (1, page div 2 ^ 21) \<in> set (tables pt) then Err ''PageAlreadyMapped''
     else Ok (pt\<lparr>huge := (huge pt)(page \<mapsto> (frame, flags))\<rparr>, fa))"

definition table_paging :: "(page_table_state, 'fa) paging" where
  "table_paging = \<lparr>
     identity_map = (\<lambda>alloc frame. table_map_to alloc frame frame),
     map_to_2mib = table_map_2mib,
     level_4_unused = (\<lambda>i pt. level_4 pt i = None \<and> list_all (\<lambda>(l, n). l \<noteq> 3 \<or> n mod 512 \<noteq> i) (tables pt)),
     set_level_4_entry = (\<lambda>i frame flags pt. pt\<lparr>level_4 := (level_4 pt)(i \<mapsto> (frame, flags))\<rparr>),
     containing_2mib = (\<lambda>a. a div 2 ^ 21 * 2 ^ 21),
     frame_range_2mib = (\<lambda>f g. map (\<lambda>i. f + 2 ^ 21 * i) [0..<(g - f) div 2 ^ 21 + 1]),
     align_down_virt = (\<lambda>a n. a div n * n),
     level_4_alignment = 2 ^ 39,
     gdt_bytes = concat (map (to_le_bytes 8) [0, 0x00af9b000000ffff, 0x00cf93000000ffff])\<rparr>"

context frame_source
begin

lemma ensure_table_huge:
  "ensure_table alloc t s = Ok s' \<Longrightarrow> huge (fst s') = huge (fst s) \<and> level_4 (fst s') = level_4 (fst s)"
  by (auto simp: ensure_table_def res_simps split: if_splits option.splits)

lemma ensure_tables_huge:
  assumes "foldR (ensure_table alloc) ts s = Ok s'"
  shows "huge (fst s') = huge (fst s)"
  by (rule foldR_preserves[OF assms, where P = "\<lambda>t. huge (fst t) = huge (fst s)"]) (auto dest: ensure_table_huge)

lemma table_map_to_huge:
  assumes "table_map_to alloc p f fl pt fa = Ok (pt', fa')"
  shows "huge pt' = huge pt"
proof -
  from assms obtain t where t: "foldR (ensure_table alloc)
      [(3, p div 2 ^ 39), (2, p div 2 ^ 30), (1, p div 2 ^ 21)] (pt, fa) = Ok t"
    and "huge pt' = huge (fst t)"
    by (auto simp: table_map_to_def split_def simp del: foldR.simps elim!: bindR_OkE split: option.split_asm)
  with ensure_tables_huge[OF t] show ?thesis by simp
qed

lemma table_map_2mib_ok:
  assumes inv: "inv fa" and "table_map_2mib alloc p f fl pt fa = Ok (pt', fa')"
  shows "entries pt' = entries pt \<and> inv fa' \<and> free fa' \<subseteq> free fa \<and> huge pt p = None \<and>
    huge pt' = (huge pt)(p \<mapsto> (f, fl))"
proof -
  from assms(2) obtain t where t: "foldR (ensure_table alloc) [(3, p div 2 ^ 39), (2, p div 2 ^ 30)] (pt, fa) = Ok t"
    and r: "huge (fst t) p = None" "pt' = (fst t)\<lparr>huge := (huge (fst t))(p \<mapsto> (f, fl))\<rparr>" "fa' = snd t"
    by (auto simp: table_map_2mib_def split_def simp del: foldR.simps not_None_eq elim!: bindR_OkE split: if_splits)
  with ensure_tables_huge[OF t] ensure_tables_keep[OF t] inv show ?thesis by simp
qed

end

context memory_region_impl
begin

lemma table_setup_for:
  assumes src: "frame_source (allocate_frame X T) I (free_frames T)"
  shows "kernel_setup X T I (free_frames T) table_mapper entries table_paging huge"
proof (rule kernel_setup.intro[OF _ frame_source.table_mapper_contract[OF src]], unfold_locales)
  fix fa f fl pt pt' fa'
  assume i: "I fa" and ok: "identity_map table_paging (allocate_frame X T) f fl pt fa = Ok (pt', fa')"
  then have "map_to table_mapper (allocate_frame X T) f f fl pt fa = Ok (pt', fa')"
    by (simp add: table_paging_def table_mapper_def)
  from page_mapper.map_to_ok[OF frame_source.table_mapper_contract[OF src] i this]
  show "entries pt \<subseteq>\<^sub>m entries pt' \<and> (f < 2 ^ 47 \<longrightarrow> entries pt' f = Some (f, fl)) \<and> I fa' \<and>
      free_frames T fa' \<subseteq> free_frames T fa" by (auto simp: map_le_def)
next
  fix fa p f fl pt pt' fa'
  assume "I fa" and "map_to_2mib table_paging (allocate_frame X T) p f fl pt fa = Ok (pt', fa')"
  with frame_source.table_map_2mib_ok[OF src, of fa p f fl pt pt' fa']
  show "entries pt \<subseteq>\<^sub>m entries pt' \<and> I fa' \<and> free_frames T fa' \<subseteq> free_frames T fa \<and>
      huge pt p = None \<and> huge pt' = (huge pt)(p \<mapsto> (f, fl))" by (simp add: table_paging_def)
next
  fix fa p f fl pt pt' fa'
  assume "map_to table_mapper (allocate_frame X T) p f fl pt fa = Ok (pt', fa')"
  with frame_source.table_map_to_huge[OF src, of p f fl pt fa pt' fa'] show "huge pt \<subseteq>\<^sub>m huge pt'" by (simp add: table_mapper_def)
qed (simp_all add: table_paging_def)

lemma table_setup:
  "kernel_setup X T (boot_alloc T m0) (free_frames T) table_mapper entries table_paging huge"
  by (rule table_setup_for) (rule boot.frame_source_axioms)

end

sublocale memory_region_impl \<subseteq> start: kernel_setup X T "boot_alloc T m0" "free_frames T"
    table_mapper entries table_paging huge for m0
  by (rule table_setup)

text \<open>
  The conditions of a boot: a random number generator that keeps its contract, the allocator on
  the map \<open>m0\<close> with frames below the addresses that identity mapping reaches, \<open>mp\<close> the end of
  physical memory, and sizes that fit the address space.
\<close>

definition boot_ready ::
    "x86 \<Rightarrow> 'd region_trait \<Rightarrow> 'd list \<Rightarrow> 'r rng_ops \<Rightarrow> type_layouts \<Rightarrow> kernel \<Rightarrow> system_info \<Rightarrow>
     ('pt, 'd legacy_frame_allocator, 'r) boot_state \<Rightarrow> nat \<Rightarrow> bool" where
  "boot_ready X T m0 R L k info s mp \<longleftrightarrow>
     boot_alloc T m0 (s_allocator s) \<and> rng_ok R \<and> free_frames T (s_allocator s) \<subseteq> {f. f < 2 ^ 47} \<and>
     max_phys_addr X T (s_allocator s) = Ok mp \<and> boot_fits k info L (length m0) mp"

lemma boot_readyD:
  assumes "boot_ready X T m0 R L k info s mp"
  shows "boot_alloc T m0 (s_allocator s)" and "rng_ok R" and "free_frames T (s_allocator s) \<subseteq> {f. f < 2 ^ 47}"
    and "\<forall>fa. boot_alloc T m0 fa \<longrightarrow> max_phys_addr X T fa = Ok mp \<and> frame_allocator_len fa = length m0"
    and "boot_fits k info L (length m0) mp"
  using assms by (auto simp: boot_ready_def boot_alloc_def max_phys_addr_def frame_allocator_len_def)

section \<open>An example boot\<close>

definition entry_map :: "e820_memory_region list" where
  "entry_map = [\<lparr>e820_start_addr = 0x100000, e820_len = 0x100000, region_type = 1, acpi_extended_attributes = 1\<rparr>]"

definition entry_config :: bootloader_config where
  "entry_config = (config_new_default \<lparr>version_major = 0, version_minor = 11, version_patch = 4,
     pre_release = False\<rparr>)\<lparr>kernel_stack_size := 0x1000,
       mappings := mappings_new_default\<lparr>kernel_stack := FixedAddress 0x210000, boot_info := FixedAddress 0x220000,
         framebuffer := FixedAddress 0x230000, ramdisk_memory := FixedAddress 0x240000,
         physical_memory := Some (FixedAddress 0x40000000)\<rparr>\<rparr>"

definition entry_kernel :: kernel where
  "entry_kernel = \<lparr>elf = \<lparr>elf_input = 0x300000, program_iter = [example_load, example_relro], elf_type = Executable,
       elf_entry_point = 0x201000, elf_sanity_check = Ok ()\<rparr>,
     kernel_config = entry_config, start_address = 0x300000, kernel_file_len = 0x3000\<rparr>"

definition entry_info :: system_info where
  "entry_info = \<lparr>si_framebuffer = Some \<lparr>raw_addr = 0xfd000000, raw_info = \<lparr>byte_len = 0x1000, width = 32,
       height = 32, pixel_format = Bgr, bytes_per_pixel = 4, stride = 32\<rparr>\<rparr>,
     si_rsdp_addr = None, si_ramdisk_addr = Some 0x400000, si_ramdisk_len = 0x1800\<rparr>"

definition entry_state0 :: "(page_table_state, e820_memory_region legacy_frame_allocator, nat) boot_state" where
  "entry_state0 = \<lparr>
     bootloader_table = \<lparr>entries = Map.empty, tables = [], huge = Map.empty, level_4 = Map.empty\<rparr>,
     kernel_table = \<lparr>entries = Map.empty, tables = [], huge = Map.empty, level_4 = Map.empty\<rparr>,
     kernel_level_4_frame = 0xff000, s_allocator = new_starting_at 0x100000 entry_map,
     s_memory = (\<lambda>a. word_of_nat (a mod 251 + 1)), s_used = \<lparr>entry_state = [], rng = None\<rparr>,
     efer_nxe = False, cr0_wp = False, loaded_gdt = None\<rparr>"

lemmas setup_run = used_entries_new_def entry_config_def config_new_default_def mappings_new_default_def
  mapping_new_default_def mark_physical_memory_def mark_recursive_def mark_kernel_stack_def
  mark_boot_info_def mark_framebuffer_def mark_before_dynamic_range_def mark_after_dynamic_range_def
  mark_range_as_used_def sign_extend_def mark_segments_def vao_add_def

lemma entry_used:
  obtains u where "used_entries_new x86_ref example_layouts (0 :: nat) 0x200000 1 (si_framebuffer entry_info) entry_config = Ok u"
  by (simp add: setup_run x86_ref_def entry_info_def layout_array_def layout_extend_def example_layouts_def add_w_def Let_def)

lemma x86_ref_more:
  "phys_is_aligned x86_ref a 4096 = Ok (4096 dvd a)"
  "virt_is_aligned x86_ref a 8 = Ok (8 dvd a)"
  "virt_is_aligned x86_ref a 4096 = Ok (4096 dvd a)"
  "virt_is_aligned x86_ref a 2097152 = Ok (2097152 dvd a)"
  "p4_index x86_ref a = a div 2 ^ 39 mod 512"
  by (simp_all add: x86_ref_def) (simp_all add: is_pow2_def upt_rec)

lemmas boot_run = load_kernel_def loader_new_def choose_offset_def entry_point_def vao_zero_def loader_run
  handle_relro_segment_def remove_copied_flags_def segment_pages_def drop_flag_def add_w_def
  example_load_def example_relro_def entry_map_def sign_extend_def upt_conv_Cons
  mark_segments_def mark_range_as_used_def vao_add_def x86_ref_more PAGE_SIZE_def
  map_stack_def mapping_addr_page_aligned_def mapping_addr_def map_stack_page_def take_frame_def kernel_map_def
  identity_map_frame_def map_context_switch_def create_and_load_def map_gdt_def map_nth_frame_def map_frames_def
  map_framebuffer_def map_ramdisk_def map_2mib_frame_def map_physical_memory_def map_page_table_recursive_def
  enable_nxe_bit_def enable_write_protect_bit_def table_paging_def table_map_2mib_def max_phys_addr_def

lemma entry_boots:
  "case load_and_switch_to_kernel x86_ref (bios_region x86_ref) table_mapper table_paging counter_rng
     (\<lambda>_. example_rela) example_layouts 0 0x180000 (version entry_config) entry_kernel 0 entry_info entry_state0 of
   Ok (regs, bi, m, s') \<Rightarrow> memory_regions bi =
     [\<lparr>region_start = 0x100000, region_end = 0x10d000, region_kind = Bootloader\<rparr>,
      \<lparr>region_start = 0x10d000, region_end = 0x200000, region_kind = Usable\<rparr>]
   | _ \<Rightarrow> False"
proof -
  obtain u where u: "used_entries_new x86_ref example_layouts (0 :: nat) 0x200000 1 (si_framebuffer entry_info) entry_config = Ok u"
    by (rule entry_used)
  have a: "max_phys_addr x86_ref (bios_region x86_ref) (s_allocator entry_state0) = Ok 0x200000"
    "frame_allocator_len (s_allocator entry_state0) = 1"
    by (simp_all add: entry_state0_def max_phys_addr_def entry_map_def new_starting_at_def x86_ref_sel bios_region_sel
      frame_allocator_len_def)
  have k: "kernel_config entry_kernel = entry_config" by (simp add: entry_kernel_def)
  show ?thesis
    apply (simp add: load_and_switch_to_kernel_def set_up_mappings_def k a u[unfolded One_nat_def] Let_def)
    apply (simp add: boot_run entry_kernel_def entry_state0_def)
    apply (simp add: entry_info_def entry_config_def config_new_default_def mappings_new_default_def boot_run sub_w_def)
    apply (simp add: create_boot_info_def map_boot_info_def map_boot_info_page_def layout_array_def layout_extend_def
      example_layouts_def frame_allocator_len_def boot_run construct_memory_map_def construct_region_def
      classify_descriptor_def add_around_kernel_def add_region_def bios_region_def bios_kind_def boot_info_new_def)
    done
qed

lemma entry_setup: "kernel_setup x86_ref (bios_region x86_ref) (boot_alloc (bios_region x86_ref) entry_map)
    (free_frames (bios_region x86_ref)) table_mapper entries table_paging huge"
  by (rule memory_region_impl.table_setup[OF ref.bios_impl])

lemma entry_ready: "boot_ready x86_ref (bios_region x86_ref) entry_map counter_rng example_layouts entry_kernel
    entry_info entry_state0 0x200000"
proof -
  have "allocator_inv (bios_region x86_ref) (new_starting_at 0x100000 entry_map)"
    by (rule ref.bios.new_starting_at_inv) simp
  moreover have "max_phys_addr x86_ref (bios_region x86_ref) (new_starting_at 0x100000 entry_map) = Ok 0x200000"
    by (simp add: max_phys_addr_def entry_map_def new_starting_at_def x86_ref_sel bios_region_sel)
  moreover have "free_frames (bios_region x86_ref) (new_starting_at 0x100000 entry_map) \<subseteq> {f. f < 2 ^ 47}"
    by (auto simp: free_frames_def usable_frames_def d_frames_def d_end_def d_start_def new_starting_at_def entry_map_def
        bios_region_sel)
  moreover have "boot_fits entry_kernel entry_info example_layouts (length entry_map) 0x200000"
    by (simp add: boot_fits_def layout_fits_def placed_def same_half_def canonical_def entry_kernel_def entry_config_def
        config_new_default_def mappings_new_default_def entry_info_def boot_info_bytes_def layout_array_def
        layout_extend_def example_layouts_def entry_map_def)
  ultimately show ?thesis
    using rng_ok_counter by (simp add: boot_ready_def boot_alloc_def entry_state0_def new_starting_at_def)
qed

lemma entry_static:
  "static_kernel entries (free_frames (bios_region x86_ref)) example_frames (elf entry_kernel) entry_state0"
proof -
  have "loadable example_frames (kernel_inner (elf entry_kernel) entry_state0) example_load"
    using example_loadable by (simp add: kernel_inner_def entry_kernel_def loadable_def example_inner_def vao_zero_def
        split: res.splits)
  moreover have "example_frames \<inter> free_frames (bios_region x86_ref) (s_allocator entry_state0) = {}"
    by (auto simp: example_frames_def free_frames_def usable_frames_def d_frames_def d_end_def d_start_def entry_state0_def
        new_starting_at_def entry_map_def bios_region_sel)
  moreover have "get_type example_load = Ok Load" "get_type example_relro = Ok GnuRelro"
    by (simp_all add: example_load_def example_relro_def)
  ultimately show ?thesis using example_relro_inside
    by (simp add: static_kernel_def entry_kernel_def entry_state0_def example_inner_def)
qed

lemma entry_runs:
  obtains regs bi m s' where "load_and_switch_to_kernel x86_ref (bios_region x86_ref) table_mapper table_paging counter_rng
       (\<lambda>_. example_rela) example_layouts 0 0x180000 (version entry_config) entry_kernel 0 entry_info entry_state0 =
     Ok (regs, bi, m, s')"
    and "memory_regions bi =
      [\<lparr>region_start = 0x100000, region_end = 0x10d000, region_kind = Bootloader\<rparr>,
       \<lparr>region_start = 0x10d000, region_end = 0x200000, region_kind = Usable\<rparr>]"
  using entry_boots by (cases "load_and_switch_to_kernel x86_ref (bios_region x86_ref) table_mapper table_paging counter_rng
       (\<lambda>_. example_rela) example_layouts 0 0x180000 (version entry_config) entry_kernel 0 entry_info entry_state0") auto

section \<open>Properties\<close>

text \<open>C1. When the kernel's first instruction runs, its image is in the address space that is active
  then: for every \<open>LOAD\<close> segment of a statically linked executable, each byte of the segment's memory
  range is mapped in the kernel's page table to a byte of physical memory that holds the file's byte,
  or zero beyond the part in the file.  The instruction pointer is the ELF entry point.  None of
  the later mappings (stack, GDT, framebuffer, ramdisk, physical memory, boot information) disturbs
  the image.\<close>

theorem kernel_image_at_entry:
  assumes "kernel_setup X T (boot_alloc T m0) (free_frames T) M view P huge_view"
    and "boot_ready X T m0 R L k info s mp"
    and "load_and_switch_to_kernel X T M P R D L r cs v k sentinel info s = Ok (regs, bi, m, s')"
    and "static_kernel view (free_frames T) F (elf k) s"
    and "h \<in> set (program_iter (elf k))" and "get_type h = Ok Load"
  shows "sign_extend (elf_entry_point (elf k)) = Some (rip regs) \<and>
    (\<forall>j < ph_mem_size h. \<exists>f g. view (kernel_table s') ((ph_virtual_addr h + j) div 4096 * 4096) = Some (f, g) \<and>
      s_memory s' (f + (ph_virtual_addr h + j) mod 4096) =
        (if j < ph_file_size h then s_memory s (elf_input (elf k) + ph_offset h + j) else 0))"
  using kernel_setup.start_image[OF assms(1,3) boot_readyD[OF assms(2)] assms(4-6)] by blast

theorem kernel_image_at_entry_witness:
  "case load_and_switch_to_kernel x86_ref (bios_region x86_ref) table_mapper table_paging counter_rng
       (\<lambda>_. example_rela) example_layouts 0 0x180000 (version entry_config) entry_kernel 0 entry_info entry_state0 of
     Ok (regs, bi, m, s') \<Rightarrow> rip regs = 0x201000 \<and>
       (\<exists>f g. entries (kernel_table s') 0x201000 = Some (f, g) \<and>
         s_memory s' (f + 4) = s_memory entry_state0 0x302004 \<and> s_memory s' (f + 8) = 0)
   | _ \<Rightarrow> False"
proof (rule entry_runs)
  fix regs bi m s'
  assume x: "load_and_switch_to_kernel x86_ref (bios_region x86_ref) table_mapper table_paging counter_rng
       (\<lambda>_. example_rela) example_layouts 0 0x180000 (version entry_config) entry_kernel 0 entry_info entry_state0 =
     Ok (regs, bi, m, s')"
  have h: "example_load \<in> set (program_iter (elf entry_kernel))" "get_type example_load = Ok Load"
    by (simp_all add: entry_kernel_def example_load_def)
  note im = kernel_image_at_entry[OF entry_setup entry_ready x entry_static h]
  have "rip regs = 0x201000" using im by (simp add: entry_kernel_def sign_extend_def)
  moreover have "\<exists>f g. entries (kernel_table s') 0x201000 = Some (f, g) \<and>
      s_memory s' (f + 4) = s_memory entry_state0 0x302004"
    "\<exists>f g. entries (kernel_table s') 0x201000 = Some (f, g) \<and> s_memory s' (f + 8) = 0"
    using im[THEN conjunct2, rule_format, of 12] im[THEN conjunct2, rule_format, of 16]
    by (simp_all add: entry_kernel_def example_load_def)
  ultimately show ?thesis using x by auto
qed

text \<open>C5. The kernel starts on a stack of the configured size: every byte of it is mapped writable in
  the kernel's page table, to frames that were free before the boot and are not free afterwards,
  different pages to different frames.  After the return address that the context switch pushes, the
  stack pointer is 8 below a multiple of 16, as the calling convention asks at a function's entry.\<close>

theorem kernel_stack_at_entry:
  assumes "kernel_setup X T (boot_alloc T m0) (free_frames T) M view P huge_view"
    and "boot_ready X T m0 R L k info s mp"
    and "load_and_switch_to_kernel X T M P R D L r cs v k sentinel info s = Ok (regs, bi, m, s')"
  shows "\<exists>start. 4096 dvd start \<and>
    rsp regs + 8 = (start + unat (kernel_stack_size (kernel_config k))) div 16 * 16 \<and>
    (\<forall>va. start \<le> va \<and> va < start + unat (kernel_stack_size (kernel_config k)) \<longrightarrow>
      (\<exists>f. view (kernel_table s') (va div 4096 * 4096) = Some (f, {PRESENT, WRITABLE}) \<and>
         f \<in> free_frames T (s_allocator s) \<and> f \<notin> free_frames T (s_allocator s'))) \<and>
    (\<forall>va vb. start \<le> va \<and> va < start + unat (kernel_stack_size (kernel_config k)) \<and>
      start \<le> vb \<and> vb < start + unat (kernel_stack_size (kernel_config k)) \<and> va div 4096 \<noteq> vb div 4096 \<longrightarrow>
      view (kernel_table s') (va div 4096 * 4096) \<noteq> view (kernel_table s') (vb div 4096 * 4096))"
proof (rule kernel_setup.start_stack[OF assms(1,3) boot_readyD[OF assms(2)]])
  fix start
  assume "4096 dvd start" and "rsp regs + 8 = (start + unat (kernel_stack_size (kernel_config k))) div 16 * 16"
    and "\<And>va. start \<le> va \<Longrightarrow> va < start + unat (kernel_stack_size (kernel_config k)) \<Longrightarrow> \<exists>f.
      view (kernel_table s') (va div 4096 * 4096) = Some (f, {PRESENT, WRITABLE}) \<and>
      f \<in> free_frames T (s_allocator s) \<and> f \<notin> free_frames T (s_allocator s')"
    and "\<And>va vb. start \<le> va \<Longrightarrow> va < start + unat (kernel_stack_size (kernel_config k)) \<Longrightarrow>
      start \<le> vb \<Longrightarrow> vb < start + unat (kernel_stack_size (kernel_config k)) \<Longrightarrow> va div 4096 \<noteq> vb div 4096 \<Longrightarrow>
      view (kernel_table s') (va div 4096 * 4096) \<noteq> view (kernel_table s') (vb div 4096 * 4096)"
  then show ?thesis by blast
qed

theorem kernel_stack_at_entry_witness:
  "case load_and_switch_to_kernel x86_ref (bios_region x86_ref) table_mapper table_paging counter_rng
       (\<lambda>_. example_rela) example_layouts 0 0x180000 (version entry_config) entry_kernel 0 entry_info entry_state0 of
     Ok (regs, bi, m, s') \<Rightarrow> \<exists>start. 4096 dvd start \<and> rsp regs + 8 = (start + 0x1000) div 16 * 16 \<and>
       map_option snd (entries (kernel_table s') start) = Some {PRESENT, WRITABLE}
   | _ \<Rightarrow> False"
proof (rule entry_runs)
  fix regs bi m s'
  assume x: "load_and_switch_to_kernel x86_ref (bios_region x86_ref) table_mapper table_paging counter_rng
       (\<lambda>_. example_rela) example_layouts 0 0x180000 (version entry_config) entry_kernel 0 entry_info entry_state0 =
     Ok (regs, bi, m, s')"
  have "unat (kernel_stack_size (kernel_config entry_kernel)) = 0x1000"
    by (simp add: entry_kernel_def entry_config_def)
  from kernel_stack_at_entry[OF entry_setup entry_ready x, unfolded this] show ?thesis
  proof (elim exE conjE)
    fix start
    assume st: "4096 dvd start" "rsp regs + 8 = (start + 0x1000) div 16 * 16"
      and m: "\<forall>va. start \<le> va \<and> va < start + 0x1000 \<longrightarrow>
        (\<exists>f. entries (kernel_table s') (va div 4096 * 4096) = Some (f, {PRESENT, WRITABLE}) \<and>
          f \<in> free_frames (bios_region x86_ref) (s_allocator entry_state0) \<and>
          f \<notin> free_frames (bios_region x86_ref) (s_allocator s'))"
    have "\<exists>f. entries (kernel_table s') start = Some (f, {PRESENT, WRITABLE})"
      using m[rule_format, of start] by (auto simp: dvd_div_mult_self[OF st(1)])
    then have "map_option snd (entries (kernel_table s') start) = Some {PRESENT, WRITABLE}" by auto
    with st(1,2) show ?thesis unfolding x res.case prod.case by blast
  qed
qed

text \<open>C13. The boot information is shared: every byte of the structure and of the slice for the memory
  regions, from the address passed to the kernel in \<open>rdi\<close> on, is mapped to the same frame in the
  bootloader's and in the kernel's page table, a frame that the allocator gave out for it.\<close>

theorem boot_info_at_entry:
  assumes "kernel_setup X T (boot_alloc T m0) (free_frames T) M view P huge_view"
    and "boot_ready X T m0 R L k info s mp"
    and "load_and_switch_to_kernel X T M P R D L r cs v k sentinel info s = Ok (regs, bi, m, s')"
    and "j < boot_info_bytes L (length m0 + 4)"
  shows "\<exists>f. view (kernel_table s') ((rdi regs + j) div 4096 * 4096) = Some (f, {PRESENT, WRITABLE}) \<and>
    view (bootloader_table s') ((rdi regs + j) div 4096 * 4096) = Some (f, {PRESENT, WRITABLE}) \<and>
    f \<in> free_frames T (s_allocator s) \<and> f \<notin> free_frames T (s_allocator s')"
  by (rule kernel_setup.load_and_switch_spec[OF assms(1,3) boot_readyD[OF assms(2)]]) (use assms(4) in blast)

theorem boot_info_at_entry_witness:
  "case load_and_switch_to_kernel x86_ref (bios_region x86_ref) table_mapper table_paging counter_rng
       (\<lambda>_. example_rela) example_layouts 0 0x180000 (version entry_config) entry_kernel 0 entry_info entry_state0 of
     Ok (regs, bi, m, s') \<Rightarrow> \<exists>f fl.
       entries (kernel_table s') ((rdi regs + 300) div 4096 * 4096) = Some (f, fl) \<and>
       entries (bootloader_table s') ((rdi regs + 300) div 4096 * 4096) = Some (f, fl)
   | _ \<Rightarrow> False"
proof (rule entry_runs)
  fix regs bi m s'
  assume x: "load_and_switch_to_kernel x86_ref (bios_region x86_ref) table_mapper table_paging counter_rng
       (\<lambda>_. example_rela) example_layouts 0 0x180000 (version entry_config) entry_kernel 0 entry_info entry_state0 =
     Ok (regs, bi, m, s')"
  have "300 < boot_info_bytes example_layouts (length entry_map + 4)"
    by (simp add: boot_info_bytes_def layout_array_def layout_extend_def example_layouts_def entry_map_def)
  from boot_info_at_entry[OF entry_setup entry_ready x this] show ?thesis using x by auto
qed

text \<open>C14. The device mappings the boot information announces exist in the kernel's page table: from the
  framebuffer's address on the bytes of a page-aligned framebuffer, from the ramdisk's address on the
  bytes of the ramdisk's frames, and from the physical memory offset on all of physical memory in pages
  of 2 MiB.\<close>

theorem devices_at_entry:
  assumes "kernel_setup X T (boot_alloc T m0) (free_frames T) M view P huge_view"
    and "boot_ready X T m0 R L k info s mp"
    and "load_and_switch_to_kernel X T M P R D L r cs v k sentinel info s = Ok (regs, bi, m, s')"
  shows "(\<forall>raw. si_framebuffer info = Some raw \<and> 4096 dvd raw_addr raw \<longrightarrow>
      (\<exists>a. bi_framebuffer bi = OptSome (frame_buffer_new a (raw_info raw)) \<and> 4096 dvd a \<and>
        maps_range (view (kernel_table s')) a (raw_addr raw) (byte_len (raw_info raw)))) \<and>
    (\<forall>p. si_ramdisk_addr info = Some p \<longrightarrow>
      (\<exists>a. ramdisk_addr bi = OptSome a \<and> 4096 dvd a \<and>
        maps_range (view (kernel_table s')) a (p div 4096 * 4096) (si_ramdisk_len info))) \<and>
    (physical_memory (mappings (kernel_config k)) \<noteq> None \<longrightarrow>
      (\<exists>a. physical_memory_offset bi = OptSome a \<and> 2 ^ 21 dvd a \<and>
        maps_physical (huge_view (kernel_table s')) a mp))"
  using kernel_setup.start_devices[OF assms(1,3) boot_readyD[OF assms(2)]] by blast

theorem devices_at_entry_witness:
  "case load_and_switch_to_kernel x86_ref (bios_region x86_ref) table_mapper table_paging counter_rng
       (\<lambda>_. example_rela) example_layouts 0 0x180000 (version entry_config) entry_kernel 0 entry_info entry_state0 of
     Ok (regs, bi, m, s') \<Rightarrow>
       (\<exists>a. ramdisk_addr bi = OptSome a \<and> entries (kernel_table s') ((a + 0x1234) div 4096 * 4096) =
          Some (0x401000, {PRESENT, WRITABLE})) \<and>
       (\<exists>a. physical_memory_offset bi = OptSome a \<and> huge (kernel_table s') ((a + 0xb8000) div 2 ^ 21 * 2 ^ 21) =
          Some (0, {PRESENT, WRITABLE}))
   | _ \<Rightarrow> False"
proof (rule entry_runs)
  fix regs bi m s'
  assume x: "load_and_switch_to_kernel x86_ref (bios_region x86_ref) table_mapper table_paging counter_rng
       (\<lambda>_. example_rela) example_layouts 0 0x180000 (version entry_config) entry_kernel 0 entry_info entry_state0 =
     Ok (regs, bi, m, s')"
  have i: "si_ramdisk_addr entry_info = Some 0x400000" "si_ramdisk_len entry_info = 0x1800"
    "physical_memory (mappings (kernel_config entry_kernel)) \<noteq> None"
    by (simp_all add: entry_info_def entry_kernel_def entry_config_def)
  note d = devices_at_entry[OF entry_setup entry_ready x]
  have "\<exists>a. ramdisk_addr bi = OptSome a \<and> entries (kernel_table s') ((a + 0x1234) div 4096 * 4096) =
      Some (0x401000, {PRESENT, WRITABLE})"
    using d i(1,2) by (auto simp: maps_range_def dest!: spec[of _ "0x1234"])
  moreover have "\<exists>a. physical_memory_offset bi = OptSome a \<and>
      huge (kernel_table s') ((a + 0xb8000) div 2 ^ 21 * 2 ^ 21) = Some (0, {PRESENT, WRITABLE})"
    using d i(3) by (auto simp: maps_physical_def dest!: spec[of _ "0xb8000"])
  ultimately show ?thesis using x by simp
qed

text \<open>C2. The memory map in the boot information does not offer any memory the boot has used: no
  region of kind \<open>Usable\<close> has a byte of the kernel's file, or of a frame that was free before the boot
  and is not free afterwards (page tables, kernel pages, stack, GDT, boot information).\<close>

theorem boot_memory_not_usable:
  assumes "memory_region_impl X T"
    and "kernel_setup X T (boot_alloc T m0) (free_frames T) M view P huge_view"
    and "boot_ready X T m0 R L k info s mp"
    and "load_and_switch_to_kernel X T M P R D L r cs v k sentinel info s = Ok (regs, bi, m, s')"
    and "disjoint_map T m0"
    and "\<forall>d \<in> set m0. rt_kind T d = Usable \<longrightarrow>
      4096 dvd d_start T d \<and> 4096 dvd d_end T d \<and> d_start T d < d_end T d"
    and "q \<in> set (memory_regions bi)" and "region_kind q = Usable"
  shows "r_bytes q \<inter> ({a. m_kernel_slice_start m \<le> a \<and> a < m_kernel_slice_start m + m_kernel_slice_len m} \<union>
    {a. \<exists>f \<in> free_frames T (s_allocator s) - free_frames T (s_allocator s'). f \<le> a \<and> a < f + 4096}) = {}"
proof (rule kernel_setup.load_and_switch_spec[OF assms(2,4) boot_readyD[OF assms(3)]])
  assume c: "construct_memory_map X T (s_allocator s') (length m0 + 4) (m_kernel_slice_start m)
      (m_kernel_slice_len m) = Ok (memory_regions bi)"
    and inv: "boot_alloc T m0 (s_allocator s')"
  have al: "4096 dvd next_frame (s_allocator s')" and o: "original (s_allocator s') = m0"
    using inv by (simp_all add: boot_alloc_def allocator_inv_def)
  have "original (s_allocator s) = m0" using boot_readyD(1)[OF assms(3)] by (simp add: boot_alloc_def)
  then have "f \<in> usable_frames T m0" if "f \<in> free_frames T (s_allocator s)" for f
    using that by (simp add: free_frames_def)
  then show ?thesis
    using memory_region_impl.taken_not_usable[OF assms(1) c al, unfolded o, OF assms(5-8)] by blast
qed

theorem boot_memory_not_usable_witness:
  "case load_and_switch_to_kernel x86_ref (bios_region x86_ref) table_mapper table_paging counter_rng
       (\<lambda>_. example_rela) example_layouts 0 0x180000 (version entry_config) entry_kernel 0 entry_info entry_state0 of
     Ok (regs, bi, m, s') \<Rightarrow>
       {a. 0x10d000 \<le> a \<and> a < 0x200000} \<inter>
       {a. \<exists>f \<in> free_frames (bios_region x86_ref) (s_allocator entry_state0) -
           free_frames (bios_region x86_ref) (s_allocator s'). f \<le> a \<and> a < f + 4096} = {}
   | _ \<Rightarrow> False"
proof (rule entry_runs)
  fix regs bi m s'
  assume x: "load_and_switch_to_kernel x86_ref (bios_region x86_ref) table_mapper table_paging counter_rng
       (\<lambda>_. example_rela) example_layouts 0 0x180000 (version entry_config) entry_kernel 0 entry_info entry_state0 =
     Ok (regs, bi, m, s')"
    and rs: "memory_regions bi =
      [\<lparr>region_start = 0x100000, region_end = 0x10d000, region_kind = Bootloader\<rparr>,
       \<lparr>region_start = 0x10d000, region_end = 0x200000, region_kind = Usable\<rparr>]"
  let ?q = "\<lparr>region_start = 0x10d000, region_end = 0x200000, region_kind = Usable\<rparr>"
  have d: "disjoint_map (bios_region x86_ref) entry_map" by (simp add: disjoint_map_def entry_map_def)
  have v: "\<forall>d \<in> set entry_map. rt_kind (bios_region x86_ref) d = Usable \<longrightarrow>
      4096 dvd d_start (bios_region x86_ref) d \<and> 4096 dvd d_end (bios_region x86_ref) d \<and>
      d_start (bios_region x86_ref) d < d_end (bios_region x86_ref) d"
    by (simp add: entry_map_def d_start_def d_end_def bios_region_sel)
  have q: "?q \<in> set (memory_regions bi)" "region_kind ?q = Usable" by (simp_all add: rs)
  have "r_bytes ?q = {a. 0x10d000 \<le> a \<and> a < 0x200000}" by (simp add: r_bytes_def)
  with boot_memory_not_usable[OF ref.bios_impl entry_setup entry_ready x d v q]
  have "{a. 0x10d000 \<le> a \<and> a < 0x200000} \<inter>
       {a. \<exists>f \<in> free_frames (bios_region x86_ref) (s_allocator entry_state0) -
           free_frames (bios_region x86_ref) (s_allocator s'). f \<le> a \<and> a < f + 4096} = {}" by blast
  then show ?thesis by (simp only: x res.case prod.case)
qed

end
