(* ===== verification/Stage_4.thy ===== *)
theory Stage_4
  imports Stage_2 Kernel_Entry
begin

text \<open>
  The main function of stage 4 (\<^verbatim>\<open>src/bios/stage-4/src/main.rs\<close>) and the boot configuration
  (\<^verbatim>\<open>src/common/config/src/lib.rs\<close>): stage 4 sorts the memory map, starts the frame allocator behind
  the last byte that stage 2 has used, creates the kernel's page table, parses the kernel and its
  configuration and starts the kernel.  The decoder of the configuration file (\<^verbatim>\<open>serde_json_core\<close>),
  the search for the ACPI tables (\<^verbatim>\<open>rsdp\<close>), \<^verbatim>\<open>xmas_elf\<close> and the mapper of 2 MiB pages are
  parameters; logging is not modelled.
\<close>

section \<open>Definitions\<close>

subsection \<open>The boot configuration\<close>

datatype level_filter = LevelOff | LevelError | LevelWarn | LevelInfo | LevelDebug | LevelTrace

record boot_frame_buffer =
  bfb_minimum_framebuffer_height :: "nat option"
  bfb_minimum_framebuffer_width :: "nat option"

record boot_config =
  bc_frame_buffer :: boot_frame_buffer
  bc_log_level :: level_filter
  bc_frame_buffer_logging :: bool
  bc_serial_logging :: bool
  bc_test_sentinel :: nat

definition boot_config_default :: boot_config where
  "boot_config_default = \<lparr>
     bc_frame_buffer = \<lparr>bfb_minimum_framebuffer_height = None, bfb_minimum_framebuffer_width = None\<rparr>,
     bc_log_level = LevelTrace,
     bc_frame_buffer_logging = True,
     bc_serial_logging = True,
     bc_test_sentinel = 0\<rparr>"

text \<open>\<open>J\<close> is \<open>serde_json_core::from_slice\<close>.  A file that cannot be decoded gives the default.\<close>

definition load_boot_config ::
    "(u8 list \<Rightarrow> boot_config option) \<Rightarrow> bootloader_config \<Rightarrow> u8 list option \<Rightarrow> boot_config" where
  "load_boot_config J kc config_file =
     (let config = (case config_file of
            None \<Rightarrow> boot_config_default
          | Some bs \<Rightarrow> (case J bs of Some data \<Rightarrow> data | None \<Rightarrow> boot_config_default));
          fb = bc_frame_buffer config;
          fb = (if bfb_minimum_framebuffer_height fb = None
                then fb\<lparr>bfb_minimum_framebuffer_height := map_option unat (minimum_framebuffer_height (frame_buffer kc))\<rparr> else fb);
          fb = (if bfb_minimum_framebuffer_width fb = None
                then fb\<lparr>bfb_minimum_framebuffer_width := map_option unat (minimum_framebuffer_width (frame_buffer kc))\<rparr> else fb)
      in config\<lparr>bc_frame_buffer := fb\<rparr>)"

subsection \<open>Preparing the boot\<close>

definition GIGABYTE :: nat where "GIGABYTE = 4096 * 512 * 512"

definition bootloader_max_phys_addr :: "e820_memory_region list \<Rightarrow> nat res" where
  "bootloader_max_phys_addr regions =
     bindR (mapR (\<lambda>r. add_u64 (e820_start_addr r) (e820_len r)) regions) (\<lambda>ends.
     bindR (expect_some ''no physical memory regions found'' (iter_max ends)) (\<lambda>mx.
       Ok (min mx (4 * GIGABYTE))))"

text \<open>The frames of the loop that identity-maps what lies above 10 GiB; the range may be empty.\<close>

definition remaining_frames :: "('pt, 'fa) paging \<Rightarrow> nat \<Rightarrow> nat list" where
  "remaining_frames P last_addr =
     (let start_frame = containing_2mib P (10 * GIGABYTE); end_frame = containing_2mib P last_addr
      in if start_frame \<le> end_frame then frame_range_2mib P start_frame end_frame else [])"

text \<open>\<open>I\<close> is \<open>identity_map\<close> for frames of 2 MiB.\<close>

definition map_remaining ::
    "(nat \<Rightarrow> flag set \<Rightarrow> 'pt \<Rightarrow> 'fa \<Rightarrow> ('pt \<times> 'fa) res) \<Rightarrow> nat \<Rightarrow> 'pt \<times> 'fa \<Rightarrow> ('pt \<times> 'fa) res" where
  "map_remaining I frame = (\<lambda>(pt, fa).
     expect_ok ''called `Result::unwrap()` on an `Err` value'' (I frame {PRESENT, WRITABLE} pt fa))"

text \<open>\<open>N\<close> is an empty page table; its frame is cleared.\<close>

definition create_page_tables ::
    "x86 \<Rightarrow> 'd region_trait \<Rightarrow> 'pt \<Rightarrow> 'pt \<Rightarrow> 'd legacy_frame_allocator \<Rightarrow> memory \<Rightarrow>
     ('pt, 'd legacy_frame_allocator, 'r) boot_state res" where
  "create_page_tables X T N bootloader_page_table fa ram =
     bindR (allocate_frame X T fa) (\<lambda>(frame, fa).
     bindR (expect_some ''no unused frames'' frame) (\<lambda>frame.
       Ok \<lparr>bootloader_table = bootloader_page_table, kernel_table = N, kernel_level_4_frame = frame,
           s_allocator = fa, s_memory = fill_bytes ram frame 0 4096, s_used = \<lparr>entry_state = [], rng = None\<rparr>,
           efer_nxe = False, cr0_wp = False, loaded_gdt = None\<rparr>))"

fun convert_pixel_format :: "bios_pixel_format \<Rightarrow> Boot_Info.pixel_format" where
  "convert_pixel_format BiosRgb = Rgb"
| "convert_pixel_format BiosBgr = Bgr"
| "convert_pixel_format (BiosUnknown r g b) = pixel_format.Unknown r g b"

definition framebuffer_info_of :: "bios_framebuffer_info \<Rightarrow> frame_buffer_info" where
  "framebuffer_info_of info = \<lparr>
     byte_len = range_len (bf_region info),
     width = bf_width info,
     height = bf_height info,
     pixel_format = convert_pixel_format (bf_pixel_format info),
     bytes_per_pixel = bf_bytes_per_pixel info,
     stride = bf_stride info\<rparr>"

definition system_info_of :: "x86 \<Rightarrow> (memory \<Rightarrow> nat option) \<Rightarrow> bios_info \<Rightarrow> memory \<Rightarrow> system_info res" where
  "system_info_of X rsdp info ram =
     bindR (phys_new X (range_start (bf_region (info_framebuffer info)))) (\<lambda>addr.
     bindR (case rsdp ram of None \<Rightarrow> Ok None | Some a \<Rightarrow> bindR (phys_new X a) (\<lambda>a. Ok (Some a))) (\<lambda>rsdp_addr.
       Ok \<lparr>si_framebuffer = Some \<lparr>raw_addr = addr, raw_info = framebuffer_info_of (info_framebuffer info)\<rparr>,
           si_rsdp_addr = rsdp_addr,
           si_ramdisk_addr = (if range_len (info_ramdisk info) = 0 then None else Some (range_start (info_ramdisk info))),
           si_ramdisk_len = range_len (info_ramdisk info)\<rparr>))"

text \<open>
  Everything up to the call of \<open>load_and_switch_to_kernel\<close>: the kernel, the configuration, the system
  information and the state.  \<open>elf_new\<close> and \<open>sections\<close> are those of \<open>parse\<close>.
\<close>

definition stage_4_prepare ::
    "x86 \<Rightarrow> ('pt, e820_memory_region legacy_frame_allocator) paging \<Rightarrow>
     (nat \<Rightarrow> flag set \<Rightarrow> 'pt \<Rightarrow> e820_memory_region legacy_frame_allocator \<Rightarrow>
       ('pt \<times> e820_memory_region legacy_frame_allocator) res) \<Rightarrow>
     'pt \<Rightarrow> (u8 list \<Rightarrow> elf_file res) \<Rightarrow> (elf_file \<Rightarrow> string \<Rightarrow> u8 list option) \<Rightarrow> (u8 list \<Rightarrow> boot_config option) \<Rightarrow>
     (memory \<Rightarrow> nat option) \<Rightarrow> bios_info \<Rightarrow> e820_memory_region list \<Rightarrow> 'pt \<Rightarrow> memory \<Rightarrow>
     (kernel \<times> boot_config \<times> system_info \<times> ('pt, e820_memory_region legacy_frame_allocator, 'r) boot_state) res" where
  "stage_4_prepare X P I N elf_new sections J rsdp info regions bootloader_page_table ram =
     (let regions = sort_key e820_start_addr regions; T = bios_region X in
      bindR (bootloader_max_phys_addr regions) (\<lambda>max_phys.
      bindR (assertR ''kernel start address must be set'' (range_start (info_kernel info) \<noteq> 0)) (\<lambda>_.
      bindR (phys_new X (range_start (info_kernel info))) (\<lambda>kernel_start.
      bindR (phys_new X (last_used_addr info)) (\<lambda>last_used.
      bindR (frame_add X (frame_containing X last_used) 1) (\<lambda>next_free_frame.
      let frame_allocator = new_starting_at next_free_frame regions in
      bindR (sub_w max_phys 1) (\<lambda>last.
      bindR (phys_new X last) (\<lambda>last.
      bindR (foldR (map_remaining I) (remaining_frames P last) (bootloader_page_table, frame_allocator))
        (\<lambda>(bootloader_page_table, frame_allocator).
      bindR (create_page_tables X T N bootloader_page_table frame_allocator ram) (\<lambda>s.
      let kernel_slice = read_bytes (s_memory s) kernel_start (range_len (info_kernel info)) in
      bindR (parse elf_new sections kernel_start kernel_slice) (\<lambda>kernel.
      let config_file_slice = (if range_len (info_config_file info) \<noteq> 0
            then Some (read_bytes (s_memory s) (range_start (info_config_file info)) (range_len (info_config_file info)))
            else None);
          config = load_boot_config J (kernel_config kernel) config_file_slice
      in
      bindR (system_info_of X rsdp info (s_memory s)) (\<lambda>system_info.
        Ok (kernel, config, system_info, s)))))))))))))"

definition stage_4_start ::
    "x86 \<Rightarrow> ('pt, e820_memory_region legacy_frame_allocator) mapper \<Rightarrow>
     ('pt, e820_memory_region legacy_frame_allocator) paging \<Rightarrow>
     (nat \<Rightarrow> flag set \<Rightarrow> 'pt \<Rightarrow> e820_memory_region legacy_frame_allocator \<Rightarrow>
       ('pt \<times> e820_memory_region legacy_frame_allocator) res) \<Rightarrow>
     'pt \<Rightarrow> 'r rng_ops \<Rightarrow> (u8 list \<Rightarrow> rela) \<Rightarrow> type_layouts \<Rightarrow> 'r \<Rightarrow> nat \<Rightarrow> api_version \<Rightarrow>
     (u8 list \<Rightarrow> elf_file res) \<Rightarrow> (elf_file \<Rightarrow> string \<Rightarrow> u8 list option) \<Rightarrow> (u8 list \<Rightarrow> boot_config option) \<Rightarrow>
     (memory \<Rightarrow> nat option) \<Rightarrow> bios_info \<Rightarrow> e820_memory_region list \<Rightarrow> 'pt \<Rightarrow> memory \<Rightarrow>
     (registers \<times> boot_info \<times> kernel_mappings \<times> ('pt, e820_memory_region legacy_frame_allocator, 'r) boot_state) res" where
  "stage_4_start X M P I N R D L build_rng cs v elf_new sections J rsdp info regions bootloader_page_table ram =
     bindR (stage_4_prepare X P I N elf_new sections J rsdp info regions bootloader_page_table ram)
       (\<lambda>(kernel, config, system_info, s).
       load_and_switch_to_kernel X (bios_region X) M P R D L build_rng cs v kernel (bc_test_sentinel config) system_info s)"

subsection \<open>Specification vocabulary\<close>

text \<open>The allocator during a BIOS boot: it works through the map \<open>m0\<close> from the frame \<open>n\<close> on.\<close>

definition boot_alloc_from :: "'d region_trait \<Rightarrow> 'd list \<Rightarrow> nat \<Rightarrow> 'd legacy_frame_allocator \<Rightarrow> bool" where
  "boot_alloc_from T m0 n fa \<longleftrightarrow> boot_alloc T m0 fa \<and> n \<le> next_frame fa"

text \<open>The frames of what stage 2 has used.\<close>

definition first_free :: "bios_info \<Rightarrow> nat" where
  "first_free info = (last_used_addr info div 4096 + 1) * 4096"

definition used_frames :: "bios_info \<Rightarrow> nat set" where
  "used_frames info = {f. f \<le> last_used_addr info}"

section \<open>Lemmas\<close>

context memory_region_impl
begin

lemma boot_alloc_from_source: "frame_source (allocate_frame X T) (boot_alloc_from T m0 n) (free_frames T)"
proof unfold_locales
  fix fa r fa'
  assume b: "boot_alloc_from T m0 n fa" and ok: "allocate_frame X T fa = Ok (r, fa')"
  then have "boot_alloc T m0 fa" "n \<le> next_frame fa" by (simp_all add: boot_alloc_from_def)
  moreover from this have out: "outcome T (original fa) fa r fa'" using allocate_frame_outcome[OF ok] by (simp add: boot_alloc_def)
  then have "next_frame fa \<le> next_frame fa'" by (cases r) (auto simp: outcome_def free_frames_def)
  ultimately show "boot_alloc_from T m0 n fa'"
    using boot.alloc_inv[OF _ ok, of m0] by (simp add: boot_alloc_from_def)
next
  fix fa f fa'
  assume "boot_alloc_from T m0 n fa" "allocate_frame X T fa = Ok (Some f, fa')"
  then show "f \<in> free_frames T fa \<and> free_frames T fa' \<subseteq> free_frames T fa - {f}"
    using boot.alloc_some[of m0 fa f fa'] by (simp add: boot_alloc_from_def)
next
  fix fa fa'
  assume "boot_alloc_from T m0 n fa" "allocate_frame X T fa = Ok (None, fa')"
  then show "free_frames T fa' \<subseteq> free_frames T fa"
    using boot.alloc_none[of m0 fa fa'] by (simp add: boot_alloc_from_def)
qed (rule free_frames_aligned)

end

context kernel_setup
begin

text \<open>A boot changes no byte of a frame that is not free.\<close>

lemma start_memory:
  assumes ok: "load_and_switch_to_kernel X T M P R D L r cs v k sentinel info s = Ok (regs, bi, m, s')"
    and inv: "inv (s_allocator s)" and rng: "rng_ok R" and low: "free (s_allocator s) \<subseteq> {f. f < 2 ^ 47}"
    and fixed: "\<forall>fa. inv fa \<longrightarrow> max_phys_addr X T fa = Ok mp \<and> frame_allocator_len fa = n"
    and fits: "boot_fits k info L n mp" and st: "static_kernel view free F (elf k) s" and a: "in_frames F a"
  shows "s_memory s' a = s_memory s a"
proof (rule load_and_switch_spec[OF ok inv rng low fixed fits])
  fix sm
  assume sm: "set_up_mappings X T M P R D L r cs k (si_framebuffer info) (kernel_config k) info s = Ok (m, sm)"
    and last: "setup_step inv free view sm s'"
  have mp: "\<forall>fa. inv fa \<longrightarrow> max_phys_addr X T fa = Ok mp" using fixed by blast
  have lf: "layout_fits k (si_framebuffer info) info mp" using fits by (simp add: boot_fits_def)
  have nf: "\<not> in_frames (free fa) a" if "free fa \<subseteq> free (s_allocator s)" for fa
    using that st a by (auto simp: static_kernel_def in_frames_def)
  show ?thesis
  proof (rule set_up_mappings_spec[OF sm inv rng low mp lf])
    fix s1 s2 off entry tls i u0 u1
    assume lk: "load_kernel X M (allocate_frame X T) R D (elf k) (kernel_table s) (s_allocator s) (s_memory s) u0 =
        Ok (off, entry, tls, i, u1)"
      and s1: "s1 = s\<lparr>efer_nxe := True, cr0_wp := True, kernel_table := page_table i, s_allocator := frame_allocator i,
        s_memory := mem i, s_used := u1\<rparr>"
      and free1: "free (s_allocator s1) \<subseteq> free (s_allocator s)"
      and steps: "setup_step inv free view s1 s2" "setup_step inv free view s2 sm"
    have "s_memory s1 a = s_memory s a" using load_kernel_keeps[OF lk inv st a] by (simp add: s1)
    moreover have "free (s_allocator s2) \<subseteq> free (s_allocator s)" "free (s_allocator sm) \<subseteq> free (s_allocator s)"
      using free1 steps by (auto simp: setup_step_def)
    ultimately show ?thesis using steps last nf free1 by (metis setup_step_def)
  qed
qed

text \<open>Nothing remains to be mapped above 10 GiB, since only 4 GiB are considered.\<close>

lemma remaining_frames_empty:
  "bootloader_max_phys_addr ds = Ok mx \<Longrightarrow> remaining_frames P (mx - 1) = []"
  by (auto simp: bootloader_max_phys_addr_def remaining_frames_def containing_2mib GIGABYTE_def res_simps Let_def)

end

text \<open>What the preparation leaves.\<close>

lemma stage_4_prepare_state:
  assumes ks: "kernel_setup X (bios_region X) ainv free M view P huge_view"
    and ok: "stage_4_prepare X P I N elf_new sections J rsdp info regions bt ram = Ok (k, config, si, s)"
  obtains frame where
    "allocate_frame X (bios_region X) (new_starting_at (first_free info) (sort_key e820_start_addr regions)) =
       Ok (Some frame, s_allocator s)"
    and "s_memory s = fill_bytes ram frame 0 4096"
proof -
  have x: "x86_64 X" using ks by (rule kernel_setup.axioms(1))
  from ok obtain mx lu nf bt' fa where
    mx: "bootloader_max_phys_addr (sort_key e820_start_addr regions) = Ok mx"
    and lu: "phys_new X (last_used_addr info) = Ok lu" "frame_add X (frame_containing X lu) 1 = Ok nf"
    and l: "\<exists>l. phys_new X (mx - 1) = Ok l \<and> foldR (map_remaining I) (remaining_frames P l)
      (bt, new_starting_at nf (sort_key e820_start_addr regions)) = Ok (bt', fa)"
    and c: "create_page_tables X (bios_region X) N bt' fa ram = Ok s"
    by (auto simp: stage_4_prepare_def res_simps Let_def)
  from l have e: "fa = new_starting_at nf (sort_key e820_start_addr regions)"
    using kernel_setup.remaining_frames_empty[OF ks mx] by (auto simp: x86_64.phys_new[OF x] split: if_splits)
  have "nf = first_free info"
    using lu by (auto simp: first_free_def x86_64.phys_new[OF x] x86_64.frame_containing[OF x] x86_64.frame_add[OF x] split: if_splits)
  with c e that show thesis by (auto simp: create_page_tables_def res_simps)
qed

section \<open>Properties\<close>


text \<open>The example boot, from what stage 2 could have left.\<close>

definition example_bios_info :: bios_info where
  "example_bios_info = \<lparr>
     info_stage_4 = \<lparr>range_start = STAGE_4_DST, range_len = 0x1000\<rparr>,
     info_kernel = \<lparr>range_start = 0x300000, range_len = 0x3000\<rparr>,
     info_ramdisk = \<lparr>range_start = 0x400000, range_len = 0x1800\<rparr>,
     info_config_file = \<lparr>range_start = 0x401800, range_len = 0\<rparr>,
     last_used_addr = 0x4017ff,
     info_framebuffer = \<lparr>bf_region = \<lparr>range_start = 0xfd000000, range_len = 0x1000\<rparr>, bf_width = 32, bf_height = 32,
       bf_bytes_per_pixel = 4, bf_stride = 32, bf_pixel_format = BiosBgr\<rparr>,
     memory_map_addr = 0xF000,
     memory_map_len = 1\<rparr>"

definition bios_map :: "e820_memory_region list" where
  "bios_map = [\<lparr>e820_start_addr = 0x100000, e820_len = 0x500000, region_type = 1, acpi_extended_attributes = 1\<rparr>]"

definition empty_table :: page_table_state where
  "empty_table = \<lparr>entries = Map.empty, tables = [], huge = Map.empty, level_4 = Map.empty\<rparr>"

definition bios_ram :: memory where "bios_ram a = word_of_nat (a mod 251 + 1)"

definition bios_state :: "(page_table_state, e820_memory_region legacy_frame_allocator, nat) boot_state" where
  "bios_state = \<lparr>bootloader_table = empty_table, kernel_table = empty_table, kernel_level_4_frame = 0x402000,
     s_allocator = \<lparr>original = bios_map, memory_map = [], current_descriptor = Some (hd bios_map), next_frame = 0x403000\<rparr>,
     s_memory = fill_bytes bios_ram 0x402000 0 4096, s_used = \<lparr>entry_state = [], rng = None\<rparr>,
     efer_nxe = False, cr0_wp = False, loaded_gdt = None\<rparr>"

lemma bios_prepare:
  "stage_4_prepare x86_ref table_paging (\<lambda>_ _ pt fa. Ok (pt, fa)) empty_table (\<lambda>_. Ok (elf entry_kernel))
     (\<lambda>_ _. Some (serialize entry_config)) (\<lambda>_. None) (\<lambda>_. None) example_bios_info bios_map empty_table bios_ram =
   Ok (entry_kernel, load_boot_config (\<lambda>_. None) entry_config None, entry_info, bios_state)"
proof -
  have "length (serialize entry_config) = SERIALIZED_LEN" by (rule length_serialize)
  then have d: "deserialize (serialize entry_config) = Ok entry_config" by (simp add: serialize_layout deserialize_def)
  have p: "parse (\<lambda>_. Ok (elf entry_kernel)) (\<lambda>_ _. Some (serialize entry_config)) 0x300000 bs = Ok entry_kernel"
    if "length bs = 0x3000" for bs
    using that d by (simp add: parse_def entry_kernel_def)
  have m: "sort_key e820_start_addr bios_map = bios_map" "bootloader_max_phys_addr bios_map = Ok 0x600000"
    by (simp_all add: bios_map_def bootloader_max_phys_addr_def add_w_def GIGABYTE_def)
  have r: "remaining_frames (table_paging :: (page_table_state, e820_memory_region legacy_frame_allocator) paging) 0x5fffff = []"
    by (simp add: remaining_frames_def table_paging_def GIGABYTE_def)
  have c: "create_page_tables x86_ref (bios_region x86_ref) empty_table empty_table (new_starting_at 0x402000 bios_map) bios_ram = Ok bios_state"
    by (simp add: create_page_tables_def allocate_frame_def allocate_frame_from_descriptor_def new_starting_at_def bios_map_def
        bios_state_def x86_ref_sel bios_region_sel)
  have i: "system_info_of x86_ref (\<lambda>_. None) example_bios_info (s_memory bios_state) = Ok entry_info"
    by (simp add: system_info_of_def framebuffer_info_of_def example_bios_info_def entry_info_def x86_ref_sel)
  have k: "kernel_config entry_kernel = entry_config" by (simp add: entry_kernel_def)
  show ?thesis
    unfolding stage_4_prepare_def m Let_def bindR.simps
    using p c i r k by (simp add: example_bios_info_def x86_ref_sel sub_w_def)
qed

lemma bios_run:
  obtains regs bi m s' where
    "load_and_switch_to_kernel x86_ref (bios_region x86_ref) table_mapper table_paging counter_rng
       (\<lambda>_. example_rela) example_layouts 0 0x180000 (version entry_config) entry_kernel 0 entry_info bios_state = Ok (regs, bi, m, s')"
proof -
  obtain u where u: "used_entries_new x86_ref example_layouts (0 :: nat) 0x600000 1 (si_framebuffer entry_info) entry_config = Ok u"
    by (simp add: setup_run x86_ref_def entry_info_def layout_array_def layout_extend_def example_layouts_def add_w_def Let_def)
  have a: "max_phys_addr x86_ref (bios_region x86_ref) (s_allocator bios_state) = Ok 0x600000"
    "frame_allocator_len (s_allocator bios_state) = 1"
    by (simp_all add: bios_state_def max_phys_addr_def bios_map_def x86_ref_sel bios_region_sel frame_allocator_len_def)
  have k: "kernel_config entry_kernel = entry_config" by (simp add: entry_kernel_def)
  have "is_ok (load_and_switch_to_kernel x86_ref (bios_region x86_ref) table_mapper table_paging counter_rng
       (\<lambda>_. example_rela) example_layouts 0 0x180000 (version entry_config) entry_kernel 0 entry_info bios_state)"
    apply (simp add: load_and_switch_to_kernel_def set_up_mappings_def k a u[unfolded One_nat_def] Let_def)
    apply (simp add: boot_run entry_kernel_def bios_state_def bios_map_def empty_table_def)
    apply (simp add: entry_info_def entry_config_def config_new_default_def mappings_new_default_def boot_run sub_w_def)
    apply (simp add: create_boot_info_def map_boot_info_def map_boot_info_page_def layout_array_def layout_extend_def
      example_layouts_def frame_allocator_len_def boot_run construct_memory_map_def construct_region_def
      classify_descriptor_def add_around_kernel_def add_region_def bios_region_def bios_kind_def boot_info_new_def)
    done
  then show thesis using that by (auto simp: is_ok_iff)
qed

lemma bios_ready: "boot_ready x86_ref (bios_region x86_ref) bios_map counter_rng example_layouts entry_kernel entry_info bios_state 0x600000"
proof -
  have "allocator_inv (bios_region x86_ref) (s_allocator bios_state)"
    by (simp add: allocator_inv_def bios_state_def bios_map_def bios_region_def bios_kind_def)
  moreover have "max_phys_addr x86_ref (bios_region x86_ref) (s_allocator bios_state) = Ok 0x600000"
    by (simp add: bios_state_def max_phys_addr_def bios_map_def x86_ref_sel bios_region_sel)
  moreover have "free_frames (bios_region x86_ref) (s_allocator bios_state) \<subseteq> {f. f < 2 ^ 47}"
    by (auto simp: free_frames_def usable_frames_def d_frames_def d_end_def d_start_def bios_state_def bios_map_def bios_region_sel)
  moreover have "boot_fits entry_kernel entry_info example_layouts (length bios_map) 0x600000"
    by (simp add: boot_fits_def layout_fits_def Kernel_Start.placed_def same_half_def canonical_def entry_kernel_def entry_config_def
        config_new_default_def mappings_new_default_def entry_info_def boot_info_bytes_def layout_array_def
        layout_extend_def example_layouts_def bios_map_def)
  ultimately show ?thesis
    using rng_ok_counter by (simp add: boot_ready_def boot_alloc_def bios_state_def)
qed

lemma bios_static:
  "static_kernel entries (free_frames (bios_region x86_ref)) (used_frames example_bios_info) (elf entry_kernel) bios_state"
proof -
  have "frames_of 0x301ff8 0x10 = {0x301000, 0x302000}" by (auto simp: frames_of_def elim!: dvdE)
  then have "loadable (used_frames example_bios_info) (kernel_inner (elf entry_kernel) bios_state) example_load"
    by (simp add: loadable_def kernel_inner_def entry_kernel_def example_load_def same_half_def vao_zero_def used_frames_def
        example_bios_info_def)
  moreover have "used_frames example_bios_info \<inter> free_frames (bios_region x86_ref) (s_allocator bios_state) = {}"
    by (auto simp: used_frames_def example_bios_info_def free_frames_def bios_state_def)
  moreover have "get_type example_load = Ok Load" "get_type example_relro = Ok GnuRelro"
    by (simp_all add: example_load_def example_relro_def)
  ultimately show ?thesis using example_relro_inside
    by (simp add: static_kernel_def entry_kernel_def bios_state_def empty_table_def example_inner_def)
qed


end
