(* ===== verification/Uefi.thy ===== *)
theory Uefi
  imports Stage_4
begin

text \<open>
  The UEFI bootloader (\<^verbatim>\<open>src/uefi/src/main.rs\<close>): it loads the kernel, the configuration file and the
  ramdisk from the boot volume or, failing that, from a TFTP server into pages of the firmware, sets
  up the framebuffer, leaves the boot services and starts the kernel.  The firmware is a parameter: its
  protocols, files, page allocator and tables.  The locale \<open>uefi_pages\<close> states that it hands out
  pages that nobody uses.  Logging and the panic handler are not modelled.
\<close>

section \<open>Definitions\<close>

subsection \<open>The firmware\<close>

datatype boot_mode = Disk | Tftp

datatype protocol = SimpleFileSystem | BaseCode

text \<open>The result of \<open>open\<close>, \<open>into_type\<close> and \<open>get_info\<close>: the size of a regular file and what a read
  of \<open>n\<close> bytes from its start gives.\<close>

datatype uefi_file = OpenFailed | Directory | Regular nat "nat \<Rightarrow> u8 list option"

record 'a uefi =
  loaded_image_device :: "nat \<Rightarrow> nat option"
  open_device_path :: "nat \<Rightarrow> nat option"
  locate_device_path :: "protocol \<Rightarrow> nat \<Rightarrow> nat option"
  open_protocol :: "protocol \<Rightarrow> nat \<Rightarrow> nat option"
  open_volume :: "nat \<Rightarrow> (string \<Rightarrow> uefi_file) option"
  dhcp_server :: "nat \<Rightarrow> nat option"                           \<comment> \<open>the server of the acknowledgement\<close>
  tftp_get_file_size :: "nat \<Rightarrow> nat \<Rightarrow> string \<Rightarrow> nat option"
  tftp_read_file :: "nat \<Rightarrow> nat \<Rightarrow> string \<Rightarrow> nat \<Rightarrow> u8 list option"
  allocate_pages :: "nat \<Rightarrow> 'a \<Rightarrow> (nat \<times> 'a) option"

subsection \<open>Opening protocols\<close>

definition open_device_path_protocol :: "'a uefi \<Rightarrow> nat \<Rightarrow> nat option" where
  "open_device_path_protocol U img = Option.bind (loaded_image_device U img) (open_device_path U)"

definition locate_and_open_protocol :: "'a uefi \<Rightarrow> protocol \<Rightarrow> nat \<Rightarrow> nat option" where
  "locate_and_open_protocol U p img =
     Option.bind (open_device_path_protocol U img) (\<lambda>device_path.
     Option.bind (locate_device_path U p device_path) (open_protocol U p))"

subsection \<open>Loading files\<close>

type_synonym 'a uefi_state = "memory \<times> 'a"

definition unwrap_msg :: string where "unwrap_msg = ''called unwrap() on an Err value''"

text \<open>\<open>trim_end_matches\<close> of the terminator.\<close>

definition trim_nul :: "string \<Rightarrow> string" where
  "trim_nul name = rev (dropWhile (\<lambda>c. c = CHR 0x00) (rev name))"

definition load_file_from_disk ::
    "'a uefi \<Rightarrow> string \<Rightarrow> nat \<Rightarrow> 'a uefi_state \<Rightarrow> ((nat \<times> nat) option \<times> 'a uefi_state) res" where
  "load_file_from_disk U name img = (\<lambda>(ram, a).
     case locate_and_open_protocol U SimpleFileSystem img of
       None \<Rightarrow> Ok (None, ram, a)
     | Some file_system \<Rightarrow>
         bindR (expect_some unwrap_msg (open_volume U file_system)) (\<lambda>root.
         bindR (assertR ''assertion failed: name.len() < 256'' (length name < 256)) (\<lambda>_.
         case root (trim_nul name) of
           OpenFailed \<Rightarrow> Ok (None, ram, a)
         | Directory \<Rightarrow> Panic (Explicit ''explicit panic'')
         | Regular flen rd \<Rightarrow>
             bindR (bindR (sub_w flen 1) (\<lambda>l. Ok (l div 4096 + 1))) (\<lambda>pages.
             bindR (expect_some unwrap_msg (allocate_pages U pages a)) (\<lambda>(file_ptr, a).
             let ram = fill_bytes ram file_ptr 0 flen in
             bindR (expect_some unwrap_msg (rd flen)) (\<lambda>bytes.
               Ok (Some (file_ptr, flen), write_slice ram file_ptr bytes, a)))))))"

text \<open>\<open>CStr8::from_bytes_with_nul\<close>.\<close>

definition cstr8 :: "string \<Rightarrow> string res" where
  "cstr8 name = (if name \<noteq> '''' \<and> last name = CHR 0x00 \<and> CHR 0x00 \<notin> set (butlast name) then Ok (butlast name)
     else Panic (Explicit unwrap_msg))"

definition load_file_from_tftp_boot_server ::
    "'a uefi \<Rightarrow> string \<Rightarrow> nat \<Rightarrow> 'a uefi_state \<Rightarrow> ((nat \<times> nat) option \<times> 'a uefi_state) res" where
  "load_file_from_tftp_boot_server U name img = (\<lambda>(ram, a).
     case locate_and_open_protocol U BaseCode img of
       None \<Rightarrow> Ok (None, ram, a)
     | Some base_code \<Rightarrow>
         bindR (expect_some ''assertion failed: mode.dhcp_ack_received'' (dhcp_server U base_code)) (\<lambda>server_ip.
         bindR (assertR ''assertion failed: name.len() < 256'' (length name < 256)) (\<lambda>_.
         bindR (cstr8 name) (\<lambda>filename.
         case tftp_get_file_size U base_code server_ip filename of
           None \<Rightarrow> Ok (None, ram, a)
         | Some kernel_size \<Rightarrow>
             bindR (bindR (sub_w kernel_size 1) (\<lambda>l. Ok (l div 4096 + 1))) (\<lambda>pages.
             bindR (expect_some ''Failed to allocate memory for the file'' (allocate_pages U pages a)) (\<lambda>(ptr, a).
             bindR (expect_some ''Failed to read kernel file from the TFTP boot server''
               (tftp_read_file U base_code server_ip filename kernel_size)) (\<lambda>bytes.
               Ok (Some (ptr, kernel_size), write_slice ram ptr bytes, a))))))))"

definition load_file_from_boot_method ::
    "'a uefi \<Rightarrow> nat \<Rightarrow> string \<Rightarrow> boot_mode \<Rightarrow> 'a uefi_state \<Rightarrow> ((nat \<times> nat) option \<times> 'a uefi_state) res" where
  "load_file_from_boot_method U img filename mode =
     (case mode of Disk \<Rightarrow> load_file_from_disk U filename img | Tftp \<Rightarrow> load_file_from_tftp_boot_server U filename img)"

definition load_ramdisk where
  "load_ramdisk U img mode = load_file_from_boot_method U img (''ramdisk'' @ [CHR 0x00]) mode"

definition load_config_file where
  "load_config_file U img mode = load_file_from_boot_method U img (''boot.json'' @ [CHR 0x00]) mode"

text \<open>\<open>elf_new\<close> and \<open>sections\<close> are those of \<open>parse\<close>.\<close>

definition uefi_load_kernel ::
    "'a uefi \<Rightarrow> (u8 list \<Rightarrow> elf_file res) \<Rightarrow> (elf_file \<Rightarrow> string \<Rightarrow> u8 list option) \<Rightarrow> nat \<Rightarrow> boot_mode \<Rightarrow> 'a uefi_state \<Rightarrow>
     (kernel option \<times> 'a uefi_state) res" where
  "uefi_load_kernel U elf_new sections img mode st =
     bindR (load_file_from_boot_method U img (''kernel-x86_64'' @ [CHR 0x00]) mode st) (\<lambda>(file, ram, a).
       case file of
         None \<Rightarrow> Ok (None, ram, a)
       | Some (addr, len) \<Rightarrow> bindR (parse elf_new sections addr (read_bytes ram addr len)) (\<lambda>kernel. Ok (Some kernel, ram, a)))"

subsection \<open>The framebuffer\<close>

datatype gop_pixel_format = GopRgb | GopBgr | GopBitmask | GopBltOnly

record gop_mode =
  gop_width :: nat
  gop_height :: nat
  gop_format :: gop_pixel_format
  gop_stride :: nat

text \<open>The graphics output protocol: its modes, the current one, and the buffer of each.\<close>

record gop =
  gop_modes :: "gop_mode list"
  current_mode_info :: gop_mode
  set_mode :: "gop_mode \<Rightarrow> bool"
  gop_buffer :: "gop_mode \<Rightarrow> nat \<times> nat"

definition last_option :: "'x list \<Rightarrow> 'x option" where
  "last_option xs = (if xs = [] then None else Some (last xs))"

definition wanted_mode :: "boot_frame_buffer \<Rightarrow> gop_mode list \<Rightarrow> gop_mode option" where
  "wanted_mode fb modes =
     (case (bfb_minimum_framebuffer_height fb, bfb_minimum_framebuffer_width fb) of
        (Some h, Some w) \<Rightarrow> last_option (filter (\<lambda>m. gop_height m \<ge> h \<and> gop_width m \<ge> w) modes)
      | (Some h, None) \<Rightarrow> last_option (filter (\<lambda>m. gop_height m \<ge> h) modes)
      | (None, Some w) \<Rightarrow> last_option (filter (\<lambda>m. gop_width m \<ge> w) modes)
      | (None, None) \<Rightarrow> None)"

fun gop_convert :: "gop_pixel_format \<Rightarrow> Boot_Info.pixel_format res" where
  "gop_convert GopRgb = Ok Rgb"
| "gop_convert GopBgr = Ok Bgr"
| "gop_convert GopBitmask = Panic (Explicit ''Bitmask and BltOnly framebuffers are not supported'')"
| "gop_convert GopBltOnly = Panic (Explicit ''Bitmask and BltOnly framebuffers are not supported'')"

text \<open>\<open>None\<close> for the protocol: it does not exist or cannot be opened.\<close>

definition uefi_init_logger :: "x86 \<Rightarrow> gop option \<Rightarrow> boot_config \<Rightarrow> raw_frame_buffer_info option res" where
  "uefi_init_logger X gop_handle config =
     (case gop_handle of
        None \<Rightarrow> Ok None
      | Some g \<Rightarrow>
          bindR (case wanted_mode (bc_frame_buffer config) (gop_modes g) of
                   None \<Rightarrow> Ok (current_mode_info g)
                 | Some m \<Rightarrow> if set_mode g m then Ok m else Panic (Explicit ''Failed to apply the desired display mode'')) (\<lambda>mode_info.
          let (addr, buffer_size) = gop_buffer g mode_info in
          bindR (gop_convert (gop_format mode_info)) (\<lambda>fmt.
          bindR (phys_new X addr) (\<lambda>phys.
            Ok (Some \<lparr>raw_addr = phys, raw_info = \<lparr>byte_len = buffer_size, width = gop_width mode_info, height = gop_height mode_info,
              pixel_format = fmt, bytes_per_pixel = 4, stride = gop_stride mode_info\<rparr>\<rparr>)))))"

subsection \<open>Leaving the boot services\<close>

datatype table_guid = ACPI2_GUID | ACPI_GUID | OtherGuid nat

text \<open>\<open>Iterator::find\<close> also advances the iterator behind the element it finds.\<close>

fun iter_find :: "('x \<Rightarrow> bool) \<Rightarrow> 'x list \<Rightarrow> 'x option \<times> 'x list" where
  "iter_find P [] = (None, [])"
| "iter_find P (x # xs) = (if P x then (Some x, xs) else iter_find P xs)"

definition find_rsdp :: "(table_guid \<times> nat) list \<Rightarrow> nat option" where
  "find_rsdp config_table =
     (let (acpi2_rsdp, config_entries) = iter_find (\<lambda>e. fst e = ACPI2_GUID) config_table;
          rsdp = (case acpi2_rsdp of Some e \<Rightarrow> Some e | None \<Rightarrow> fst (iter_find (\<lambda>e. fst e = ACPI_GUID) config_entries))
      in map_option snd rsdp)"

text \<open>\<open>view\<close> is \<open>OffsetPageTable::new\<close> on the table in a frame; \<open>active_table\<close> is the active level 4 table.\<close>

definition uefi_create_page_tables ::
    "x86 \<Rightarrow> 'd region_trait \<Rightarrow> (memory \<Rightarrow> nat \<Rightarrow> 'pt) \<Rightarrow> 'pt \<Rightarrow> nat \<Rightarrow> 'd legacy_frame_allocator \<Rightarrow> memory \<Rightarrow>
     ('pt, 'd legacy_frame_allocator, 'r) boot_state res" where
  "uefi_create_page_tables X T view N active_table fa ram =
     bindR (allocate_frame X T fa) (\<lambda>(new_frame, fa).
     bindR (expect_some ''Failed to allocate frame for new level 4 table'' new_frame) (\<lambda>new_frame.
     let ram = fill_bytes ram new_frame 0 4096;
         ram = write_slice ram new_frame (read_bytes ram active_table 8)
     in
     create_page_tables X T N (view ram new_frame) fa ram))"

record uefi_exit =
  exit_memory_map :: "uefi_memory_descriptor list"
  exit_config_table :: "(table_guid \<times> nat) list"

subsection \<open>The main function\<close>

text \<open>The part up to the end of the boot services: the kernel, the configuration, the framebuffer and the ramdisk.\<close>

definition uefi_load ::
    "x86 \<Rightarrow> 'a uefi \<Rightarrow> (u8 list \<Rightarrow> elf_file res) \<Rightarrow> (elf_file \<Rightarrow> string \<Rightarrow> u8 list option) \<Rightarrow> (u8 list \<Rightarrow> boot_config option) \<Rightarrow> gop option \<Rightarrow> nat \<Rightarrow> 'a uefi_state \<Rightarrow>
     (kernel \<times> boot_config \<times> raw_frame_buffer_info option \<times> (nat \<times> nat) option \<times> 'a uefi_state) res" where
  "uefi_load X U elf_new sections J g img st =
     bindR (uefi_load_kernel U elf_new sections img Disk st) (\<lambda>(kernel, st).
     bindR (case kernel of Some k \<Rightarrow> Ok (Disk, Some k, st)
            | None \<Rightarrow> bindR (uefi_load_kernel U elf_new sections img Tftp st) (\<lambda>(kernel, st). Ok (Tftp, kernel, st))) (\<lambda>(mode, kernel, st).
     bindR (expect_some ''Failed to load kernel'' kernel) (\<lambda>kernel.
     bindR (load_config_file U img mode st) (\<lambda>(config_file, ram, a).
     let config = load_boot_config J (kernel_config kernel) (map_option (\<lambda>(addr, len). read_bytes ram addr len) config_file) in
     bindR (uefi_init_logger X g config) (\<lambda>framebuffer.
     bindR (load_ramdisk U img mode (ram, a)) (\<lambda>(ramdisk, st).
       Ok (kernel, config, framebuffer, ramdisk, st)))))))"

definition uefi_main_inner where
  "uefi_main_inner X tag M P R D L build_rng cs v view N active_table U elf_new sections J g exit_boot_services img st =
     bindR (uefi_load X U elf_new sections J g img st) (\<lambda>(kernel, config, framebuffer, ramdisk, ram, a).
     let ex = exit_boot_services a;
         memory_map = sort_key phys_start (exit_memory_map ex);
         T = uefi_region X tag
     in
     bindR (frame_allocator_new X memory_map) (\<lambda>frame_allocator.
     bindR (uefi_create_page_tables X T view N active_table frame_allocator ram) (\<lambda>s.
     bindR (case find_rsdp (exit_config_table ex) of None \<Rightarrow> Ok None | Some r \<Rightarrow> bindR (phys_new X r) (\<lambda>r. Ok (Some r))) (\<lambda>rsdp.
     let system_info = \<lparr>si_framebuffer = framebuffer, si_rsdp_addr = rsdp, si_ramdisk_addr = map_option fst ramdisk,
           si_ramdisk_len = (case ramdisk of Some (_, len) \<Rightarrow> len | None \<Rightarrow> 0)\<rparr>
     in
     load_and_switch_to_kernel X T M P R D L build_rng cs v kernel (bc_test_sentinel config) system_info s))))"

section \<open>The contract of the firmware\<close>

text \<open>The file a boot method offers.\<close>

definition boot_file :: "'a uefi \<Rightarrow> nat \<Rightarrow> boot_mode \<Rightarrow> string \<Rightarrow> u8 list option" where
  "boot_file U img mode name =
     (case mode of
        Disk \<Rightarrow> Option.bind (locate_and_open_protocol U SimpleFileSystem img) (\<lambda>fs.
          Option.bind (open_volume U fs) (\<lambda>root. case root name of Regular flen rd \<Rightarrow> rd flen | _ \<Rightarrow> None))
      | Tftp \<Rightarrow> Option.bind (locate_and_open_protocol U BaseCode img) (\<lambda>bc.
          Option.bind (dhcp_server U bc) (\<lambda>ip.
          Option.bind (tftp_get_file_size U bc ip name) (tftp_read_file U bc ip name))))"

text \<open>Pages are unused memory, and reading as many bytes as a file has gives that many.\<close>

locale uefi_pages =
  fixes U :: "'a uefi" and taken :: "'a \<Rightarrow> nat set"
  assumes allocate: "allocate_pages U n a = Some (p, a') \<Longrightarrow>
      {p..<p + n * 4096} \<inter> taken a = {} \<and> taken a \<union> {p..<p + n * 4096} \<subseteq> taken a'"
    and file_read: "open_volume U v = Some root \<Longrightarrow> root name = Regular flen rd \<Longrightarrow> rd flen = Some bs \<Longrightarrow> length bs = flen"
    and tftp_read: "tftp_get_file_size U bc ip name = Some flen \<Longrightarrow> tftp_read_file U bc ip name flen = Some bs \<Longrightarrow> length bs = flen"

section \<open>Lemmas\<close>

text \<open>What loading a file named \<open>name\<close> does: its bytes lie in new pages, everything in use is unchanged.\<close>

definition file_step ::
    "('a \<Rightarrow> nat set) \<Rightarrow> u8 list option \<Rightarrow> 'a uefi_state \<Rightarrow> (nat \<times> nat) option \<Rightarrow> 'a uefi_state \<Rightarrow> bool" where
  "file_step taken contents st r st' \<longleftrightarrow>
     taken (snd st) \<subseteq> taken (snd st') \<and> (\<forall>x\<in>taken (snd st). fst st' x = fst st x) \<and>
     (case r of
        None \<Rightarrow> contents = None
      | Some (p, len) \<Rightarrow> contents = Some (read_bytes (fst st') p len) \<and>
          {p..<p + len} \<inter> taken (snd st) = {} \<and> {p..<p + len} \<subseteq> taken (snd st'))"

lemma pages_cover: "0 < n \<Longrightarrow> n \<le> ((n - 1) div 4096 + 1) * (4096 :: nat)"
proof (cases n)
  case (Suc m)
  have "m mod 4096 < 4096" by simp
  with div_mult_mod_eq[of m 4096] have "Suc m \<le> m div 4096 * 4096 + 4096" by linarith
  with Suc show ?thesis by simp
qed simp

lemma trim_terminator: "CHR 0x00 \<notin> set name \<Longrightarrow> trim_nul (name @ [CHR 0x00]) = name"
  by (cases name rule: rev_cases) (auto simp: trim_nul_def)

context uefi_pages
begin

lemma new_pages_step:
  assumes alloc: "allocate_pages U ((flen - 1) div 4096 + 1) a = Some (p, a')" and flen: "0 < flen" and len: "length bs = flen"
    and m: "\<And>x. x \<notin> {p..<p + flen} \<Longrightarrow> m x = ram x"
  shows "file_step taken (Some bs) (ram, a) (Some (p, flen)) (write_slice m p bs, a')"
proof -
  let ?n = "((flen - 1) div 4096 + 1) * 4096"
  have sub: "{p..<p + flen} \<subseteq> {p..<p + ?n}" using pages_cover[OF flen] by auto
  have new: "{p..<p + ?n} \<inter> taken a = {}" "taken a \<union> {p..<p + ?n} \<subseteq> taken a'" using allocate[OF alloc] by auto
  have "write_slice m p bs x = ram x" if "x \<in> taken a" for x
  proof -
    have "x \<notin> {p..<p + flen}" using that new(1) sub by blast
    then show ?thesis using m[of x] len by (auto simp: write_slice_apply)
  qed
  moreover have "read_bytes (write_slice m p bs) p flen = bs" using read_write_slice[of m p bs] len by simp
  moreover have "{p..<p + flen} \<inter> taken a = {}" "{p..<p + flen} \<subseteq> taken a'" "taken a \<subseteq> taken a'"
    using new sub by blast+
  ultimately show ?thesis by (simp add: file_step_def)
qed

lemma load_file_from_disk_step:
  assumes ok: "load_file_from_disk U (name @ [CHR 0x00]) img (ram, a) = Ok (r, st')" and name: "CHR 0x00 \<notin> set name"
  shows "file_step taken (boot_file U img Disk name) (ram, a) r st'"
proof (cases "locate_and_open_protocol U SimpleFileSystem img")
  case None
  then show ?thesis using ok by (auto simp: load_file_from_disk_def boot_file_def file_step_def)
next
  case (Some fs)
  with ok obtain root where root: "open_volume U fs = Some root"
    by (auto simp: load_file_from_disk_def res_simps)
  show ?thesis
  proof (cases "root name")
    case (Regular flen rd)
    with ok Some root trim_terminator[OF name] obtain p a' bs where
      "0 < flen" "allocate_pages U ((flen - 1) div 4096 + 1) a = Some (p, a')" and rd: "rd flen = Some bs"
      and r: "r = Some (p, flen)" "st' = (write_slice (fill_bytes ram p 0 flen) p bs, a')"
      by (auto simp: load_file_from_disk_def res_simps Let_def Suc_le_eq)
    then have "file_step taken (Some bs) (ram, a) r st'"
      unfolding r by (intro new_pages_step file_read[OF root Regular]) (auto simp: fill_bytes_apply)
    then show ?thesis using Some root Regular rd by (simp add: boot_file_def)
  qed (use ok Some root trim_terminator[OF name] in
      \<open>auto simp: load_file_from_disk_def boot_file_def file_step_def res_simps\<close>)
qed

lemma load_file_from_tftp_step:
  assumes ok: "load_file_from_tftp_boot_server U (name @ [CHR 0x00]) img (ram, a) = Ok (r, st')" and name: "CHR 0x00 \<notin> set name"
  shows "file_step taken (boot_file U img Tftp name) (ram, a) r st'"
proof (cases "locate_and_open_protocol U BaseCode img")
  case None
  then show ?thesis using ok by (auto simp: load_file_from_tftp_boot_server_def boot_file_def file_step_def)
next
  case (Some bc)
  have cstr: "cstr8 (name @ [CHR 0x00]) = Ok name" using name by (simp add: cstr8_def)
  with ok Some obtain ip where ip: "dhcp_server U bc = Some ip"
    by (auto simp: load_file_from_tftp_boot_server_def res_simps)
  show ?thesis
  proof (cases "tftp_get_file_size U bc ip name")
    case None
    then show ?thesis using ok Some ip cstr
      by (auto simp: load_file_from_tftp_boot_server_def boot_file_def file_step_def res_simps)
  next
    case (Some flen)
    with ok ip cstr \<open>locate_and_open_protocol U BaseCode img = Some bc\<close> obtain p a' bs where
      "0 < flen" "allocate_pages U ((flen - 1) div 4096 + 1) a = Some (p, a')" and rd: "tftp_read_file U bc ip name flen = Some bs"
      and r: "r = Some (p, flen)" "st' = (write_slice ram p bs, a')"
      by (auto simp: load_file_from_tftp_boot_server_def res_simps Suc_le_eq)
    then have "file_step taken (Some bs) (ram, a) r st'"
      unfolding r by (intro new_pages_step tftp_read[OF Some]) auto
    then show ?thesis using Some ip rd \<open>locate_and_open_protocol U BaseCode img = Some bc\<close> by (simp add: boot_file_def)
  qed
qed

lemma load_file_step:
  assumes "load_file_from_boot_method U img (name @ [CHR 0x00]) mode st = Ok (r, st')" and "CHR 0x00 \<notin> set name"
  shows "file_step taken (boot_file U img mode name) st r st'"
  using assms load_file_from_disk_step load_file_from_tftp_step
  by (cases st; cases mode) (auto simp: load_file_from_boot_method_def)

text \<open>What is in use stays, so a loaded file survives the loading of the next one.\<close>

lemma file_step_keeps:
  assumes "file_step taken c st r st'" and "{p..<p + n} \<subseteq> taken (snd st)"
  shows "read_bytes (fst st') p n = read_bytes (fst st) p n"
proof (rule nth_equalityI)
  fix i assume i: "i < length (read_bytes (fst st') p n)"
  then have "p + i \<in> taken (snd st)" using assms(2) by (auto simp: subset_iff)
  then show "read_bytes (fst st') p n ! i = read_bytes (fst st) p n ! i" using assms(1) i by (simp add: file_step_def)
qed simp

lemma uefi_load_kernel_step:
  assumes ok: "uefi_load_kernel U elf_new sections img mode st = Ok (k, st')"
  shows "(k = None \<longrightarrow> boot_file U img mode ''kernel-x86_64'' = None \<and> taken (snd st) \<subseteq> taken (snd st') \<and> (\<forall>x\<in>taken (snd st). fst st' x = fst st x)) \<and>
    (\<forall>kernel. k = Some kernel \<longrightarrow> (\<exists>kf. boot_file U img mode ''kernel-x86_64'' = Some kf \<and> parse elf_new sections (start_address kernel) kf = Ok kernel \<and>
      file_step taken (Some kf) st (Some (start_address kernel, kernel_file_len kernel)) st'))"
proof -
  from ok obtain f where f: "load_file_from_boot_method U img (''kernel-x86_64'' @ [CHR 0x00]) mode st = Ok (f, st')"
    and k: "(case f of None \<Rightarrow> Ok (None, st') | Some (addr, len) \<Rightarrow>
      bindR (parse elf_new sections addr (read_bytes (fst st') addr len)) (\<lambda>kernel. Ok (Some kernel, st'))) = Ok (k, st')"
    by (auto simp: uefi_load_kernel_def res_simps split: option.splits)
  from load_file_step[OF f] have step: "file_step taken (boot_file U img mode ''kernel-x86_64'') st f st'" by simp
  show ?thesis
  proof (cases f)
    case None
    then show ?thesis using k step by (auto simp: file_step_def)
  next
    case (Some pl)
    obtain addr len where pl: "pl = (addr, len)" by (cases pl)
    from k Some pl obtain kernel where kern: "parse elf_new sections addr (read_bytes (fst st') addr len) = Ok kernel" "k = Some kernel"
      by (auto simp: res_simps)
    then have "start_address kernel = addr" "kernel_file_len kernel = len" by (auto simp: parse_def res_simps)
    with kern step Some pl show ?thesis by (auto simp: file_step_def)
  qed
qed

lemma selected_kernel:
  assumes k1: "uefi_load_kernel U elf_new sections img Disk (ram, a) = Ok (k1, s1)"
    and k2: "(case k1 of Some k \<Rightarrow> Ok (Disk, Some k, s1)
      | None \<Rightarrow> bindR (uefi_load_kernel U elf_new sections img Tftp s1) (\<lambda>(k, st). Ok (Tftp, k, st))) = Ok (mode, Some k, s2)"
  shows "\<exists>kf. boot_file U img mode ''kernel-x86_64'' = Some kf \<and> (mode = Tftp \<longrightarrow> boot_file U img Disk ''kernel-x86_64'' = None) \<and>
    parse elf_new sections (start_address k) kf = Ok k \<and> read_bytes (fst s2) (start_address k) (kernel_file_len k) = kf \<and>
    {start_address k..<start_address k + kernel_file_len k} \<subseteq> taken (snd s2) \<and> taken a \<subseteq> taken (snd s2) \<and> (\<forall>x\<in>taken a. fst s2 x = ram x)"
proof (cases k1)
  case None
  with k2 have "uefi_load_kernel U elf_new sections img Tftp s1 = Ok (Some k, s2)" "mode = Tftp" by (auto simp: res_simps)
  with uefi_load_kernel_step[OF k1] uefi_load_kernel_step[of elf_new sections img Tftp s1 "Some k" s2] None
  show ?thesis by (auto simp: file_step_def)
next
  case (Some k')
  with k2 uefi_load_kernel_step[OF k1] show ?thesis by (auto simp: file_step_def)
qed

end

text \<open>The failed search for an ACPI 2 table exhausts the iterator, so an ACPI 1 table is never found.\<close>

lemma iter_find_none: "(\<And>x. x \<in> set xs \<Longrightarrow> \<not> P x) \<Longrightarrow> iter_find P xs = (None, [])"
  by (induction xs) auto

lemma acpi1_never_found:
  assumes "\<And>e. e \<in> set config_table \<Longrightarrow> fst e \<noteq> ACPI2_GUID"
  shows "find_rsdp config_table = None"
  using iter_find_none[of config_table "\<lambda>e. fst e = ACPI2_GUID"] assms by (simp add: find_rsdp_def)

text \<open>A mode is applied only if it has the required size.\<close>

lemma wanted_mode_large:
  assumes "wanted_mode fb modes = Some m"
  shows "m \<in> set modes \<and> (\<forall>h. bfb_minimum_framebuffer_height fb = Some h \<longrightarrow> h \<le> gop_height m) \<and>
    (\<forall>w. bfb_minimum_framebuffer_width fb = Some w \<longrightarrow> w \<le> gop_width m)"
proof -
  have l: "x \<in> set modes \<and> P x" if "last_option (filter P modes) = Some x" for P x
    using that last_in_set[of "filter P modes"] by (auto simp: last_option_def split: if_splits)
  show ?thesis
    using assms by (cases "bfb_minimum_framebuffer_height fb"; cases "bfb_minimum_framebuffer_width fb") (auto simp: wanted_mode_def dest: l)
qed

subsection \<open>A reference firmware\<close>

text \<open>A volume and a server that hold the files of a map each; pages are handed out upwards.\<close>

definition ref_uefi :: "(string \<rightharpoonup> u8 list) \<Rightarrow> (string \<rightharpoonup> u8 list) \<Rightarrow> nat uefi" where
  "ref_uefi dsk net = \<lparr>loaded_image_device = Some, open_device_path = Some, locate_device_path = (\<lambda>_. Some), open_protocol = (\<lambda>_. Some),
     open_volume = (\<lambda>_. Some (\<lambda>name. case dsk name of None \<Rightarrow> OpenFailed | Some bs \<Rightarrow> Regular (length bs) (\<lambda>n. Some (take n bs)))),
     dhcp_server = Some, tftp_get_file_size = (\<lambda>_ _ name. map_option length (net name)), tftp_read_file = (\<lambda>_ _ name n. map_option (take n) (net name)),
     allocate_pages = (\<lambda>n a. Some (a, a + n * 4096))\<rparr>"

interpretation ref_firmware: uefi_pages "ref_uefi dsk net" "\<lambda>a. {..<a}" for dsk net
  by unfold_locales (auto simp: ref_uefi_def split: option.splits)

section \<open>Properties\<close>

text \<open>C7. A UEFI boot has its files in place: when loading returns, the kernel is the parsed file of the boot volume, or of the
  TFTP server when the volume has none; the bytes of that file are at the kernel's address, the configuration is that of the same
  source, the ramdisk is there if and only if the same source has one, with its bytes and apart from the kernel, and no
  memory that was in use before has changed.\<close>

theorem uefi_files_in_place:
  assumes pages: "uefi_pages U taken"
    and ok: "uefi_load X U elf_new sections J g img (ram, a) = Ok (k, config, fb, ramdisk, ram', a')"
  shows "\<exists>mode kf. boot_file U img mode ''kernel-x86_64'' = Some kf \<and> (mode = Tftp \<longrightarrow> boot_file U img Disk ''kernel-x86_64'' = None) \<and>
    parse elf_new sections (start_address k) kf = Ok k \<and> read_bytes ram' (start_address k) (kernel_file_len k) = kf \<and>
    config = load_boot_config J (kernel_config k) (boot_file U img mode ''boot.json'') \<and>
    (case ramdisk of
       None \<Rightarrow> boot_file U img mode ''ramdisk'' = None
     | Some (p, n) \<Rightarrow> boot_file U img mode ''ramdisk'' = Some (read_bytes ram' p n) \<and>
         {p..<p + n} \<inter> {start_address k..<start_address k + kernel_file_len k} = {}) \<and>
    (\<forall>x\<in>taken a. ram' x = ram x)"
proof -
  let ?K = "{start_address k..<start_address k + kernel_file_len k}"
  from ok obtain k1 s1 mode s2 cf s3 where k1: "uefi_load_kernel U elf_new sections img Disk (ram, a) = Ok (k1, s1)"
    and k2: "(case k1 of Some k \<Rightarrow> Ok (Disk, Some k, s1)
      | None \<Rightarrow> bindR (uefi_load_kernel U elf_new sections img Tftp s1) (\<lambda>(k, st). Ok (Tftp, k, st))) = Ok (mode, Some k, s2)"
    and cf: "load_config_file U img mode s2 = Ok (cf, s3)"
    and config: "config = load_boot_config J (kernel_config k) (map_option (\<lambda>(addr, len). read_bytes (fst s3) addr len) cf)"
    and rd: "load_ramdisk U img mode s3 = Ok (ramdisk, ram', a')"
    by (auto simp: uefi_load_def res_simps Let_def split: prod.splits)
  from uefi_pages.selected_kernel[OF pages k1 k2] obtain kf where
    kf: "boot_file U img mode ''kernel-x86_64'' = Some kf" "mode = Tftp \<longrightarrow> boot_file U img Disk ''kernel-x86_64'' = None"
      "parse elf_new sections (start_address k) kf = Ok k" "read_bytes (fst s2) (start_address k) (kernel_file_len k) = kf"
    and t2: "?K \<subseteq> taken (snd s2)" "taken a \<subseteq> taken (snd s2)" "\<forall>x\<in>taken a. fst s2 x = ram x" by blast
  have c: "file_step taken (boot_file U img mode ''boot.json'') s2 cf s3"
    by (rule uefi_pages.load_file_step[OF pages cf[unfolded load_config_file_def]]) simp
  have r: "file_step taken (boot_file U img mode ''ramdisk'') s3 ramdisk (ram', a')"
    by (rule uefi_pages.load_file_step[OF pages rd[unfolded load_ramdisk_def]]) simp
  have t3: "?K \<subseteq> taken (snd s3)" "taken (snd s2) \<subseteq> taken (snd s3)" using c t2(1) by (auto simp: file_step_def)
  have "read_bytes ram' (start_address k) (kernel_file_len k) = kf"
    using uefi_pages.file_step_keeps[OF pages c t2(1)] uefi_pages.file_step_keeps[OF pages r t3(1)] kf(4) by simp
  moreover have "map_option (\<lambda>(addr, len). read_bytes (fst s3) addr len) cf = boot_file U img mode ''boot.json''"
    using c by (auto simp: file_step_def split: option.splits)
  moreover have "{p..<p + n} \<inter> ?K = {}" if "ramdisk = Some (p, n)" for p n
  proof -
    have "{p..<p + n} \<inter> taken (snd s3) = {}" using r that by (simp add: file_step_def)
    then show ?thesis using t3(1) by blast
  qed
  then have "case ramdisk of None \<Rightarrow> boot_file U img mode ''ramdisk'' = None
     | Some (p, n) \<Rightarrow> boot_file U img mode ''ramdisk'' = Some (read_bytes ram' p n) \<and> {p..<p + n} \<inter> ?K = {}"
    using r by (cases ramdisk) (auto simp: file_step_def)
  moreover have "ram' x = ram x" if "x \<in> taken a" for x
    using that t2 t3 c r by (auto simp: file_step_def subset_iff)
  ultimately show ?thesis using kf config by (intro exI[of _ mode] exI[of _ kf] conjI) (simp_all only: ball_simps, auto)
qed

text \<open>A volume without a kernel and a server with a kernel and a ramdisk.\<close>

definition example_net :: "string \<rightharpoonup> u8 list" where
  "example_net = [''kernel-x86_64'' \<mapsto> [1, 2, 3], ''ramdisk'' \<mapsto> [4, 5]]"

lemma ref_loads:
  assumes "CHR 0x00 \<notin> set name" and "length name < 255"
  shows "load_file_from_boot_method (ref_uefi Map.empty net) img (name @ [CHR 0x00]) Disk (ram, a) = Ok (None, ram, a)"
    and "net name = None \<Longrightarrow> load_file_from_boot_method (ref_uefi Map.empty net) img (name @ [CHR 0x00]) Tftp (ram, a) = Ok (None, ram, a)"
    and "net name = Some bs \<Longrightarrow> bs \<noteq> [] \<Longrightarrow> load_file_from_boot_method (ref_uefi Map.empty net) img (name @ [CHR 0x00]) Tftp (ram, a) =
      Ok (Some (a, length bs), write_slice ram a bs, a + ((length bs - 1) div 4096 + 1) * 4096)"
proof -
  have t: "trim_nul (name @ [CHR 0x00]) = name" "cstr8 (name @ [CHR 0x00]) = Ok name"
    using assms(1) trim_terminator by (simp_all add: cstr8_def)
  note d = load_file_from_boot_method_def ref_uefi_def locate_and_open_protocol_def open_device_path_protocol_def
  show "load_file_from_boot_method (ref_uefi Map.empty net) img (name @ [CHR 0x00]) Disk (ram, a) = Ok (None, ram, a)"
    using assms(2) t by (simp add: d load_file_from_disk_def)
  show "net name = None \<Longrightarrow> load_file_from_boot_method (ref_uefi Map.empty net) img (name @ [CHR 0x00]) Tftp (ram, a) = Ok (None, ram, a)"
    using assms(2) t by (simp add: d load_file_from_tftp_boot_server_def)
  show "net name = Some bs \<Longrightarrow> bs \<noteq> [] \<Longrightarrow> load_file_from_boot_method (ref_uefi Map.empty net) img (name @ [CHR 0x00]) Tftp (ram, a) =
      Ok (Some (a, length bs), write_slice ram a bs, a + ((length bs - 1) div 4096 + 1) * 4096)"
    using assms(2) t by (cases bs) (simp_all add: d load_file_from_tftp_boot_server_def sub_w_def)
qed

lemma example_uefi_load:
  "\<exists>k config ram' a'. uefi_load x86_ref (ref_uefi Map.empty example_net) (\<lambda>_. Ok (elf entry_kernel)) (\<lambda>_ _. Some (serialize entry_config)) (\<lambda>_. None) None 0
     (\<lambda>_. 0, 0x100000) = Ok (k, config, None, Some (0x101000, 2), ram', a') \<and> start_address k = 0x100000 \<and> kernel_file_len k = 3"
proof -
  let ?U = "ref_uefi Map.empty example_net"
  have "length (serialize entry_config) = SERIALIZED_LEN" by (rule length_serialize)
  then have d: "deserialize (serialize entry_config) = Ok entry_config" by (simp add: serialize_layout deserialize_def)
  have n: "example_net ''kernel-x86_64'' = Some [1, 2, 3]" "example_net ''ramdisk'' = Some [4, 5]" "example_net ''boot.json'' = None"
    by (simp_all add: example_net_def)
  have files: "load_file_from_boot_method ?U 0 (''kernel-x86_64'' @ [CHR 0x00]) Disk (ram, a) = Ok (None, ram, a)"
    "load_file_from_boot_method ?U 0 (''kernel-x86_64'' @ [CHR 0x00]) Tftp (ram, a) = Ok (Some (a, 3), write_slice ram a [1, 2, 3], a + 4096)"
    "load_file_from_boot_method ?U 0 (''boot.json'' @ [CHR 0x00]) Tftp (ram, a) = Ok (None, ram, a)"
    "load_file_from_boot_method ?U 0 (''ramdisk'' @ [CHR 0x00]) Tftp (ram, a) = Ok (Some (a, 2), write_slice ram a [4, 5], a + 4096)" for ram a
    using ref_loads(1)[of "''kernel-x86_64''" example_net 0 ram a] ref_loads(2)[of "''boot.json''" example_net 0 ram a]
      ref_loads(3)[of "''kernel-x86_64''" example_net "[1, 2, 3]" 0 ram a] ref_loads(3)[of "''ramdisk''" example_net "[4, 5]" 0 ram a] n
    by (simp_all del: append.simps)
  show ?thesis
    unfolding uefi_load_def uefi_load_kernel_def load_config_file_def load_ramdisk_def files
    by (simp add: files d parse_def uefi_init_logger_def del: append.simps)
qed

theorem uefi_files_in_place_witness:
  "\<exists>k config ram' a'. uefi_load x86_ref (ref_uefi Map.empty example_net) (\<lambda>_. Ok (elf entry_kernel)) (\<lambda>_ _. Some (serialize entry_config)) (\<lambda>_. None) None 0
     (\<lambda>_. 0, 0x100000) = Ok (k, config, None, Some (0x101000, 2), ram', a') \<and>
     read_bytes ram' 0x100000 3 = [1, 2, 3] \<and> read_bytes ram' 0x101000 2 = [4, 5] \<and> ram' 0xfffff = 0"
proof -
  obtain k config ram' a' where run: "uefi_load x86_ref (ref_uefi Map.empty example_net) (\<lambda>_. Ok (elf entry_kernel))
      (\<lambda>_ _. Some (serialize entry_config)) (\<lambda>_. None) None 0 (\<lambda>_. 0, 0x100000) = Ok (k, config, None, Some (0x101000, 2), ram', a')"
    and k: "start_address k = 0x100000" "kernel_file_len k = 3"
    using example_uefi_load by blast
  have files: "boot_file (ref_uefi Map.empty example_net) 0 Disk name = None" "boot_file (ref_uefi Map.empty example_net) 0 Tftp name =
      (case example_net name of None \<Rightarrow> None | Some bs \<Rightarrow> Some bs)" for name
    by (auto simp: boot_file_def ref_uefi_def locate_and_open_protocol_def open_device_path_protocol_def split: option.splits)
  from uefi_files_in_place[OF ref_firmware.uefi_pages_axioms run] obtain mode kf where
    m: "boot_file (ref_uefi Map.empty example_net) 0 mode ''kernel-x86_64'' = Some kf" "read_bytes ram' 0x100000 3 = kf"
      "boot_file (ref_uefi Map.empty example_net) 0 mode ''ramdisk'' = Some (read_bytes ram' 0x101000 2)" "\<forall>x\<in>{..<0x100000}. ram' x = 0"
    unfolding k by auto
  moreover have "mode = Tftp" using m(1) files(1) by (cases mode) auto
  moreover have "boot_file (ref_uefi Map.empty example_net) 0 Tftp ''kernel-x86_64'' = Some [1, 2, 3]"
    "boot_file (ref_uefi Map.empty example_net) 0 Tftp ''ramdisk'' = Some [4, 5]"
    unfolding files by (simp_all add: example_net_def)
  ultimately have "kf = [1, 2, 3]" "read_bytes ram' 0x101000 2 = [4, 5]" "ram' 0xfffff = 0" by simp_all
  then show ?thesis using run m(2) by blast
qed

end
