(* ===== verification/Spec2Isabelle.thy ===== *)
theory Spec2Isabelle
  imports Stage_3 Disk_Image Framebuffer Entropy Uefi
begin

text \<open>
  A verification library of an x86-64 bootloader for BIOS and UEFI systems written in Rust.

  \<^bold>\<open>The program.\<close>  On the host, \<^verbatim>\<open>DiskImageBuilder\<close> (\<^verbatim>\<open>src/src/lib.rs\<close>) packs the kernel, a ramdisk, a
  configuration file and the later stages into a FAT file system inside an MBR or GPT image.  A BIOS
  boot runs through four stages: the boot sector (\<^verbatim>\<open>src/bios/boot_sector\<close>) loads stage 2 from the first
  partition; stage 2 (\<^verbatim>\<open>src/bios/stage-2\<close>), in real mode, reads stage 3, stage 4, the kernel, the ramdisk
  and the configuration from the FAT partition, asks the firmware for the memory map and a graphics
  mode; stage 3 (\<^verbatim>\<open>src/bios/stage-3\<close>) sets up an identity mapping and enters long mode; stage 4
  (\<^verbatim>\<open>src/bios/stage-4\<close>) prepares the frame allocator and the page tables.  A UEFI boot
  (\<^verbatim>\<open>src/uefi\<close>) loads the same files through firmware protocols.  Both then call
  \<^verbatim>\<open>load_and_switch_to_kernel\<close> (\<^verbatim>\<open>src/common/src/lib.rs\<close>), which loads the kernel's ELF segments, maps its stack
  and the devices, writes the boot information (\<^verbatim>\<open>src/api/src/info.rs\<close>) as the kernel's configuration
  section (\<^verbatim>\<open>src/api/src/config.rs\<close>) demands and jumps to the entry point.

  \<^bold>\<open>Conventions.\<close>  A Rust computation returns \<open>'a res\<close>: \<open>Ok\<close>, a returned \<open>Err\<close> or a \<open>Panic\<close>.  Integers are
  natural numbers; every operation that can overflow is \<open>add_w\<close>, \<open>sub_w\<close>, \<open>mul_w\<close>, which panic as the
  profiles with overflow checks do, or is written with \<open>mod\<close> where the source casts or, in the boot
  sector, wraps.  Bytes are \<open>8 word\<close>.  A struct is a record, mutation is state passing, physical memory is a
  function from addresses to bytes.  Code outside \<^verbatim>\<open>src/\<close> is a parameter: crates and firmware are records of
  operations or functions, and a locale names what they document.  Every such locale is
  interpreted on a reference instance, which the witnesses also use.

  \<^bold>\<open>Shared theories.\<close>
  \<^item> \<^verbatim>\<open>Rust_Prelude\<close>: \<open>res\<close>, loops (\<open>foldR\<close> with rules for partial and total correctness), integers, bytes.
  \<^item> \<^verbatim>\<open>X86_Addresses\<close>: addresses, frames and pages of the crate \<^verbatim>\<open>x86_64\<close>; locale \<open>x86_64\<close>.
  \<^item> \<^verbatim>\<open>Physical_Memory\<close>: reading and writing memory.

  \<^bold>\<open>Common part.\<close>
  \<^item> \<^verbatim>\<open>Config\<close> (\<^verbatim>\<open>api/src/config.rs\<close>): serialising and parsing the configuration section; the two are inverse
    to each other and the parser never panics.
  \<^item> \<^verbatim>\<open>Boot_Info\<close> (\<^verbatim>\<open>api/src/info.rs\<close>): the data handed to the kernel.
  \<^item> \<^verbatim>\<open>Memory_Regions\<close> (\<^verbatim>\<open>common/src/legacy_memory_region.rs\<close> and both \<^verbatim>\<open>memory_descriptor.rs\<close>): the frame
    allocator refines "take the least free frame", always returns and gives no frame twice; the memory
    map has the documented kind for every address and offers neither allocated frames nor the kernel's
    file as usable.
  \<^item> \<^verbatim>\<open>Level_4_Entries\<close> (\<^verbatim>\<open>common/src/level_4_entries.rs\<close>): dynamic addresses are fresh, avoid the kernel, lie in
    the configured range and are found when there is space.
  \<^item> \<^verbatim>\<open>Elf_File\<close>, \<^verbatim>\<open>Page_Tables\<close>, \<^verbatim>\<open>Load_Kernel\<close>, \<^verbatim>\<open>Kernel_Memory\<close>, \<^verbatim>\<open>Kernel_Image\<close>, \<^verbatim>\<open>Kernel_Loader\<close>
    (\<^verbatim>\<open>common/src/load_kernel.rs\<close>): after \<open>load_segments\<close> the kernel's virtual memory is its image, with zeroes
    behind the file data, relocations applied and the pages protected.
  \<^item> \<^verbatim>\<open>Kernel_Setup\<close>, \<^verbatim>\<open>Kernel_Start\<close>, \<^verbatim>\<open>Kernel_Entry\<close> (\<^verbatim>\<open>common/src/lib.rs\<close>, \<^verbatim>\<open>gdt.rs\<close>): at the first instruction
    of the kernel its image, stack, boot information and devices are where the registers and the boot
    information say, and the memory map does not offer the memory they use.
  \<^item> \<^verbatim>\<open>Framebuffer\<close> (\<^verbatim>\<open>common/src/framebuffer.rs\<close>, \<^verbatim>\<open>bios/stage-3/src/screen.rs\<close>): writing text never panics on a
    usable mode and touches only visible pixels, and a character is drawn as its bitmap.
  \<^item> \<^verbatim>\<open>Entropy\<close> (\<^verbatim>\<open>common/src/entropy.rs\<close>): the seed is the exclusive or of its sources.

  \<^bold>\<open>BIOS stages.\<close>
  \<^item> \<^verbatim>\<open>Boot_Sector\<close>: the sectors named in the partition table are loaded, nothing else changes.
  \<^item> \<^verbatim>\<open>Bios_Disk\<close>, \<^verbatim>\<open>Fat\<close>, \<^verbatim>\<open>Load_File\<close> (\<^verbatim>\<open>disk.rs\<close>, \<^verbatim>\<open>dap.rs\<close>, \<^verbatim>\<open>fat.rs\<close> and \<^verbatim>\<open>try_load_file\<close> of stage 2): the table
    lookup equals the table on disk, names are decoded, and a file's bytes arrive at its destination.
  \<^item> \<^verbatim>\<open>Memory_Query\<close>, \<^verbatim>\<open>Vesa\<close> (\<^verbatim>\<open>memory_map.rs\<close>, \<^verbatim>\<open>vesa.rs\<close>): the memory map is the firmware's, the mode the largest.
  \<^item> \<^verbatim>\<open>Stage_2\<close> (\<^verbatim>\<open>main.rs\<close>): all files are in place at the announced ranges.
  \<^item> \<^verbatim>\<open>Stage_3\<close> (\<^verbatim>\<open>paging.rs\<close>, \<^verbatim>\<open>gdt.rs\<close>): the page walk maps the first 10 GiB to themselves, segments are flat.
  \<^item> \<^verbatim>\<open>Stage_4\<close> (\<^verbatim>\<open>main.rs\<close>, \<^verbatim>\<open>common/config\<close>): what stage 2 loaded survives until the kernel starts.

  \<^bold>\<open>UEFI and the host.\<close>
  \<^item> \<^verbatim>\<open>Uefi\<close> (\<^verbatim>\<open>uefi/src/main.rs\<close>): files come from one source, arrive unchanged and apart from each other.
  \<^item> \<^verbatim>\<open>Disk_Image\<close> (\<^verbatim>\<open>src/src/*.rs\<close>): the image built for BIOS boots, through the models of the boot sector and of
    stage 2, into the embedded second stage, which finds the partition with the files.

  \<^bold>\<open>Fuel.\<close>  Loops whose end depends on the disk or the firmware take fuel and give \<open>None\<close> without it: cluster
  chains (more fuel than clusters), the memory map (as much as entries) and the mode list (more than
  modes).  The theorems state that such fuel gives a result.  All other loops terminate by definition.

  \<^bold>\<open>Not modelled.\<close>  Assembly and mode switches (\<^verbatim>\<open>boot.s\<close>, \<^verbatim>\<open>protected_mode.rs\<close>, the jump in \<^verbatim>\<open>stage-3/src/main.rs\<close>)
  and register loads, because they are below the level of the model; the logger's lock, the
  serial port and the text output of stage 2, which are output only; the front ends \<^verbatim>\<open>BiosBoot\<close> and
  \<^verbatim>\<open>UefiBoot\<close>, which forward to the builder; the entry point macro of \<^verbatim>\<open>api/src/lib.rs\<close> and the build
  scripts, which act at compile time; \<^verbatim>\<open>src/src/disk_image.rs\<close>, which no crate contains.
\<close>

end
